theory Spec2Isabelle
  imports Main "HOL-Library.Word" "HOL-Library.Signed_Division" "HOL-Library.Product_Lexorder"
begin

section \<open>Embedding of the ORC and Parquet readers\<close>

text \<open>
  The definitions below follow \<^verbatim>\<open>be/src/vec/exec/format/orc/vorc_reader.{h,cpp}\<close> and
  \<^verbatim>\<open>be/src/vec/exec/format/parquet/vparquet_reader.cpp\<close>. Results of collaborators
  whose code lives elsewhere (the ORC library, the page-index parser, the expression
  evaluator, the file system) enter as parameters or as fields of the modelled state.
\<close>

subsection \<open>Status values\<close>

text \<open>
  \<^verbatim>\<open>doris::Status\<close>: the codes the two readers construct themselves, with their message.
  A status handed up from a collaborator is any value of this type other than \<open>OK\<close>.
\<close>

datatype status =
    OK
  | EndOfFile string
  | NotFound string
  | InternalError string
  | IOError string
  | Corruption string

subsection \<open>Table-to-file column mapping\<close>

text \<open>
  \<^verbatim>\<open>TableSchemaChangeHelper::Node\<close>, as the readers use it: whether a table column has a
  counterpart in the file, and the name of that file column.
\<close>

record table_info_node =
  children_column_exists :: "string \<Rightarrow> bool"
  children_file_column_name :: "string \<Rightarrow> string"


subsection \<open>Formatting and machine arithmetic\<close>

text \<open>
  Numbers in messages are written in decimal, as \<^verbatim>\<open>operator<<\<close>, \<^verbatim>\<open>fmt\<close> and
  \<^verbatim>\<open>absl::Substitute\<close> write them.
\<close>

definition digit_char :: "nat \<Rightarrow> char" where
  "digit_char d = char_of (48 + d)"

fun nat_to_string :: "nat \<Rightarrow> string" where
  "nat_to_string n =
     (if n < 10 then [digit_char n] else nat_to_string (n div 10) @ [digit_char (n mod 10)])"

declare nat_to_string.simps [simp del]

definition int_to_string :: "int \<Rightarrow> string" where
  "int_to_string i = (if i < 0 then CHR ''-'' # nat_to_string (nat (- i)) else nat_to_string (nat i))"

text \<open>
  The result of an \<^verbatim>\<open>int64_t\<close> addition or subtraction, given the exact result: the
  value wraps around to the 64-bit two's-complement range.
\<close>

definition int64_wrap :: "int \<Rightarrow> int" where
  "int64_wrap x = signed_take_bit 63 x"
subsection \<open>Position deletes and ACID deletes (OrcReader)\<close>

text \<open>
  \<^verbatim>\<open>IColumn::Filter\<close> is an array of \<^verbatim>\<open>UInt8\<close>. The ordered row ids are a
  \<^verbatim>\<open>std::vector<int64_t>\<close>; the row number and the batch size are \<^verbatim>\<open>uint64_t\<close>, so
  every comparison of the two binary searches and the index \<^verbatim>\<open>*l - start\<close> are computed
  on unsigned 64-bit values (the usual arithmetic conversions). Row ids are therefore
  kept as their 64-bit patterns; \<open><\<close> on words is the unsigned order.

  \<^verbatim>\<open>std::lower_bound\<close> and \<^verbatim>\<open>std::upper_bound\<close> are the halving searches of the
  standard library over the index range \<open>[first, first + len)\<close>; every index they read
  lies inside that range.
\<close>

type_synonym filter_t = "8 word list"

function lower_bound :: "'a::linorder list \<Rightarrow> nat \<Rightarrow> nat \<Rightarrow> 'a \<Rightarrow> nat" where
  "lower_bound xs first len v =
     (if len = 0 then first
      else (let half = len div 2; mid = first + half
            in if xs ! mid < v
               then lower_bound xs (mid + 1) (len - half - 1) v
               else lower_bound xs first half v))"
  by pat_completeness auto
termination
  by (relation "measure (\<lambda>(xs, first, len, v). len)") auto

function upper_bound :: "'a::linorder list \<Rightarrow> nat \<Rightarrow> nat \<Rightarrow> 'a \<Rightarrow> nat" where
  "upper_bound xs first len v =
     (if len = 0 then first
      else (let half = len div 2; mid = first + half
            in if v < xs ! mid
               then upper_bound xs first half v
               else upper_bound xs (mid + 1) (len - half - 1) v))"
  by pat_completeness auto
termination
  by (relation "measure (\<lambda>(xs, first, len, v). len)") auto

declare lower_bound.simps [simp del] upper_bound.simps [simp del]

text \<open>
  The loop \<^verbatim>\<open>for (; l < r; l++) filter[*l - start] = 0\<close> of
  \<^verbatim>\<open>OrcReader::_execute_filter_position_delete_rowids\<close>, run over the row ids between
  the two iterators. A write outside the filter array is undefined behaviour in the
  source; the model returns \<open>None\<close> there.
\<close>

primrec clear_filter :: "64 word \<Rightarrow> 64 word list \<Rightarrow> filter_t \<Rightarrow> filter_t option" where
  "clear_filter start [] f = Some f"
| "clear_filter start (x # xs) f =
     (let idx = unat (x - start)
      in if idx < length f then clear_filter start xs (f[idx := 0]) else None)"

definition execute_filter_position_delete_rowids ::
  "64 word list option \<Rightarrow> 64 word \<Rightarrow> 64 word \<Rightarrow> filter_t \<Rightarrow> filter_t option" where
  "execute_filter_position_delete_rowids rowids start nums f =
     (case rowids of
        None \<Rightarrow> Some f
      | Some xs \<Rightarrow>
          (let l = lower_bound xs 0 (length xs) start;
               r = upper_bound xs 0 (length xs) (start + nums - 1)
           in clear_filter start (take (r - l) (drop l xs)) f))"

text \<open>
  \<^verbatim>\<open>OrcReader::_build_delete_row_filter\<close> (transactional Hive). The block supplies the
  three ACID columns; the reader keeps the delete set and the filter it builds. Reading
  a column beyond its size is undefined behaviour in the source and \<open>None\<close> here.
\<close>

type_synonym acid_row_id = "64 word \<times> 32 word \<times> 64 word"

record acid_block =
  original_transaction_column :: "64 word list"
  bucket_id_column :: "32 word list"
  row_id_column :: "64 word list"

record orc_delete_state =
  delete_rows :: "acid_row_id set option"
  delete_rows_filter_ptr :: "filter_t option"
  position_delete_ordered_rowids :: "64 word list option"

definition build_delete_row_filter ::
  "orc_delete_state \<Rightarrow> acid_block \<Rightarrow> nat \<Rightarrow> orc_delete_state option" where
  "build_delete_row_filter s blk rows =
     (case delete_rows s of
        None \<Rightarrow> Some s
      | Some dr \<Rightarrow>
          if rows \<le> length (original_transaction_column blk) \<and>
             rows \<le> length (bucket_id_column blk) \<and>
             rows \<le> length (row_id_column blk)
          then Some (s\<lparr>delete_rows_filter_ptr :=
                 Some (fold (\<lambda>i flt.
                         if (original_transaction_column blk ! i,
                             bucket_id_column blk ! i,
                             row_id_column blk ! i) \<in> dr
                         then flt[i := 0] else flt)
                       [0..<rows] (replicate rows 1))\<rparr>)
          else None)"

subsection \<open>Decimal decoding (OrcReader)\<close>

text \<open>
  \<^verbatim>\<open>DecimalScaleParams\<close> as \<^verbatim>\<open>vorc_reader.h\<close> uses it: a tag and an \<^verbatim>\<open>int64_t\<close> factor.
\<close>

datatype scale_type_t = NOT_INIT | NO_SCALE | SCALE_UP | SCALE_DOWN

record DecimalScaleParams =
  scale_type :: scale_type_t
  scale_factor :: int

definition temp_scale_params :: DecimalScaleParams where
  "temp_scale_params = \<lparr>scale_type = NOT_INIT, scale_factor = 1\<rparr>"

text \<open>
  Modelled from the spec: \<^verbatim>\<open>DecimalScaleParams::get_scale_factor\<close> is declared outside
  the files at hand; the specification gives the rescale factor as \<open>10^|S' - S|\<close>.
\<close>

definition get_scale_factor :: "nat \<Rightarrow> int" where
  "get_scale_factor n = 10 ^ n"

text \<open>
  \<^verbatim>\<open>cast_set<int64_t>\<close> refuses a value outside the range of \<^verbatim>\<open>int64_t\<close>.
\<close>

definition cast_set_int64 :: "int \<Rightarrow> int option" where
  "cast_set_int64 x = (if - (2 ^ 63) \<le> x \<and> x < 2 ^ 63 then Some x else None)"

text \<open>
  \<^verbatim>\<open>OrcReader::_init_decimal_converter\<close>: \<open>dest_scale\<close> is the scale of the requested
  type, \<open>orc_decimal_scale\<close> the scale recorded in the file.
\<close>

definition init_decimal_converter ::
  "int \<Rightarrow> DecimalScaleParams \<Rightarrow> int \<Rightarrow> DecimalScaleParams option" where
  "init_decimal_converter dest_scale scale_params orc_decimal_scale =
     (if scale_type scale_params \<noteq> NOT_INIT then Some scale_params
      else if dest_scale > orc_decimal_scale then
        map_option (\<lambda>k. \<lparr>scale_type = SCALE_UP, scale_factor = k\<rparr>)
          (cast_set_int64 (get_scale_factor (nat (dest_scale - orc_decimal_scale))))
      else if dest_scale < orc_decimal_scale then
        map_option (\<lambda>k. \<lparr>scale_type = SCALE_DOWN, scale_factor = k\<rparr>)
          (cast_set_int64 (get_scale_factor (nat (orc_decimal_scale - dest_scale))))
      else Some \<lparr>scale_type = NO_SCALE, scale_factor = 1\<rparr>)"

text \<open>
  The two ORC batch kinds. A \<^verbatim>\<open>Decimal64VectorBatch\<close> holds \<^verbatim>\<open>int64_t\<close> values; a
  \<^verbatim>\<open>Decimal128VectorBatch\<close> holds \<^verbatim>\<open>orc::Int128\<close> values, read through their high and
  low 64 bits, both taken as \<^verbatim>\<open>uint64_t\<close> and recombined in an \<^verbatim>\<open>int128_t\<close>. The first
  component is the batch's \<^verbatim>\<open>scale\<close>.
\<close>

datatype orc_decimal_batch =
    Decimal64VectorBatch int "64 word list"
  | Decimal128VectorBatch int "(64 word \<times> 64 word) list"

fun batch_scale :: "orc_decimal_batch \<Rightarrow> int" where
  "batch_scale (Decimal64VectorBatch s _) = s"
| "batch_scale (Decimal128VectorBatch s _) = s"

definition int128_of_hi_lo :: "64 word \<times> 64 word \<Rightarrow> int" where
  "int128_of_hi_lo hl = signed_take_bit 127 (or (push_bit 64 (uint (fst hl))) (uint (snd hl)))"

fun batch_values :: "orc_decimal_batch \<Rightarrow> int list" where
  "batch_values (Decimal64VectorBatch _ vs) = map sint vs"
| "batch_values (Decimal128VectorBatch _ vs) = map int128_of_hi_lo vs"

text \<open>
  One iteration of the three loops of \<^verbatim>\<open>_decode_explicit_decimal_column\<close>: the branch on
  the scale type is taken outside the loop, the arithmetic is that of \<^verbatim>\<open>int128_t\<close>
  (\<^verbatim>\<open>*=\<close> wraps, \<^verbatim>\<open>/=\<close> truncates toward zero), and the result is narrowed to the native
  type of the requested decimal, \<open>w\<close> bits wide.
\<close>

definition scale_up_value :: "int \<Rightarrow> nat \<Rightarrow> int \<Rightarrow> int" where
  "scale_up_value factor w v = signed_take_bit (w - 1) (signed_take_bit 127 (v * factor))"

definition scale_down_value :: "int \<Rightarrow> nat \<Rightarrow> int \<Rightarrow> int" where
  "scale_down_value factor w v = signed_take_bit (w - 1) (v sdiv factor)"

definition no_scale_value :: "nat \<Rightarrow> int \<Rightarrow> int" where
  "no_scale_value w v = signed_take_bit (w - 1) v"

record orc_decimal_state =
  decimal_scale_params :: "DecimalScaleParams list"
  decimal_scale_params_index :: nat

text \<open>
  \<^verbatim>\<open>OrcReader::_decode_explicit_decimal_column\<close>. The batch \<open>cvb\<close> is either of the expected
  kind (\<open>Inr\<close>) or of another one, for which the \<^verbatim>\<open>dynamic_cast\<close> fails and of which only
  the text of \<^verbatim>\<open>toString\<close> matters (\<open>Inl\<close>); \<open>w\<close> and \<open>dest_scale\<close> come from the requested
  data type. The function returns the status, the reader state and the column data.
  Reading the parameter vector or the batch beyond their size is undefined behaviour in
  the source and an internal error here, as is the exception of \<^verbatim>\<open>cast_set\<close>.
\<close>

definition decode_explicit_decimal_column ::
  "string \<Rightarrow> orc_decimal_state \<Rightarrow> nat \<Rightarrow> int \<Rightarrow> string + orc_decimal_batch \<Rightarrow> int list \<Rightarrow> nat
   \<Rightarrow> status \<times> orc_decimal_state \<times> int list" where
  "decode_explicit_decimal_column col_name st w dest_scale cvb column_data num_values =
     (case cvb of
        Inl cvb_string \<Rightarrow>
          (InternalError (''Wrong data type for column '' @ [CHR 0x27] @ col_name @
                          [CHR 0x27] @ '', expected '' @ cvb_string), st, column_data)
      | Inr data \<Rightarrow>
          (case (if decimal_scale_params_index st \<ge> length (decimal_scale_params st)
                 then map_option (\<lambda>p. decimal_scale_params st @ [p])
                        (init_decimal_converter dest_scale temp_scale_params (batch_scale data))
                 else Some (decimal_scale_params st)) of
             None \<Rightarrow> (InternalError ''cast_set: value out of range'', st, column_data)
           | Some params \<Rightarrow>
               if decimal_scale_params_index st \<ge> length params \<or>
                  num_values > length (batch_values data)
               then (InternalError ''read out of bounds'', st, column_data)
               else
                 (let scale_params = params ! decimal_scale_params_index st;
                      st' = st\<lparr>decimal_scale_params := params,
                               decimal_scale_params_index := decimal_scale_params_index st + 1\<rparr>;
                      vs = take num_values (batch_values data)
                  in if scale_type scale_params = SCALE_UP
                     then (OK, st', column_data @ map (scale_up_value (scale_factor scale_params) w) vs)
                     else if scale_type scale_params = SCALE_DOWN
                     then (OK, st', column_data @ map (scale_down_value (scale_factor scale_params) w) vs)
                     else (OK, st', column_data @ map (no_scale_value w) vs))))"

text \<open>
  The specification's reading of a rescale, kept apart from the code: the unscaled
  integer of \<open>round(original_value, S')\<close> for a value written with scale \<open>S\<close>, rounding
  to the nearest representable value (ties away from zero).
\<close>

definition spec_round_to_scale :: "int \<Rightarrow> int \<Rightarrow> int \<Rightarrow> int" where
  "spec_round_to_scale S S' v =
     (if S' \<ge> S then v * 10 ^ nat (S' - S)
      else sgn v * ((\<bar>v\<bar> + 10 ^ nat (S - S') div 2) div 10 ^ nat (S - S')))"

text \<open>
  What the loops compute when nothing overflows: an exact multiplication when the
  requested scale is larger, and the quotient truncated toward zero when it is smaller.
  \<open>fits_bits w\<close> is the range of a \<open>w\<close>-bit two's-complement integer.
\<close>

definition truncating_rescale :: "int \<Rightarrow> int \<Rightarrow> int \<Rightarrow> int" where
  "truncating_rescale S S' v =
     (if S' \<ge> S then v * 10 ^ nat (S' - S) else v sdiv 10 ^ nat (S - S'))"

definition fits_bits :: "nat \<Rightarrow> int \<Rightarrow> bool" where
  "fits_bits w x \<longleftrightarrow> - (2 ^ (w - 1)) \<le> x \<and> x < 2 ^ (w - 1)"

subsection \<open>Lazy-read planning: \<^verbatim>\<open>set_fill_columns\<close>\<close>

text \<open>
  Conjunct expressions, as far as \<^verbatim>\<open>visit_slot\<close> distinguishes them: a slot reference
  (expression name, column id, slot id), a runtime-filter wrapper with its implementation
  and its own children, a bloom predicate, an IN predicate, and any other expression,
  each with its children.
\<close>

datatype vexpr =
    VSlotRef string nat int
  | VRuntimeFilterWrapper vexpr "vexpr list"
  | VBloomPredicate "vexpr list"
  | VInPredicate "vexpr list"
  | VExprOther "vexpr list"

text \<open>
  \<^verbatim>\<open>std::unordered_map\<close> values are kept as association lists in insertion order;
  \<^verbatim>\<open>emplace\<close> leaves an existing key untouched.
\<close>

definition emplace :: "(string \<times> 'v) list \<Rightarrow> string \<Rightarrow> 'v \<Rightarrow> (string \<times> 'v) list" where
  "emplace m k v = (case map_of m k of None \<Rightarrow> m @ [(k, v)] | Some _ \<Rightarrow> m)"

type_synonym predicate_map = "(string \<times> (nat \<times> int)) list"

text \<open>
  The lambda \<^verbatim>\<open>visit_slot\<close> of both readers. It threads the local map
  \<^verbatim>\<open>predicate_columns\<close> (\<^verbatim>\<open>predicate_table_columns\<close> in the ORC reader) and the flag
  \<^verbatim>\<open>resize_first_column\<close>. For a wrapper only the implementation is inspected: a bloom
  predicate's children, the first child of an IN predicate, or the children of any
  other implementation.
\<close>

fun visit_slot :: "vexpr \<Rightarrow> predicate_map \<times> bool \<Rightarrow> predicate_map \<times> bool" where
  "visit_slot (VSlotRef expr_name column_id slot_id) (m, resize_first) =
     (emplace m expr_name (column_id, slot_id),
      (if column_id = 0 then False else resize_first))"
| "visit_slot (VRuntimeFilterWrapper (VBloomPredicate bs) cs) st = fold visit_slot bs st"
| "visit_slot (VRuntimeFilterWrapper (VInPredicate ins) cs) st =
     (case ins of [] \<Rightarrow> st | c # _ \<Rightarrow> visit_slot c st)"
| "visit_slot (VRuntimeFilterWrapper (VSlotRef n c s) cs) st = st"
| "visit_slot (VRuntimeFilterWrapper (VRuntimeFilterWrapper impl ics) cs) st =
     fold visit_slot ics st"
| "visit_slot (VRuntimeFilterWrapper (VExprOther os) cs) st = fold visit_slot os st"
| "visit_slot (VBloomPredicate cs) st = fold visit_slot cs st"
| "visit_slot (VInPredicate cs) st = fold visit_slot cs st"
| "visit_slot (VExprOther cs) st = fold visit_slot cs st"

text \<open>
  \<^verbatim>\<open>LazyReadContext\<close>. A partition value is the pair of the partition string and the slot
  id of its descriptor; a missing column carries its default expression. The last two
  fields exist in the Parquet reader's context only.
\<close>

record LazyReadContext =
  conjuncts :: "vexpr list"
  can_lazy_read :: bool
  resize_first_column :: bool
  all_read_columns :: "string list"
  all_predicate_col_ids :: "nat list"
  predicate_columns :: "string list \<times> int list"
  predicate_orc_columns :: "string list"
  lazy_read_columns :: "string list"
  predicate_partition_columns :: "(string \<times> (string \<times> int)) list"
  partition_columns :: "(string \<times> (string \<times> int)) list"
  predicate_missing_columns :: "(string \<times> vexpr) list"
  missing_columns :: "(string \<times> vexpr) list"
  has_complex_type :: bool
  missing_columns_conjuncts :: "vexpr list"

text \<open>The context as its member initialisers leave it, with the conjuncts of \<^verbatim>\<open>init_reader\<close>.\<close>

definition new_lazy_read_ctx :: "vexpr list \<Rightarrow> LazyReadContext" where
  "new_lazy_read_ctx cs =
     \<lparr>conjuncts = cs, can_lazy_read = False, resize_first_column = True,
      all_read_columns = [], all_predicate_col_ids = [], predicate_columns = ([], []),
      predicate_orc_columns = [], lazy_read_columns = [],
      predicate_partition_columns = [], partition_columns = [],
      predicate_missing_columns = [], missing_columns = [],
      has_complex_type = False, missing_columns_conjuncts = []\<rparr>"

text \<open>The fields of \<^verbatim>\<open>ParquetReader\<close> that \<^verbatim>\<open>set_fill_columns\<close> reads and writes.\<close>

record parquet_fill_reader =
  pq_enable_lazy_mat :: bool
  pq_read_table_columns :: "string list"
  pq_lazy_read_ctx :: LazyReadContext
  pq_row_id_column_iterator_pair :: "nat option"
  pq_slot_id_to_filter_conjuncts :: "(int \<times> vexpr list) list"
  pq_fill_all_columns :: bool

text \<open>
  The body of the loop over \<^verbatim>\<open>_read_table_columns\<close> (Parquet). \<open>is_complex\<close> stands for
  the look-up of the file column in the schema followed by \<^verbatim>\<open>is_complex_type\<close>.
\<close>

definition pq_read_column ::
  "(string \<Rightarrow> bool) \<Rightarrow> predicate_map \<Rightarrow> string \<Rightarrow> LazyReadContext \<Rightarrow> LazyReadContext" where
  "pq_read_column is_complex pc col ctx =
     (let ctx1 = ctx\<lparr>all_read_columns := all_read_columns ctx @ [col]\<rparr>;
          ctx2 = (if is_complex col then ctx1\<lparr>has_complex_type := True\<rparr> else ctx1)
      in if pc \<noteq> [] then
           (case map_of pc col of
              None \<Rightarrow> ctx2\<lparr>lazy_read_columns := lazy_read_columns ctx2 @ [col]\<rparr>
            | Some (cid, sid) \<Rightarrow>
                ctx2\<lparr>predicate_columns :=
                        (fst (predicate_columns ctx2) @ [col], snd (predicate_columns ctx2) @ [sid]),
                     all_predicate_col_ids := all_predicate_col_ids ctx2 @ [cid]\<rparr>)
         else ctx2)"

text \<open>The body of the loop over the partition columns (Parquet).\<close>

definition pq_partition_column ::
  "predicate_map \<Rightarrow> string \<times> (string \<times> int) \<Rightarrow> LazyReadContext \<Rightarrow> LazyReadContext" where
  "pq_partition_column pc kv ctx =
     (case map_of pc (fst kv) of
        None \<Rightarrow> ctx\<lparr>partition_columns := emplace (partition_columns ctx) (fst kv) (snd kv)\<rparr>
      | Some (cid, sid) \<Rightarrow>
          ctx\<lparr>predicate_partition_columns :=
                 emplace (predicate_partition_columns ctx) (fst kv) (snd kv),
              all_predicate_col_ids := all_predicate_col_ids ctx @ [cid]\<rparr>)"

text \<open>The body of the loop over the missing columns (Parquet).\<close>

definition pq_missing_column ::
  "predicate_map \<Rightarrow> (int \<times> vexpr list) list \<Rightarrow> string \<times> vexpr
   \<Rightarrow> LazyReadContext \<Rightarrow> LazyReadContext" where
  "pq_missing_column pc slot_conjuncts kv ctx =
     (case map_of pc (fst kv) of
        None \<Rightarrow> ctx\<lparr>missing_columns := emplace (missing_columns ctx) (fst kv) (snd kv)\<rparr>
      | Some (cid, sid) \<Rightarrow>
          (let ctx1 = (case map_of slot_conjuncts sid of
                         None \<Rightarrow> ctx
                       | Some ctxs \<Rightarrow>
                           ctx\<lparr>missing_columns_conjuncts := missing_columns_conjuncts ctx @ ctxs\<rparr>)
           in ctx1\<lparr>predicate_missing_columns :=
                      emplace (predicate_missing_columns ctx1) (fst kv) (snd kv),
                    all_predicate_col_ids := all_predicate_col_ids ctx1 @ [cid]\<rparr>))"

text \<open>
  The tail both readers share: without lazy reading, the predicate partition and
  predicate missing columns are put back with the others.
\<close>

definition copy_back_predicate_columns :: "LazyReadContext \<Rightarrow> LazyReadContext" where
  "copy_back_predicate_columns ctx =
     (if \<not> can_lazy_read ctx then
        (let ctx1 = ctx\<lparr>partition_columns :=
                      fold (\<lambda>kv m. emplace m (fst kv) (snd kv))
                        (predicate_partition_columns ctx) (partition_columns ctx)\<rparr>
         in ctx1\<lparr>missing_columns :=
                   fold (\<lambda>kv m. emplace m (fst kv) (snd kv))
                     (predicate_missing_columns ctx1) (missing_columns ctx1)\<rparr>)
      else ctx)"

text \<open>\<^verbatim>\<open>ParquetReader::set_fill_columns\<close>.\<close>

definition parquet_set_fill_columns ::
  "(string \<Rightarrow> bool) \<Rightarrow> parquet_fill_reader \<Rightarrow> (string \<times> (string \<times> int)) list
   \<Rightarrow> (string \<times> vexpr) list \<Rightarrow> status \<times> parquet_fill_reader" where
  "parquet_set_fill_columns is_complex r partition_cols missing_cols =
     (let ctx0 = pq_lazy_read_ctx r;
          (pc, rfc) = fold visit_slot (conjuncts ctx0) ([], resize_first_column ctx0);
          ctx1 = ctx0\<lparr>resize_first_column := rfc\<rparr>;
          ctx2 = fold (pq_read_column is_complex pc) (pq_read_table_columns r) ctx1;
          ctx3 = (case pq_row_id_column_iterator_pair r of
                    None \<Rightarrow> ctx2
                  | Some rid \<Rightarrow>
                      ctx2\<lparr>all_predicate_col_ids := all_predicate_col_ids ctx2 @ [rid]\<rparr>);
          ctx4 = fold (pq_partition_column pc) partition_cols ctx3;
          ctx5 = fold (pq_missing_column pc (pq_slot_id_to_filter_conjuncts r)) missing_cols ctx4;
          ctx6 = (if pq_enable_lazy_mat r \<and> fst (predicate_columns ctx5) \<noteq> [] \<and>
                     lazy_read_columns ctx5 \<noteq> []
                  then ctx5\<lparr>can_lazy_read := True\<rparr> else ctx5);
          ctx7 = copy_back_predicate_columns ctx6
      in (OK, r\<lparr>pq_lazy_read_ctx := ctx7, pq_fill_all_columns := True\<rparr>))"

text \<open>
  The fields of \<^verbatim>\<open>OrcReader\<close> that \<^verbatim>\<open>set_fill_columns\<close> reads and writes. The two filter
  objects are recorded by whether they have been created. The pointer
  \<^verbatim>\<open>_slot_id_to_filter_conjuncts\<close> is taken to be valid (the loop over the missing
  columns dereferences it unchecked).
\<close>

record orc_fill_reader =
  orc_enable_lazy_mat :: bool
  orc_enable_filter_by_min_max :: bool
  orc_is_acid :: bool
  orc_read_table_cols :: "string list"
  orc_lazy_read_ctx :: LazyReadContext
  orc_slot_id_to_filter_conjuncts :: "(int \<times> vexpr list) list"
  orc_filter_conjuncts :: "vexpr list"
  orc_not_single_slot_filter_conjuncts :: "vexpr list"
  orc_disable_dict_filter :: bool
  orc_fill_all_columns :: bool
  orc_filter_created :: bool
  orc_string_dict_filter_created :: bool

text \<open>
  What \<^verbatim>\<open>OrcReader::set_fill_columns\<close> obtains from outside the file: the column-name
  constants of \<^verbatim>\<open>TransactionalHive\<close>, the schema-change node, the result of
  \<^verbatim>\<open>_init_search_argument\<close>, the session variable, the text \<^verbatim>\<open>debug_string\<close> gives for a
  conjunct, the message of an exception thrown
  inside the \<^verbatim>\<open>try\<close> block before the predicate columns are put back
  (\<open>plan_exception\<close>) or after it, while the row reader is created
  (\<open>row_reader_exception\<close>), and the stop flag seen by the handler.
\<close>

record orc_fill_env =
  READ_ROW_COLUMN_NAMES :: "string list"
  READ_ROW_COLUMN_NAMES_LOWER_CASE :: "string list"
  table_info_node_ptr :: table_info_node
  init_search_argument :: bool
  check_orc_init_sargs_success :: bool
  debug_string :: "vexpr \<Rightarrow> string"
  plan_exception :: "string option"
  row_reader_exception :: "string option"
  fill_should_stop :: bool

text \<open>The body of the loop over \<^verbatim>\<open>_read_table_cols\<close> (ORC).\<close>

definition orc_read_column ::
  "orc_fill_env \<Rightarrow> bool \<Rightarrow> predicate_map \<Rightarrow> string \<Rightarrow> LazyReadContext \<Rightarrow> LazyReadContext" where
  "orc_read_column env is_acid pc col ctx =
     (let ctx1 = ctx\<lparr>all_read_columns := all_read_columns ctx @ [col]\<rparr>
      in if pc \<noteq> [] then
           (case map_of pc col of
              None \<Rightarrow>
                if \<not> is_acid \<or> col \<notin> set (READ_ROW_COLUMN_NAMES_LOWER_CASE env)
                then ctx1\<lparr>lazy_read_columns := lazy_read_columns ctx1 @ [col]\<rparr>
                else ctx1
            | Some (cid, sid) \<Rightarrow>
                ctx1\<lparr>predicate_columns :=
                        (fst (predicate_columns ctx1) @ [col], snd (predicate_columns ctx1) @ [sid]),
                     predicate_orc_columns :=
                        predicate_orc_columns ctx1 @ [children_file_column_name (table_info_node_ptr env) col]\<rparr>)
         else ctx1)"

text \<open>The body of the loop over the partition columns (ORC).\<close>

definition orc_partition_column ::
  "predicate_map \<Rightarrow> string \<times> (string \<times> int) \<Rightarrow> LazyReadContext \<Rightarrow> LazyReadContext" where
  "orc_partition_column pc kv ctx =
     (case map_of pc (fst kv) of
        None \<Rightarrow> ctx\<lparr>partition_columns := emplace (partition_columns ctx) (fst kv) (snd kv)\<rparr>
      | Some _ \<Rightarrow>
          ctx\<lparr>predicate_partition_columns :=
                 emplace (predicate_partition_columns ctx) (fst kv) (snd kv)\<rparr>)"

text \<open>
  The body of the loop over the missing columns (ORC); it also extends
  \<^verbatim>\<open>_filter_conjuncts\<close>, threaded as the second component.
\<close>

definition orc_missing_column ::
  "predicate_map \<Rightarrow> (int \<times> vexpr list) list \<Rightarrow> string \<times> vexpr
   \<Rightarrow> LazyReadContext \<times> vexpr list \<Rightarrow> LazyReadContext \<times> vexpr list" where
  "orc_missing_column pc slot_conjuncts kv st =
     (case map_of pc (fst kv) of
        None \<Rightarrow>
          ((fst st)\<lparr>missing_columns := emplace (missing_columns (fst st)) (fst kv) (snd kv)\<rparr>,
           snd st)
      | Some (cid, sid) \<Rightarrow>
          ((fst st)\<lparr>predicate_missing_columns :=
                      emplace (predicate_missing_columns (fst st)) (fst kv) (snd kv)\<rparr>,
           (case map_of slot_conjuncts sid of None \<Rightarrow> snd st | Some ctxs \<Rightarrow> snd st @ ctxs)))"

text \<open>
  The statements after the \<^verbatim>\<open>try\<close> block: the conjuncts that span several slots, and
  the single-slot conjuncts of the predicate partition columns.
\<close>

definition orc_collect_filter_conjuncts :: "orc_fill_reader \<Rightarrow> orc_fill_reader" where
  "orc_collect_filter_conjuncts r =
     (let r1 = (if orc_not_single_slot_filter_conjuncts r \<noteq> []
                then r\<lparr>orc_filter_conjuncts :=
                         orc_filter_conjuncts r @ orc_not_single_slot_filter_conjuncts r,
                       orc_disable_dict_filter := True\<rparr>
                else r)
      in if orc_slot_id_to_filter_conjuncts r1 \<noteq> []
         then r1\<lparr>orc_filter_conjuncts :=
                   fold (\<lambda>kv fc.
                           case map_of (orc_slot_id_to_filter_conjuncts r1) (snd (snd kv)) of
                             None \<Rightarrow> fc | Some ctxs \<Rightarrow> fc @ ctxs)
                        (predicate_partition_columns (orc_lazy_read_ctx r1))
                        (orc_filter_conjuncts r1)\<rparr>
         else r1)"

text \<open>
  \<^verbatim>\<open>OrcReader::set_fill_columns\<close>, first part: from the visit of the conjuncts to the
  decision on lazy reading. The result is the context and \<^verbatim>\<open>_filter_conjuncts\<close>.
\<close>

definition orc_plan_columns ::
  "orc_fill_env \<Rightarrow> orc_fill_reader \<Rightarrow> (string \<times> (string \<times> int)) list
   \<Rightarrow> (string \<times> vexpr) list \<Rightarrow> LazyReadContext \<times> vexpr list" where
  "orc_plan_columns env r partition_cols missing_cols =
     (let ctx0 = orc_lazy_read_ctx r;
          (pc, rfc) = fold visit_slot (conjuncts ctx0) ([], resize_first_column ctx0);
          ctx1 = ctx0\<lparr>resize_first_column := rfc\<rparr>;
          ctx2 = (if orc_is_acid r
                  then ctx1\<lparr>predicate_orc_columns :=
                              predicate_orc_columns ctx1 @ READ_ROW_COLUMN_NAMES env\<rparr>
                  else ctx1);
          ctx3 = fold (orc_read_column env (orc_is_acid r) pc) (orc_read_table_cols r) ctx2;
          ctx4 = fold (orc_partition_column pc) partition_cols ctx3;
          (ctx5, fc) = fold (orc_missing_column pc (orc_slot_id_to_filter_conjuncts r))
                         missing_cols (ctx4, orc_filter_conjuncts r);
          ctx6 = (if orc_enable_lazy_mat r \<and> fst (predicate_columns ctx5) \<noteq> [] \<and>
                     lazy_read_columns ctx5 \<noteq> []
                  then ctx5\<lparr>can_lazy_read := True\<rparr> else ctx5);
          ctx7 = (if conjuncts ctx6 = [] then ctx6\<lparr>can_lazy_read := False\<rparr> else ctx6)
      in (ctx7, fc))"

text \<open>
  \<^verbatim>\<open>OrcReader::set_fill_columns\<close>, whole: the search-argument check, the \<^verbatim>\<open>try\<close> block
  with its handler, and the statements after it.
\<close>

definition orc_set_fill_columns ::
  "orc_fill_env \<Rightarrow> orc_fill_reader \<Rightarrow> (string \<times> (string \<times> int)) list
   \<Rightarrow> (string \<times> vexpr) list \<Rightarrow> status \<times> orc_fill_reader" where
  "orc_set_fill_columns env r partition_cols missing_cols =
     (let (ctx7, fc) = orc_plan_columns env r partition_cols missing_cols;
          r1 = r\<lparr>orc_lazy_read_ctx := ctx7, orc_filter_conjuncts := fc\<rparr>
      in if conjuncts ctx7 \<noteq> [] \<and> orc_enable_filter_by_min_max r \<and>
            check_orc_init_sargs_success env \<and> \<not> init_search_argument env
         then (InternalError
                 (''Session variable check_orc_init_sargs_success is set, but '' @
                  ''_init_search_argument returns false because all exprs can not be pushed '' @
                  ''down:'' @ [CHR 0x0A] @ '' '' @
                  concat (map (\<lambda>conjunct. debug_string env conjunct @ [CHR 0x0A])
                            (conjuncts ctx7))), r1)
         else
           (case plan_exception env of
              Some msg \<Rightarrow>
                if fill_should_stop env \<and> msg = ''stop''
                then (OK, orc_collect_filter_conjuncts r1)
                else (InternalError (''Failed to create orc row reader. reason = '' @ msg), r1)
            | None \<Rightarrow>
                (let r2 = r1\<lparr>orc_lazy_read_ctx := copy_back_predicate_columns ctx7,
                              orc_fill_all_columns := True,
                              orc_filter_created := (orc_filter_created r1 \<or> can_lazy_read ctx7),
                              orc_string_dict_filter_created :=
                                (orc_string_dict_filter_created r1 \<or> conjuncts ctx7 \<noteq> [])\<rparr>
                 in case row_reader_exception env of
                      Some msg \<Rightarrow>
                        if fill_should_stop env \<and> msg = ''stop''
                        then (OK, orc_collect_filter_conjuncts r2)
                        else (InternalError (''Failed to create orc row reader. reason = '' @ msg), r2)
                    | None \<Rightarrow> (OK, orc_collect_filter_conjuncts r2))))"

text \<open>
  Whether a call of \<^verbatim>\<open>OrcReader::set_fill_columns\<close> gets as far as the statements of the
  \<^verbatim>\<open>try\<close> block that put the predicate partition and missing columns back: the
  search-argument check has not ended the call and nothing has thrown before them.
\<close>

definition orc_reaches_put_back :: "orc_fill_env \<Rightarrow> orc_fill_reader \<Rightarrow> bool" where
  "orc_reaches_put_back env r \<longleftrightarrow>
     \<not> (conjuncts (orc_lazy_read_ctx r) \<noteq> [] \<and> orc_enable_filter_by_min_max r \<and>
        check_orc_init_sargs_success env \<and> \<not> init_search_argument env) \<and>
     plan_exception env = None"

text \<open>
  The slots the conjuncts refer to: the local map both readers build with
  \<^verbatim>\<open>visit_slot\<close> before they sort the columns, for a context whose
  \<^verbatim>\<open>resize_first_column\<close> still has its initial value.
\<close>

definition conjunct_slots :: "vexpr list \<Rightarrow> predicate_map" where
  "conjunct_slots cs = fst (fold visit_slot cs ([], True))"

text \<open>
  Readers as \<^verbatim>\<open>init_reader\<close> leaves them, for given conjuncts and read columns, with lazy
  materialisation enabled; an environment in which nothing fails; and a conjunct that
  compares column \<open>a\<close> (column 0, slot 1) with a literal.
\<close>

definition fresh_parquet_reader :: "vexpr list \<Rightarrow> string list \<Rightarrow> parquet_fill_reader" where
  "fresh_parquet_reader cs cols =
     \<lparr>pq_enable_lazy_mat = True, pq_read_table_columns = cols,
      pq_lazy_read_ctx = new_lazy_read_ctx cs,
      pq_row_id_column_iterator_pair = None, pq_slot_id_to_filter_conjuncts = [],
      pq_fill_all_columns = False\<rparr>"

definition fresh_orc_reader :: "vexpr list \<Rightarrow> string list \<Rightarrow> orc_fill_reader" where
  "fresh_orc_reader cs cols =
     \<lparr>orc_enable_lazy_mat = True, orc_enable_filter_by_min_max = False, orc_is_acid = False,
      orc_read_table_cols = cols,
      orc_lazy_read_ctx = new_lazy_read_ctx cs,
      orc_slot_id_to_filter_conjuncts = [], orc_filter_conjuncts = [],
      orc_not_single_slot_filter_conjuncts = [], orc_disable_dict_filter = False,
      orc_fill_all_columns = False, orc_filter_created = False,
      orc_string_dict_filter_created = False\<rparr>"

definition quiet_orc_env :: orc_fill_env where
  "quiet_orc_env =
     \<lparr>READ_ROW_COLUMN_NAMES = [], READ_ROW_COLUMN_NAMES_LOWER_CASE = [],
      table_info_node_ptr =
        \<lparr>children_column_exists = (\<lambda>c. True), children_file_column_name = (\<lambda>c. c)\<rparr>,
      init_search_argument = True, check_orc_init_sargs_success = False,
      debug_string = (\<lambda>conjunct. []),
      plan_exception = None, row_reader_exception = None, fill_should_stop = False\<rparr>"

definition conjunct_on_a :: vexpr where
  "conjunct_on_a = VExprOther [VSlotRef ''a'' 0 1, VExprOther []]"

subsection \<open>Page-index planning (ParquetReader)\<close>

text \<open>
  A \<^verbatim>\<open>RowRange\<close> is the pair \<open>(first_row, last_row)\<close> of \<^verbatim>\<open>int64_t\<close>, the second bound
  exclusive. For one read column, the record below holds what
  \<^verbatim>\<open>_process_page_index\<close> looks up or is handed by the \<^verbatim>\<open>PageIndex\<close> helper (whose code
  is elsewhere): whether the column has a value range, its physical column index, the
  position of its column index in the chunk, and the results of
  \<^verbatim>\<open>parse_column_index\<close> (the number of pages), \<^verbatim>\<open>collect_skipped_page_range\<close>,
  \<^verbatim>\<open>parse_offset_index\<close> and \<^verbatim>\<open>create_skipped_row_range\<close> (by number of rows and page).
\<close>

type_synonym RowRange = "int \<times> int"

record col_page_index =
  has_value_range :: bool
  physical_column_index :: int
  column_index_offset :: int
  column_index_length :: int
  parse_column_index :: "status + int"
  collect_skipped_page_range :: "status + int list"
  parse_offset_index :: status
  create_skipped_row_range :: "int \<Rightarrow> int \<Rightarrow> status + RowRange"

text \<open>The inner loop over the skipped pages of one column.\<close>

fun skipped_pages_to_row_ranges ::
  "col_page_index \<Rightarrow> int \<Rightarrow> int list \<Rightarrow> RowRange list \<Rightarrow> status + RowRange list" where
  "skipped_pages_to_row_ranges c num_rows [] acc = Inr acc"
| "skipped_pages_to_row_ranges c num_rows (page_id # pages) acc =
     (case create_skipped_row_range c num_rows page_id of
        Inl e \<Rightarrow> Inl e
      | Inr skipped_row_range \<Rightarrow>
          skipped_pages_to_row_ranges c num_rows pages (acc @ [skipped_row_range]))"

text \<open>
  The body of the loop over the read columns: \<open>Inr\<close> of the extended
  \<^verbatim>\<open>skipped_row_ranges\<close>, or the error status that ends the function.
\<close>

definition column_skipped_row_ranges ::
  "int \<Rightarrow> col_page_index \<Rightarrow> RowRange list \<Rightarrow> status + RowRange list" where
  "column_skipped_row_ranges num_rows c skipped_row_ranges =
     (if \<not> has_value_range c then Inr skipped_row_ranges
      else if physical_column_index c < 0 then Inr skipped_row_ranges
      else if column_index_offset c = 0 \<and> column_index_length c = 0 then Inr skipped_row_ranges
      else
        (case parse_column_index c of
           Inl e \<Rightarrow> Inl e
         | Inr num_of_pages \<Rightarrow>
             if num_of_pages \<le> 0 then Inr skipped_row_ranges
             else
               (case collect_skipped_page_range c of
                  Inl e \<Rightarrow> Inl e
                | Inr skipped_page_range \<Rightarrow>
                    if skipped_page_range = [] then Inr skipped_row_ranges
                    else if parse_offset_index c \<noteq> OK then Inl (parse_offset_index c)
                    else skipped_pages_to_row_ranges c num_rows skipped_page_range
                           skipped_row_ranges)))"

fun collect_skipped_row_ranges ::
  "int \<Rightarrow> col_page_index list \<Rightarrow> RowRange list \<Rightarrow> status + RowRange list" where
  "collect_skipped_row_ranges num_rows [] acc = Inr acc"
| "collect_skipped_row_ranges num_rows (c # cs) acc =
     (case column_skipped_row_ranges num_rows c acc of
        Inl e \<Rightarrow> Inl e
      | Inr acc' \<Rightarrow> collect_skipped_row_ranges num_rows cs acc')"

text \<open>
  The loop over the sorted skipped ranges. It threads \<^verbatim>\<open>skip_end\<close>, \<^verbatim>\<open>read_rows\<close> and
  \<^verbatim>\<open>candidate_row_ranges\<close>.
\<close>

fun merge_skipped_ranges ::
  "RowRange list \<Rightarrow> int \<Rightarrow> int \<Rightarrow> RowRange list \<Rightarrow> int \<times> int \<times> RowRange list" where
  "merge_skipped_ranges [] skip_end read_rows cands = (skip_end, read_rows, cands)"
| "merge_skipped_ranges (skip_range # rest) skip_end read_rows cands =
     (if skip_end \<ge> fst skip_range then
        (if skip_end < snd skip_range
         then merge_skipped_ranges rest (snd skip_range) read_rows cands
         else merge_skipped_ranges rest skip_end read_rows cands)
      else merge_skipped_ranges rest (snd skip_range)
             (read_rows + (fst skip_range - skip_end))
             (cands @ [(skip_end, fst skip_range)]))"

text \<open>
  The fields of \<^verbatim>\<open>ParquetReader\<close>, of the configuration and of the file that
  \<^verbatim>\<open>_process_page_index\<close> consults for one row group. The two \<^verbatim>\<open>read_at\<close> results are
  the statuses of reading the column index and the offset index. Of the statistics only
  \<^verbatim>\<open>read_rows\<close> and \<^verbatim>\<open>filtered_page_rows\<close> are kept (as increments); the byte counters and
  the cache of offset indexes do not bear on the candidate ranges.
\<close>

record page_index_reader =
  pi_should_stop :: bool
  pi_read_line_mode_mode :: bool
  pi_read_line_mode_row_ranges :: "RowRange list"
  pi_enable_filter_by_min_max :: bool
  pi_has_complex_type :: bool
  pi_conjuncts :: "vexpr list"
  pi_colname_to_value_range_empty :: bool
  pi_enable_parquet_page_index :: bool
  pi_has_page_index :: bool
  pi_read_column_index :: status
  pi_read_offset_index :: status
  pi_columns :: "col_page_index list"

record page_index_result =
  candidate_row_ranges :: "RowRange list"
  stat_read_rows :: int
  stat_filtered_page_rows :: int

definition read_whole_row_group :: "int \<Rightarrow> page_index_result" where
  "read_whole_row_group num_rows =
     \<lparr>candidate_row_ranges = [(0, num_rows)], stat_read_rows = num_rows,
      stat_filtered_page_rows = 0\<rparr>"

definition no_page_index_result :: page_index_result where
  "no_page_index_result =
     \<lparr>candidate_row_ranges = [], stat_read_rows = 0, stat_filtered_page_rows = 0\<rparr>"

text \<open>
  \<^verbatim>\<open>ParquetReader::_process_page_index\<close>; \<open>num_rows\<close> is \<^verbatim>\<open>row_group.num_rows\<close>, and the
  caller passes an empty \<^verbatim>\<open>candidate_row_ranges\<close>.
\<close>

definition process_page_index :: "page_index_reader \<Rightarrow> int \<Rightarrow> status \<times> page_index_result" where
  "process_page_index r num_rows =
     (if pi_should_stop r then (EndOfFile ''stop'', no_page_index_result)
      else if pi_read_line_mode_mode r
      then (OK, no_page_index_result\<lparr>candidate_row_ranges := pi_read_line_mode_row_ranges r\<rparr>)
      else if \<not> pi_enable_filter_by_min_max r \<or> pi_has_complex_type r \<or>
              pi_conjuncts r = [] \<or> pi_colname_to_value_range_empty r
      then (OK, read_whole_row_group num_rows)
      else if \<not> pi_enable_parquet_page_index r \<or> \<not> pi_has_page_index r
      then (OK, read_whole_row_group num_rows)
      else if pi_read_column_index r \<noteq> OK then (pi_read_column_index r, no_page_index_result)
      else if pi_read_offset_index r \<noteq> OK then (pi_read_offset_index r, no_page_index_result)
      else
        (case collect_skipped_row_ranges num_rows (pi_columns r) [] of
           Inl e \<Rightarrow> (e, no_page_index_result)
         | Inr skipped_row_ranges \<Rightarrow>
             if skipped_row_ranges = [] then (OK, read_whole_row_group num_rows)
             else
               (let (skip_end, read_rows, cands) =
                      merge_skipped_ranges (sort skipped_row_ranges) 0 0 [];
                    (read_rows', cands') =
                      (if skip_end \<noteq> num_rows
                       then (read_rows + (num_rows - skip_end), cands @ [(skip_end, num_rows)])
                       else (read_rows, cands))
                in (OK, \<lparr>candidate_row_ranges = cands', stat_read_rows = read_rows',
                         stat_filtered_page_rows = num_rows - read_rows'\<rparr>))))"

text \<open>
  Rows covered by a list of ranges, and the specification's reading of the candidate
  set, kept apart from the code: the union over the predicate columns of the rows each
  column on its own does not skip. \<open>per_column\<close> lists, column by column, the skipped
  ranges of that column.
\<close>

definition in_ranges :: "RowRange list \<Rightarrow> int \<Rightarrow> bool" where
  "in_ranges rs row \<longleftrightarrow> (\<exists>rg\<in>set rs. fst rg \<le> row \<and> row < snd rg)"

definition spec_union_of_kept :: "int \<Rightarrow> RowRange list list \<Rightarrow> int \<Rightarrow> bool" where
  "spec_union_of_kept num_rows per_column row \<longleftrightarrow>
     0 \<le> row \<and> row < num_rows \<and> (\<exists>sk\<in>set per_column. \<not> in_ranges sk row)"

text \<open>
  Sorted, pairwise disjoint ranges: every range is non-empty and ends no later than the
  next one begins.
\<close>

fun sorted_disjoint :: "RowRange list \<Rightarrow> bool" where
  "sorted_disjoint [] = True"
| "sorted_disjoint [rg] = (fst rg < snd rg)"
| "sorted_disjoint (rg # rg' # rest) =
     (fst rg < snd rg \<and> snd rg \<le> fst rg' \<and> sorted_disjoint (rg' # rest))"

text \<open>
  A row group of 100 rows in two pages of 50 rows and two predicate columns: the page
  statistics of the first column rule out its first page, those of the second column
  rule out nothing.
\<close>

definition two_page_column :: "int \<Rightarrow> int list \<Rightarrow> col_page_index" where
  "two_page_column idx skipped_pages =
     \<lparr>has_value_range = True, physical_column_index = idx,
      column_index_offset = 4 + 10 * idx, column_index_length = 10,
      parse_column_index = Inr 2, collect_skipped_page_range = Inr skipped_pages,
      parse_offset_index = OK,
      create_skipped_row_range = (\<lambda>n p. Inr (if p = 0 then (0, 50) else (50, n)))\<rparr>"

definition two_column_reader :: page_index_reader where
  "two_column_reader =
     \<lparr>pi_should_stop = False, pi_read_line_mode_mode = False, pi_read_line_mode_row_ranges = [],
      pi_enable_filter_by_min_max = True, pi_has_complex_type = False,
      pi_conjuncts = [VExprOther []], pi_colname_to_value_range_empty = False,
      pi_enable_parquet_page_index = True, pi_has_page_index = True,
      pi_read_column_index = OK, pi_read_offset_index = OK,
      pi_columns = [two_page_column 0 [0], two_page_column 1 []]\<rparr>"

subsection \<open>Row-group planning by statistics (ParquetReader)\<close>

text \<open>
  The column split of \<^verbatim>\<open>ParquetReader::init_reader\<close>: a table column that exists in the
  file is entered in the map \<^verbatim>\<open>required_file_columns\<close> (file column to table column),
  any other goes to \<^verbatim>\<open>_missing_cols\<close>; then the schema is walked in file order and each
  required file column is appended to \<^verbatim>\<open>_read_file_columns\<close>, its table column to
  \<^verbatim>\<open>_read_table_columns\<close>.
\<close>

definition required_file_columns :: "table_info_node \<Rightarrow> string list \<Rightarrow> (string \<times> string) list" where
  "required_file_columns node all_column_names =
     fold (\<lambda>table_column_name m.
             if children_column_exists node table_column_name
             then emplace m (children_file_column_name node table_column_name) table_column_name
             else m)
          all_column_names []"

definition init_missing_cols :: "table_info_node \<Rightarrow> string list \<Rightarrow> string list" where
  "init_missing_cols node all_column_names =
     filter (\<lambda>c. \<not> children_column_exists node c) all_column_names"

definition init_read_file_columns ::
  "table_info_node \<Rightarrow> string list \<Rightarrow> string list \<Rightarrow> string list" where
  "init_read_file_columns node schema_names all_column_names =
     filter (\<lambda>name. map_of (required_file_columns node all_column_names) name \<noteq> None)
       schema_names"

definition init_read_table_columns ::
  "table_info_node \<Rightarrow> string list \<Rightarrow> string list \<Rightarrow> string list" where
  "init_read_table_columns node schema_names all_column_names =
     concat (map (\<lambda>name. case map_of (required_file_columns node all_column_names) name of
                            None \<Rightarrow> [] | Some table_col \<Rightarrow> [table_col])
               schema_names)"

text \<open>
  The thrift \<^verbatim>\<open>Statistics\<close> of a column chunk, each optional field with its
  \<^verbatim>\<open>__isset\<close> flag; \<open>'v\<close> is the type of the plain-encoded values. The chunk's meta
  data also records where its pages start (\<open>cm_has_dict_page\<close> is the result of
  \<^verbatim>\<open>has_dict_page\<close>). The schema of a file
  column carries what the filter looks at; \<open>fs_sort_order\<close> is the result of
  \<^verbatim>\<open>_determine_sort_order\<close> on its \<^verbatim>\<open>parquet_schema\<close>.
\<close>

record 'v Statistics =
  st_max :: 'v
  st_min :: 'v
  st_null_count :: int
  st_max_value :: 'v
  st_min_value :: 'v
  isset_max :: bool
  isset_min :: bool
  isset_null_count :: bool
  isset_max_value :: bool
  isset_min_value :: bool

record 'v ColumnMetaData =
  cm_statistics :: "'v Statistics"
  cm_num_values :: int
  cm_has_dict_page :: bool
  cm_dictionary_page_offset :: int
  cm_data_page_offset :: int
  cm_total_compressed_size :: int

datatype physical_type =
  BOOLEAN | INT32 | INT64 | INT96 | FLOAT | DOUBLE | BYTE_ARRAY | FIXED_LEN_BYTE_ARRAY

datatype SortOrder = SIGNED | UNSIGNED | UNKNOWN

datatype ColumnOrderName = UNDEFINED | TYPE_DEFINED_ORDER

record FieldSchema =
  fs_physical_column_index :: int
  fs_physical_type :: physical_type
  fs_logical_type_isset_UNKNOWN :: bool
  fs_sort_order :: SortOrder

text \<open>
  What \<^verbatim>\<open>_process_column_stat_filter\<close> consults outside the reader: the schema-change
  node, the file schema by column name, \<^verbatim>\<open>CorruptStatistics::should_ignore_statistics\<close>
  (already applied to the file's \<^verbatim>\<open>created_by\<close>), and \<^verbatim>\<open>ParquetPredicate::filter_by_stats\<close>
  with its arguments in the source's order (the time zone left out): value range,
  column schema, \<^verbatim>\<open>ignore_min_max_stats\<close>, encoded minimum, encoded maximum,
  \<^verbatim>\<open>is_all_null\<close>, \<^verbatim>\<open>use_min_max_value\<close>. \<open>'r\<close> is the type of a column's value range.
\<close>

record ('r, 'v) stat_filter_env =
  sf_table_info_node :: table_info_node
  sf_schema :: "(string \<times> FieldSchema) list"
  sf_should_ignore_statistics :: "physical_type \<Rightarrow> bool"
  sf_filter_by_stats :: "'r \<Rightarrow> FieldSchema \<Rightarrow> bool \<Rightarrow> 'v \<Rightarrow> 'v \<Rightarrow> bool \<Rightarrow> bool \<Rightarrow> bool"

text \<open>
  The fields of \<^verbatim>\<open>ParquetReader\<close> the row-group planning reads and writes.
  \<^verbatim>\<open>_colname_to_value_range\<close> is a pointer (\<open>None\<close> when null), \<^verbatim>\<open>_ignored_stats\<close> a map from
  physical type to flag, a \<^verbatim>\<open>RowGroupIndex\<close> the triple of row-group id, first row and
  last row. Of the statistics the row-group and row counters are kept; the byte
  counters and \<^verbatim>\<open>_whole_range\<close> do not bear on which groups are read.
\<close>

record 'r stat_filter_reader =
  sf_enable_filter_by_min_max :: bool
  sf_colname_to_value_range :: "(string \<times> 'r) list option"
  sf_read_table_columns :: "string list"
  sf_ignored_stats :: "(physical_type \<times> bool) list"
  sf_read_line_mode_mode :: bool
  sf_read_lines :: "int list"
  sf_read_line_mode_row_ranges :: "RowRange list list"
  sf_range_start_offset :: int
  sf_range_size :: int
  sf_read_row_groups :: "(nat \<times> int \<times> int) list"
  sf_stat_read_row_groups :: int
  sf_stat_filtered_row_groups :: int
  sf_stat_filtered_group_rows :: int

text \<open>
  The part of the loop body that settles \<^verbatim>\<open>ignore_min_max_stats\<close> for the deprecated
  \<^verbatim>\<open>min\<close>/\<^verbatim>\<open>max\<close> fields; it returns the flag and the updated \<^verbatim>\<open>_ignored_stats\<close>.
\<close>

definition ignore_deprecated_min_max ::
  "('r, 'v) stat_filter_env \<Rightarrow> (physical_type \<times> bool) list \<Rightarrow> FieldSchema \<Rightarrow> 'v Statistics
   \<Rightarrow> bool \<times> (physical_type \<times> bool) list" where
  "ignore_deprecated_min_max env ignored_stats col_schema statistic =
     (if isset_min statistic \<and> isset_max statistic then
        (let max_equals_min = (st_min statistic = st_max statistic);
             sort_orders_match = (fs_sort_order col_schema = SIGNED);
             ignore0 = (\<not> sort_orders_match \<and> \<not> max_equals_min);
             (should_ignore_corrupted_stats, ignored_stats') =
               (case map_of ignored_stats (fs_physical_type col_schema) of
                  None \<Rightarrow>
                    if sf_should_ignore_statistics env (fs_physical_type col_schema)
                    then (True, ignored_stats @ [(fs_physical_type col_schema, True)])
                    else (False, ignored_stats @ [(fs_physical_type col_schema, False)])
                | Some flag \<Rightarrow> (flag, ignored_stats))
         in if should_ignore_corrupted_stats then (True, ignored_stats')
            else if \<not> sort_orders_match \<and> \<not> max_equals_min then (True, ignored_stats')
            else (ignore0, ignored_stats'))
      else (True, ignored_stats))"

text \<open>
  The loop of \<^verbatim>\<open>ParquetReader::_process_column_stat_filter\<close> over \<^verbatim>\<open>_read_table_columns\<close>,
  threading \<^verbatim>\<open>*filter_group\<close> and \<^verbatim>\<open>_ignored_stats\<close>; \<open>vr\<close> is the map behind
  \<^verbatim>\<open>_colname_to_value_range\<close>. Its first statement skips to the next column when
  \<^verbatim>\<open>children_column_exists\<close> answers true. Looking up a file column the schema does
  not have, or a chunk beyond \<^verbatim>\<open>columns\<close>, is undefined behaviour in the source and an
  internal error here.
\<close>

fun column_stat_filter_loop ::
  "('r, 'v) stat_filter_env \<Rightarrow> (string \<times> 'r) list \<Rightarrow> 'v ColumnMetaData list \<Rightarrow> string list
   \<Rightarrow> bool \<times> (physical_type \<times> bool) list \<Rightarrow> status \<times> bool \<times> (physical_type \<times> bool) list" where
  "column_stat_filter_loop env vr columns [] (filter_group, ignored_stats) =
     (OK, filter_group, ignored_stats)"
| "column_stat_filter_loop env vr columns (table_col_name # rest) (filter_group, ignored_stats) =
     (if children_column_exists (sf_table_info_node env) table_col_name
      then column_stat_filter_loop env vr columns rest (filter_group, ignored_stats)
      else
        (case map_of vr table_col_name of
           None \<Rightarrow> column_stat_filter_loop env vr columns rest (filter_group, ignored_stats)
         | Some slot_range \<Rightarrow>
             (case map_of (sf_schema env)
                     (children_file_column_name (sf_table_info_node env) table_col_name) of
                None \<Rightarrow> (InternalError ''no such column in the file schema'',
                          filter_group, ignored_stats)
              | Some col_schema \<Rightarrow>
                  if fs_physical_column_index col_schema < 0
                  then column_stat_filter_loop env vr columns rest (filter_group, ignored_stats)
                  else if nat (fs_physical_column_index col_schema) \<ge> length columns
                  then (InternalError ''no such column chunk'', filter_group, ignored_stats)
                  else
                    (let meta_data = columns ! nat (fs_physical_column_index col_schema);
                         statistic = cm_statistics meta_data;
                         is_all_null = (isset_null_count statistic \<and>
                                        st_null_count statistic = cm_num_values meta_data);
                         is_set_min_max = ((isset_max statistic \<and> isset_min statistic) \<or>
                                           (isset_max_value statistic \<and> isset_min_value statistic))
                     in if \<not> is_set_min_max \<and> \<not> is_all_null
                        then column_stat_filter_loop env vr columns rest
                               (filter_group, ignored_stats)
                        else
                          (let (filter_group', ignored_stats') =
                                 (if isset_min_value statistic \<and> isset_max_value statistic then
                                    (let column_order =
                                           (if fs_physical_type col_schema = INT96 \<or>
                                               fs_logical_type_isset_UNKNOWN col_schema
                                            then UNDEFINED else TYPE_DEFINED_ORDER);
                                         ignore_min_max_stats =
                                           (st_min_value statistic \<noteq> st_max_value statistic \<and>
                                            column_order \<noteq> TYPE_DEFINED_ORDER)
                                     in (sf_filter_by_stats env slot_range col_schema
                                           ignore_min_max_stats (st_min_value statistic)
                                           (st_max_value statistic) is_all_null True,
                                         ignored_stats))
                                  else
                                    (let (ignore_min_max_stats, ignored_stats1) =
                                           ignore_deprecated_min_max env ignored_stats
                                             col_schema statistic
                                     in (sf_filter_by_stats env slot_range col_schema
                                           ignore_min_max_stats (st_min statistic)
                                           (st_max statistic) is_all_null False,
                                         ignored_stats1)))
                           in if filter_group' then (OK, filter_group', ignored_stats')
                              else column_stat_filter_loop env vr columns rest
                                     (filter_group', ignored_stats'))))))"

text \<open>\<^verbatim>\<open>ParquetReader::_process_column_stat_filter\<close>.\<close>

definition process_column_stat_filter ::
  "('r, 'v) stat_filter_env \<Rightarrow> 'r stat_filter_reader \<Rightarrow> 'v ColumnMetaData list \<Rightarrow> bool
   \<Rightarrow> status \<times> bool \<times> 'r stat_filter_reader" where
  "process_column_stat_filter env r columns filter_group =
     (if \<not> sf_enable_filter_by_min_max r then (OK, filter_group, r)
      else
        (case sf_colname_to_value_range r of
           None \<Rightarrow> (OK, filter_group, r)
         | Some vr \<Rightarrow>
             if vr = [] then (OK, filter_group, r)
             else
               (case column_stat_filter_loop env vr columns (sf_read_table_columns r)
                       (filter_group, sf_ignored_stats r) of
                  (st, filter_group', ignored_stats') \<Rightarrow>
                    (st, filter_group', r\<lparr>sf_ignored_stats := ignored_stats'\<rparr>))))"


text \<open>
  The loop of the read-by-line branch of \<^verbatim>\<open>_process_row_group_filter\<close>: it moves the
  requested lines that fall into the group from \<^verbatim>\<open>_read_lines\<close> to the group's ranges.
\<close>

fun take_read_lines :: "int \<Rightarrow> int \<Rightarrow> int list \<Rightarrow> RowRange list \<Rightarrow> int list \<times> RowRange list" where
  "take_read_lines group_start group_end [] ranges = ([], ranges)"
| "take_read_lines group_start group_end (v # read_lines) ranges =
     (if v \<ge> group_start \<and> v < group_end
      then take_read_lines group_start group_end read_lines
             (ranges @ [(v - group_start, v - group_start + 1)])
      else (v # read_lines, ranges))"

text \<open>
  \<^verbatim>\<open>ParquetReader::_process_row_group_filter\<close>. The dictionary and bloom-filter steps
  that follow the statistics filter are empty in this reader. An index beyond
  \<^verbatim>\<open>_read_line_mode_row_ranges\<close> is undefined behaviour in the source and an internal
  error here.
\<close>

definition process_row_group_filter ::
  "('r, 'v) stat_filter_env \<Rightarrow> 'r stat_filter_reader \<Rightarrow> nat \<times> int \<times> int
   \<Rightarrow> 'v ColumnMetaData list \<Rightarrow> bool \<Rightarrow> status \<times> bool \<times> 'r stat_filter_reader" where
  "process_row_group_filter env r row_group_index columns filter_group =
     (if sf_read_line_mode_mode r then
        (case row_group_index of
           (row_group_id, group_start, group_end) \<Rightarrow>
             if row_group_id \<ge> length (sf_read_line_mode_row_ranges r)
             then (InternalError ''no such row group'', filter_group, r)
             else
               (case take_read_lines group_start group_end (sf_read_lines r)
                       (sf_read_line_mode_row_ranges r ! row_group_id) of
                  (read_lines', ranges') \<Rightarrow>
                    (OK, (if ranges' = [] then True else filter_group),
                     r\<lparr>sf_read_lines := read_lines',
                       sf_read_line_mode_row_ranges :=
                         (sf_read_line_mode_row_ranges r)[row_group_id := ranges']\<rparr>)))
      else process_column_stat_filter env r columns filter_group)"

text \<open>
  A row group of the footer, and \<^verbatim>\<open>ParquetReader::_is_misaligned_range_group\<close>: the
  group belongs to this reader when its middle byte lies in the scan range. All
  offsets and sizes are \<^verbatim>\<open>int64_t\<close>, and so are the sums and the difference. A row
  group without column chunks is \<open>None\<close> (the source reads \<^verbatim>\<open>columns[0]\<close>).
\<close>

record 'v RowGroup =
  rg_columns :: "'v ColumnMetaData list"
  rg_num_rows :: int

definition get_column_start_offset :: "'v ColumnMetaData \<Rightarrow> int" where
  "get_column_start_offset column =
     (if cm_has_dict_page column then cm_dictionary_page_offset column
      else cm_data_page_offset column)"

definition is_misaligned_range_group :: "'r stat_filter_reader \<Rightarrow> 'v RowGroup \<Rightarrow> bool option" where
  "is_misaligned_range_group r row_group =
     (if rg_columns row_group = [] then None
      else
        (let start_offset = get_column_start_offset (hd (rg_columns row_group));
             last_column = last (rg_columns row_group);
             end_offset = int64_wrap (get_column_start_offset last_column +
                                      cm_total_compressed_size last_column);
             row_group_mid =
               int64_wrap (start_offset + int64_wrap (end_offset - start_offset) sdiv 2)
         in Some (\<not> (row_group_mid \<ge> sf_range_start_offset r \<and>
                      row_group_mid <
                        int64_wrap (sf_range_start_offset r + sf_range_size r)))))"

text \<open>
  The loop of \<^verbatim>\<open>ParquetReader::_init_row_groups\<close> over the row groups, from group
  \<open>row_group_idx\<close> on, with the running \<^verbatim>\<open>row_index\<close>.
\<close>

fun init_row_groups_loop ::
  "('r, 'v) stat_filter_env \<Rightarrow> bool \<Rightarrow> 'v RowGroup list \<Rightarrow> nat \<Rightarrow> int \<Rightarrow> 'r stat_filter_reader
   \<Rightarrow> status \<times> 'r stat_filter_reader" where
  "init_row_groups_loop env is_filter_groups [] row_group_idx row_index r = (OK, r)"
| "init_row_groups_loop env is_filter_groups (row_group # rest) row_group_idx row_index r =
     (case (if is_filter_groups then is_misaligned_range_group r row_group else Some False) of
        None \<Rightarrow> (InternalError ''row group without column chunks'', r)
      | Some True \<Rightarrow>
          init_row_groups_loop env is_filter_groups rest (row_group_idx + 1)
            (row_index + rg_num_rows row_group) r
      | Some False \<Rightarrow>
          (case (if is_filter_groups
                 then process_row_group_filter env r
                        (row_group_idx, row_index, row_index + rg_num_rows row_group)
                        (rg_columns row_group) False
                 else (OK, False, r)) of
             (st, filter_group, r1) \<Rightarrow>
               if st \<noteq> OK then (st, r1)
               else
                 (let r2 =
                        (if \<not> filter_group
                         then r1\<lparr>sf_read_row_groups := sf_read_row_groups r1 @
                                   [(row_group_idx, row_index, row_index + rg_num_rows row_group)],
                                 sf_stat_read_row_groups := sf_stat_read_row_groups r1 + 1\<rparr>
                         else r1\<lparr>sf_stat_filtered_row_groups := sf_stat_filtered_row_groups r1 + 1,
                                 sf_stat_filtered_group_rows :=
                                   sf_stat_filtered_group_rows r1 + rg_num_rows row_group\<rparr>)
                  in init_row_groups_loop env is_filter_groups rest (row_group_idx + 1)
                       (row_index + rg_num_rows row_group) r2)))"

text \<open>
  \<^verbatim>\<open>ParquetReader::_init_row_groups\<close>; \<open>row_groups\<close> and \<open>num_rows\<close> are those of the file
  meta data.
\<close>

definition init_row_groups ::
  "('r, 'v) stat_filter_env \<Rightarrow> 'r stat_filter_reader \<Rightarrow> 'v RowGroup list \<Rightarrow> int \<Rightarrow> bool
   \<Rightarrow> status \<times> 'r stat_filter_reader" where
  "init_row_groups env r row_groups num_rows is_filter_groups =
     (if is_filter_groups \<and> (length row_groups = 0 \<or> num_rows = 0 \<or> sf_range_size r < 0)
      then (EndOfFile ''No row group to read'', r)
      else
        (let ranges = sf_read_line_mode_row_ranges r;
             r0 = r\<lparr>sf_read_line_mode_row_ranges :=
                       take (length row_groups) ranges @
                       replicate (length row_groups - length ranges) []\<rparr>
         in case init_row_groups_loop env is_filter_groups row_groups 0 0 r0 of
              (st, r1) \<Rightarrow>
                if st \<noteq> OK then (st, r1)
                else if sf_read_row_groups r1 = []
                then (EndOfFile ''No row group to read'', r1)
                else (OK, r1)))"

text \<open>
  Modelled from the spec: \<^verbatim>\<open>ParquetPredicate::filter_by_stats\<close> is outside the files at
  hand. The specification has a row group skipped when the statistics prove it
  disjoint from the conjuncts' satisfying range, and kept when they are absent,
  all-null or to be ignored. Value ranges are one-sided or two-sided integer intervals
  and the encoded values are the integers themselves.
\<close>

datatype value_range = GreaterThan int | LessThan int | Between int int

fun range_disjoint :: "value_range \<Rightarrow> int \<Rightarrow> int \<Rightarrow> bool" where
  "range_disjoint (GreaterThan k) mn mx = (mx \<le> k)"
| "range_disjoint (LessThan k) mn mx = (k \<le> mn)"
| "range_disjoint (Between lo hi) mn mx = (mx < lo \<or> hi < mn)"

definition filter_by_stats_spec ::
  "value_range \<Rightarrow> FieldSchema \<Rightarrow> bool \<Rightarrow> int \<Rightarrow> int \<Rightarrow> bool \<Rightarrow> bool \<Rightarrow> bool" where
  "filter_by_stats_spec col_val_range col_schema ignore_min_max_stats encoded_min encoded_max
     is_all_null use_min_max_value =
     (\<not> ignore_min_max_stats \<and> \<not> is_all_null \<and>
      range_disjoint col_val_range encoded_min encoded_max)"

text \<open>
  Scenario A of the specification: a file with the single \<^verbatim>\<open>INT32\<close> column \<open>x\<close>, one
  row group of 100 rows whose statistics are \<open>min = 10\<close>, \<open>max = 20\<close>, read for the table
  column \<open>x\<close> under the predicate \<open>x > 25\<close>.
\<close>

definition scenario_A_node :: table_info_node where
  "scenario_A_node =
     \<lparr>children_column_exists = (\<lambda>c. c = ''x''), children_file_column_name = (\<lambda>c. c)\<rparr>"

definition scenario_A_env :: "(value_range, int) stat_filter_env" where
  "scenario_A_env =
     \<lparr>sf_table_info_node = scenario_A_node,
      sf_schema = [(''x'', \<lparr>fs_physical_column_index = 0, fs_physical_type = INT32,
                           fs_logical_type_isset_UNKNOWN = False, fs_sort_order = SIGNED\<rparr>)],
      sf_should_ignore_statistics = (\<lambda>t. False),
      sf_filter_by_stats = filter_by_stats_spec\<rparr>"

definition scenario_A_row_group :: "int RowGroup" where
  "scenario_A_row_group =
     \<lparr>rg_columns =
        [\<lparr>cm_statistics =
            \<lparr>st_max = 20, st_min = 10, st_null_count = 0, st_max_value = 20, st_min_value = 10,
             isset_max = True, isset_min = True, isset_null_count = True,
             isset_max_value = True, isset_min_value = True\<rparr>,
          cm_num_values = 100, cm_has_dict_page = False, cm_dictionary_page_offset = 0,
          cm_data_page_offset = 4, cm_total_compressed_size = 400\<rparr>],
      rg_num_rows = 100\<rparr>"

definition scenario_A_reader :: "value_range stat_filter_reader" where
  "scenario_A_reader =
     \<lparr>sf_enable_filter_by_min_max = True,
      sf_colname_to_value_range = Some [(''x'', GreaterThan 25)],
      sf_read_table_columns = init_read_table_columns scenario_A_node [''x''] [''x''],
      sf_ignored_stats = [],
      sf_read_line_mode_mode = False, sf_read_lines = [], sf_read_line_mode_row_ranges = [],
      sf_range_start_offset = 0, sf_range_size = 1000,
      sf_read_row_groups = [],
      sf_stat_read_row_groups = 0, sf_stat_filtered_row_groups = 0,
      sf_stat_filtered_group_rows = 0\<rparr>"

subsection \<open>Opening a file\<close>

text \<open>\<^verbatim>\<open>std::string::find(pattern) != npos\<close>.\<close>

fun has_substring :: "string \<Rightarrow> string \<Rightarrow> bool" where
  "has_substring pat [] = (pat = [])"
| "has_substring pat (c # cs) = (take (length pat) (c # cs) = pat \<or> has_substring pat cs)"

fun is_end_of_file :: "status \<Rightarrow> bool" where
  "is_end_of_file (EndOfFile msg) = True"
| "is_end_of_file st = False"

text \<open>
  \<^verbatim>\<open>OrcReader::_create_file_reader\<close>. The reader state records whether \<^verbatim>\<open>_reader\<close> exists
  and, when \<^verbatim>\<open>_file_input_stream\<close> exists, the length of its file. From outside come the
  result of \<^verbatim>\<open>DelegateReader::create_file_reader\<close> (an error status or the length of the
  opened file), the message of an exception thrown by \<^verbatim>\<open>orc::createReader\<close>, the stop
  flag and the path of the scan range.
\<close>

record orc_open_state =
  reader_created :: bool
  file_input_stream :: "nat option"

record orc_open_env =
  oo_create_file_reader :: "status + nat"
  oo_create_reader_exception :: "string option"
  oo_should_stop :: bool
  oo_path :: string

definition create_file_reader :: "orc_open_env \<Rightarrow> orc_open_state \<Rightarrow> status \<times> orc_open_state" where
  "create_file_reader env s =
     (if reader_created s then (OK, s)
      else
        (case (case file_input_stream s of
                 Some len \<Rightarrow> Inr len
               | None \<Rightarrow> oo_create_file_reader env) of
           Inl e \<Rightarrow> (e, s)
         | Inr len \<Rightarrow>
             (let s1 = s\<lparr>file_input_stream := Some len\<rparr>
              in if len = 0 then (EndOfFile (''empty orc file: '' @ oo_path env), s1)
                 else
                   (case oo_create_reader_exception env of
                      None \<Rightarrow> (OK, s1\<lparr>reader_created := True, file_input_stream := None\<rparr>)
                    | Some err_msg \<Rightarrow>
                        if oo_should_stop env \<and> err_msg = ''stop''
                        then (EndOfFile ''stop'', s1\<lparr>file_input_stream := None\<rparr>)
                        else if has_substring ''No such file or directory'' err_msg \<or>
                                has_substring ''NoSuchKey'' err_msg
                        then (NotFound err_msg, s1\<lparr>file_input_stream := None\<rparr>)
                        else (InternalError (''Init OrcReader failed. reason = '' @ err_msg),
                              s1\<lparr>file_input_stream := None\<rparr>)))))"

text \<open>
  \<^verbatim>\<open>OrcReader::init_reader\<close>, as far as its status goes: after storing its arguments it
  returns the error of \<^verbatim>\<open>_create_file_reader\<close>, if any, and otherwise runs
  \<^verbatim>\<open>_init_read_columns\<close>, which always succeeds.
\<close>

definition orc_init_reader :: "orc_open_env \<Rightarrow> orc_open_state \<Rightarrow> status \<times> orc_open_state" where
  "orc_init_reader env s =
     (case create_file_reader env s of
        (st, s') \<Rightarrow> if st \<noteq> OK then (st, s') else (OK, s'))"

text \<open>
  \<^verbatim>\<open>ParquetReader::_open_file\<close>. The state records the size of the file behind
  \<^verbatim>\<open>_file_reader\<close> (when it exists) and the parsed footer \<^verbatim>\<open>_file_metadata\<close>: its row groups
  and its number of rows. From outside come the stop flag, the result of
  \<^verbatim>\<open>DelegateReader::create_file_reader\<close>, whether a meta-data cache is used, and the
  status and footer pointer that \<^verbatim>\<open>parse_thrift_footer\<close> or the cache leave, and the
  paths of the scan range and of the file description.
  \<^verbatim>\<open>sizeof(PARQUET_VERSION_NUMBER)\<close> is the four bytes of the magic number.
\<close>

record 'v FileMetaData =
  md_row_groups :: "'v RowGroup list"
  md_num_rows :: int

record 'v parquet_open_state =
  po_file_reader :: "nat option"
  po_file_metadata :: "'v FileMetaData option"

record 'v parquet_open_env =
  po_should_stop :: bool
  po_create_file_reader :: "status + nat"
  po_meta_cache :: bool
  po_parse_thrift_footer :: "status \<times> 'v FileMetaData option"
  po_get_parquet_footer :: "status \<times> 'v FileMetaData option"
  po_path :: string
  po_file_description_path :: string

definition sizeof_PARQUET_VERSION_NUMBER :: nat where
  "sizeof_PARQUET_VERSION_NUMBER = 4"

definition open_file ::
  "'v parquet_open_env \<Rightarrow> 'v parquet_open_state \<Rightarrow> status \<times> 'v parquet_open_state" where
  "open_file env s =
     (if po_should_stop env then (EndOfFile ''stop'', s)
      else
        (case (case po_file_reader s of
                 Some file_size \<Rightarrow> Inr file_size
               | None \<Rightarrow> po_create_file_reader env) of
           Inl e \<Rightarrow> (e, s)
         | Inr file_size \<Rightarrow>
             (let s1 = s\<lparr>po_file_reader := Some file_size\<rparr>
              in case po_file_metadata s1 of
                   Some md \<Rightarrow> (OK, s1)
                 | None \<Rightarrow>
                     if file_size \<le> sizeof_PARQUET_VERSION_NUMBER
                     then (EndOfFile (''open file failed, empty parquet file '' @ po_path env @
                                      '' with size: '' @ nat_to_string file_size), s1)
                     else
                       (let (st, md) = (if \<not> po_meta_cache env then po_parse_thrift_footer env
                                        else po_get_parquet_footer env);
                            s2 = (if \<not> po_meta_cache env \<or> st = OK
                                  then s1\<lparr>po_file_metadata := md\<rparr> else s1)
                        in if st \<noteq> OK then (st, s2)
                           else if po_file_metadata s2 = None
                           then (InternalError (''failed to get file meta data: '' @
                                                po_file_description_path env), s2)
                           else (OK, s2)))))"

text \<open>
  \<^verbatim>\<open>ParquetReader::init_reader\<close>: the file is opened, an empty list of row groups ends
  the call, otherwise the columns are split and the row groups planned. The reader of
  the planning starts with the read columns of the split.
\<close>

definition parquet_init_reader ::
  "'v parquet_open_env \<Rightarrow> ('r, 'v) stat_filter_env \<Rightarrow> 'v parquet_open_state
   \<Rightarrow> 'r stat_filter_reader \<Rightarrow> string list \<Rightarrow> string list \<Rightarrow> bool
   \<Rightarrow> status \<times> 'v parquet_open_state \<times> 'r stat_filter_reader" where
  "parquet_init_reader oenv env s r schema_names all_column_names filter_groups =
     (case open_file oenv s of
        (st, s1) \<Rightarrow>
          if st \<noteq> OK then (st, s1, r)
          else
            (case po_file_metadata s1 of
               None \<Rightarrow> (InternalError ''failed to init parquet reader, please open reader first'',
                         s1, r)
             | Some md \<Rightarrow>
                 if length (md_row_groups md) = 0
                 then (EndOfFile (''init reader failed, empty parquet file: '' @ po_path oenv),
                       s1, r)
                 else
                   (let r1 = r\<lparr>sf_read_table_columns :=
                                 sf_read_table_columns r @
                                 init_read_table_columns (sf_table_info_node env)
                                   schema_names all_column_names\<rparr>
                    in case init_row_groups env r1 (md_row_groups md) (md_num_rows md)
                              filter_groups of
                         (st2, r2) \<Rightarrow> (st2, s1, r2))))"

text \<open>An ORC file of zero bytes, and a Parquet file whose footer has no row group.\<close>

definition empty_orc_env :: orc_open_env where
  "empty_orc_env =
     \<lparr>oo_create_file_reader = Inr 0, oo_create_reader_exception = None,
      oo_should_stop = False, oo_path = ''t.orc''\<rparr>"

definition empty_parquet_env :: "int parquet_open_env" where
  "empty_parquet_env =
     \<lparr>po_should_stop = False, po_create_file_reader = Inr 120, po_meta_cache = False,
      po_parse_thrift_footer = (OK, Some \<lparr>md_row_groups = [], md_num_rows = 0\<rparr>),
      po_get_parquet_footer = (OK, None), po_path = ''t.parquet'',
      po_file_description_path = ''t.parquet''\<rparr>"

subsection \<open>Producing the next batch (OrcReader) and cooperative stop\<close>



























subsection \<open>Dictionary filtering (OrcReader)\<close>

text \<open>
  The single-slot conjuncts \<^verbatim>\<open>_can_filter_by_dict\<close> lets through are binary predicates
  and IN predicates whose first child is the slot. Here they are comparisons of the
  string column with a literal for equality or inequality, and (negated) membership
  in a list of literals.
\<close>

datatype string_conjunct =
    BinaryEq string
  | BinaryNe string
  | InPred bool "string list"

fun eval_string_conjunct :: "string_conjunct \<Rightarrow> string \<Rightarrow> bool" where
  "eval_string_conjunct (BinaryEq lit) v = (v = lit)"
| "eval_string_conjunct (BinaryNe lit) v = (v \<noteq> lit)"
| "eval_string_conjunct (InPred is_not_in lits) v = (if is_not_in then v \<notin> set lits else v \<in> set lits)"

text \<open>
  Modelled from the spec: \<^verbatim>\<open>VExprContext::execute_conjuncts\<close> belongs to the expression
  evaluator, which the specification gives as \<open>evaluate(conjuncts, batch) ->
  (filter_vector, can_filter_all)\<close>: a row passes when every conjunct holds for it, and
  \<open>can_filter_all\<close> says that no row passes.
\<close>

definition execute_conjuncts :: "string_conjunct list \<Rightarrow> string list \<Rightarrow> bool list \<times> bool" where
  "execute_conjuncts ctxs column =
     (let result_filter = map (\<lambda>v. list_all (\<lambda>c. eval_string_conjunct c v) ctxs) column
      in (result_filter, \<not> list_ex (\<lambda>b. b) result_filter))"

text \<open>
  The conjunct \<^verbatim>\<open>_rewrite_dict_conjuncts\<close> builds: \<open>eq(slot, code)\<close> with its nullable flag,
  or a direct IN predicate over the slot with the set of codes.
\<close>

datatype code_conjunct =
    CodeEq int int bool
  | CodeIn int "int list"

record slot_descriptor =
  slot_id :: int
  slot_is_materialized :: bool
  slot_is_nullable :: bool

record dict_filter_state =
  dict_filter_cols :: "(string \<times> int) list"
  dict_filter_conjuncts :: "code_conjunct list"
  non_dict_filter_conjuncts :: "string_conjunct list"

text \<open>
  What \<^verbatim>\<open>on_string_dicts_loaded\<close> reads besides the three lists: the single-slot
  conjuncts by slot id, the schema-change node, the slots of the tuple descriptor, the
  status the evaluator returns, and the status of preparing and opening a rewritten
  conjunct.
\<close>

record dict_filter_env =
  dc_slot_id_to_filter_conjuncts :: "(int \<times> string_conjunct list) list"
  dc_table_info_node :: table_info_node
  dc_slots :: "slot_descriptor list"
  dc_execute_status :: status
  dc_prepare_status :: status

definition MAX_DICT_CODE_PREDICATE_TO_REWRITE :: nat where
  "MAX_DICT_CODE_PREDICATE_TO_REWRITE = 4294967295"

text \<open>
  The loop that builds the temporary block: the position of the dictionary column among
  the materialized slots (\<open>None\<close> for the source's \<open>-1\<close>), and the nullability of that
  slot.
\<close>

fun find_dict_pos :: "slot_descriptor list \<Rightarrow> int \<Rightarrow> nat \<Rightarrow> (nat \<times> bool) option
                      \<Rightarrow> (nat \<times> bool) option" where
  "find_dict_pos [] sid index found = found"
| "find_dict_pos (slot_desc # slots) sid index found =
     (if \<not> slot_is_materialized slot_desc then find_dict_pos slots sid index found
      else if slot_id slot_desc = sid
      then find_dict_pos slots sid (index + 1) (Some (index, slot_is_nullable slot_desc))
      else find_dict_pos slots sid (index + 1) found)"

text \<open>
  \<^verbatim>\<open>OrcReader::_rewrite_dict_conjuncts\<close>: the status, and the list
  \<^verbatim>\<open>_dict_filter_conjuncts\<close> after the call. The codes are \<^verbatim>\<open>int32_t\<close>.
\<close>

definition rewrite_dict_conjuncts ::
  "dict_filter_env \<Rightarrow> int list \<Rightarrow> int \<Rightarrow> bool \<Rightarrow> code_conjunct list
   \<Rightarrow> status \<times> code_conjunct list" where
  "rewrite_dict_conjuncts env dict_codes sid is_nullable conjuncts_so_far =
     (let root = (if length dict_codes = 1 then CodeEq sid (dict_codes ! 0) is_nullable
                  else CodeIn sid dict_codes)
      in if dc_prepare_status env \<noteq> OK then (dc_prepare_status env, conjuncts_so_far)
         else (OK, conjuncts_so_far @ [root]))"

text \<open>
  One turn of the loop of \<^verbatim>\<open>OrcReader::on_string_dicts_loaded\<close> over
  \<^verbatim>\<open>_dict_filter_cols\<close>: it ends the function with an error or with the stripe filtered,
  or goes on with the column erased or kept. A dictionary is the list of its values by
  code. For a dictionary column that is not among the materialized slots the temporary
  block lacks the dictionary values; the source still calls the evaluator, returns its
  error if it has one, and later indexes the block at \<open>-1\<close>, which is an internal error
  here.
\<close>

datatype dict_step =
    StepError status
  | StripeFiltered
  | Erase dict_filter_state
  | Keep dict_filter_state

definition dict_filter_column ::
  "dict_filter_env \<Rightarrow> (string \<times> string list) list \<Rightarrow> string \<times> int \<Rightarrow> dict_filter_state
   \<Rightarrow> dict_step" where
  "dict_filter_column env file_column_name_to_dict_map col st =
     (case map_of (dc_slot_id_to_filter_conjuncts env) (snd col) of
        None \<Rightarrow>
          StepError (NotFound (''_slot_id_to_filter_conjuncts: slot_id ['' @
                               int_to_string (snd col) @ ''] not found''))
      | Some ctxs \<Rightarrow>
          (case map_of file_column_name_to_dict_map
                  (children_file_column_name (dc_table_info_node env) (fst col)) of
             None \<Rightarrow>
               Erase (st\<lparr>non_dict_filter_conjuncts := non_dict_filter_conjuncts st @ ctxs\<rparr>)
           | Some dict \<Rightarrow>
               if length dict = 0
               then Erase (st\<lparr>non_dict_filter_conjuncts := non_dict_filter_conjuncts st @ ctxs\<rparr>)
               else
                 (let found = find_dict_pos (dc_slots env) (snd col) 0 None
                  in if dc_execute_status env \<noteq> OK then StepError (dc_execute_status env)
                     else
                       (case found of
                          None \<Rightarrow> StepError (InternalError ''dictionary column is not in the block'')
                        | Some (dict_pos, is_nullable) \<Rightarrow>
                            (case execute_conjuncts ctxs dict of
                               (result_filter, can_filter_all) \<Rightarrow>
                                 if can_filter_all then StripeFiltered
                                 else
                                   (let dict_codes =
                                          map (\<lambda>i. signed_take_bit 31 (int i))
                                            (filter (\<lambda>i. result_filter ! i)
                                               [0..<length result_filter])
                                    in if length dict_codes > MAX_DICT_CODE_PREDICATE_TO_REWRITE
                                       then Erase (st\<lparr>non_dict_filter_conjuncts :=
                                                        non_dict_filter_conjuncts st @ ctxs\<rparr>)
                                       else
                                         (case rewrite_dict_conjuncts env dict_codes (snd col)
                                                 is_nullable (dict_filter_conjuncts st) of
                                            (rst, conjuncts') \<Rightarrow>
                                              if rst \<noteq> OK then StepError rst
                                              else Keep (st\<lparr>dict_filter_conjuncts :=
                                                              conjuncts'\<rparr>))))))))"

text \<open>
  The loop itself: \<open>kept\<close> are the columns already passed and still in
  \<^verbatim>\<open>_dict_filter_cols\<close>. The result is the status, \<^verbatim>\<open>*is_stripe_filtered\<close> and the state.
\<close>

fun dict_filter_loop ::
  "dict_filter_env \<Rightarrow> (string \<times> string list) list \<Rightarrow> (string \<times> int) list
   \<Rightarrow> (string \<times> int) list \<Rightarrow> dict_filter_state \<Rightarrow> status \<times> bool \<times> dict_filter_state" where
  "dict_filter_loop env dicts kept [] st = (OK, False, st\<lparr>dict_filter_cols := kept\<rparr>)"
| "dict_filter_loop env dicts kept (col # rest) st =
     (case dict_filter_column env dicts col st of
        StepError e \<Rightarrow> (e, False, st\<lparr>dict_filter_cols := kept @ col # rest\<rparr>)
      | StripeFiltered \<Rightarrow> (OK, True, st\<lparr>dict_filter_cols := kept @ col # rest\<rparr>)
      | Erase st' \<Rightarrow> dict_filter_loop env dicts kept rest st'
      | Keep st' \<Rightarrow> dict_filter_loop env dicts (kept @ [col]) rest st')"

text \<open>\<^verbatim>\<open>OrcReader::on_string_dicts_loaded\<close>.\<close>

definition on_string_dicts_loaded ::
  "dict_filter_env \<Rightarrow> (string \<times> string list) list \<Rightarrow> dict_filter_state
   \<Rightarrow> status \<times> bool \<times> dict_filter_state" where
  "on_string_dicts_loaded env file_column_name_to_dict_map st =
     dict_filter_loop env file_column_name_to_dict_map [] (dict_filter_cols st) st"








text \<open>
  Scenario C of the specification: the string column \<open>col\<close> (slot 7) with the conjunct
  \<open>col = "b"\<close>, to be run with the dictionary \<open>a, b, c\<close> and with a dictionary that lacks
  \<open>b\<close>; and the same column with the conjunct \<open>col \<noteq> "b"\<close>.
\<close>

definition scenario_C_env :: dict_filter_env where
  "scenario_C_env =
     \<lparr>dc_slot_id_to_filter_conjuncts = [(7, [BinaryEq ''b''])],
      dc_table_info_node =
        \<lparr>children_column_exists = (\<lambda>c. True), children_file_column_name = (\<lambda>c. c)\<rparr>,
      dc_slots = [\<lparr>slot_id = 7, slot_is_materialized = True, slot_is_nullable = False\<rparr>],
      dc_execute_status = OK, dc_prepare_status = OK\<rparr>"

definition scenario_C_state :: dict_filter_state where
  "scenario_C_state =
     \<lparr>dict_filter_cols = [(''col'', 7)], dict_filter_conjuncts = [],
      non_dict_filter_conjuncts = []\<rparr>"


section \<open>Verified properties\<close>

subsection \<open>The binary searches\<close>

lemma lower_bound_bounds:
  "sorted xs \<Longrightarrow> first + len \<le> length xs \<Longrightarrow>
   first \<le> lower_bound xs first len v \<and> lower_bound xs first len v \<le> first + len \<and>
   (\<forall>i. first \<le> i \<and> i < lower_bound xs first len v \<longrightarrow> xs ! i < v) \<and>
   (\<forall>i. lower_bound xs first len v \<le> i \<and> i < first + len \<longrightarrow> v \<le> xs ! i)"
proof (induction xs first len v rule: lower_bound.induct)
  case (1 xs first len v)
  show ?case
  proof (cases "len = 0")
    case True
    then show ?thesis by (auto simp: lower_bound.simps)
  next
    case False
    define half where "half = len div 2"
    define mid where "mid = first + half"
    have mid_lt: "mid < first + len" using False by (simp add: mid_def half_def)
    show ?thesis
    proof (cases "xs ! mid < v")
      case True
      have eq: "lower_bound xs first len v = lower_bound xs (mid + 1) (len - half - 1) v"
        using False True by (subst lower_bound.simps) (simp add: Let_def mid_def half_def)
      have range: "mid + 1 + (len - half - 1) \<le> length xs"
        using 1(4) mid_lt by (simp add: mid_def)
      note IH = 1(1)[OF False half_def mid_def True 1(3) range]
      have end_eq: "mid + 1 + (len - half - 1) = first + len"
        using mid_lt by (simp add: mid_def)
      have low: "\<And>i. first \<le> i \<Longrightarrow> i \<le> mid \<Longrightarrow> xs ! i < v"
      proof -
        fix i assume "first \<le> i" "i \<le> mid"
        have "xs ! i \<le> xs ! mid"
          using 1(3) \<open>i \<le> mid\<close> mid_lt 1(4) by (intro sorted_nth_mono) auto
        then show "xs ! i < v" using True by simp
      qed
      show ?thesis unfolding eq using IH low end_eq by (auto simp: mid_def) (metis le_less_linear not_less_eq_eq Suc_eq_plus1)+
    next
      case nlt: False
      have eq: "lower_bound xs first len v = lower_bound xs first half v"
        using False nlt by (subst lower_bound.simps) (simp add: Let_def mid_def half_def)
      have range: "first + half \<le> length xs"
        using 1(4) by (simp add: half_def)
      note IH = 1(2)[OF False half_def mid_def nlt 1(3) range]
      have high: "\<And>i. mid \<le> i \<Longrightarrow> i < first + len \<Longrightarrow> v \<le> xs ! i"
      proof -
        fix i assume "mid \<le> i" "i < first + len"
        have "xs ! mid \<le> xs ! i"
          using 1(3) \<open>mid \<le> i\<close> \<open>i < first + len\<close> 1(4) by (intro sorted_nth_mono) auto
        then show "v \<le> xs ! i" using nlt by simp
      qed
      show ?thesis unfolding eq using IH high mid_lt mid_def
        by (metis le_less_linear less_imp_le_nat order_trans)
    qed
  qed
qed


lemma upper_bound_bounds:
  "sorted xs \<Longrightarrow> first + len \<le> length xs \<Longrightarrow>
   first \<le> upper_bound xs first len v \<and> upper_bound xs first len v \<le> first + len \<and>
   (\<forall>i. first \<le> i \<and> i < upper_bound xs first len v \<longrightarrow> xs ! i \<le> v) \<and>
   (\<forall>i. upper_bound xs first len v \<le> i \<and> i < first + len \<longrightarrow> v < xs ! i)"
proof (induction xs first len v rule: upper_bound.induct)
  case (1 xs first len v)
  show ?case
  proof (cases "len = 0")
    case True
    then show ?thesis by (auto simp: upper_bound.simps)
  next
    case False
    define half where "half = len div 2"
    define mid where "mid = first + half"
    have mid_lt: "mid < first + len" using False by (simp add: mid_def half_def)
    show ?thesis
    proof (cases "v < xs ! mid")
      case nlt: False
      have eq: "upper_bound xs first len v = upper_bound xs (mid + 1) (len - half - 1) v"
        using False nlt by (subst upper_bound.simps) (simp add: Let_def mid_def half_def)
      have range: "mid + 1 + (len - half - 1) \<le> length xs"
        using 1(4) mid_lt by (simp add: mid_def)
      note IH = 1(2)[OF False half_def mid_def nlt 1(3) range]
      have end_eq: "mid + 1 + (len - half - 1) = first + len"
        using mid_lt by (simp add: mid_def)
      have low: "\<And>i. first \<le> i \<Longrightarrow> i \<le> mid \<Longrightarrow> xs ! i \<le> v"
      proof -
        fix i assume "first \<le> i" "i \<le> mid"
        have "xs ! i \<le> xs ! mid"
          using 1(3) \<open>i \<le> mid\<close> mid_lt 1(4) by (intro sorted_nth_mono) auto
        then show "xs ! i \<le> v" using nlt by simp
      qed
      show ?thesis unfolding eq using IH low end_eq
        by (auto simp: mid_def) (metis le_less_linear not_less_eq_eq Suc_eq_plus1)+
    next
      case True
      have eq: "upper_bound xs first len v = upper_bound xs first half v"
        using False True by (subst upper_bound.simps) (simp add: Let_def mid_def half_def)
      have range: "first + half \<le> length xs"
        using 1(4) by (simp add: half_def)
      note IH = 1(1)[OF False half_def mid_def True 1(3) range]
      have high: "\<And>i. mid \<le> i \<Longrightarrow> i < first + len \<Longrightarrow> v < xs ! i"
      proof -
        fix i assume "mid \<le> i" "i < first + len"
        have "xs ! mid \<le> xs ! i"
          using 1(3) \<open>mid \<le> i\<close> \<open>i < first + len\<close> 1(4) by (intro sorted_nth_mono) auto
        then show "v < xs ! i" using True by simp
      qed
      show ?thesis unfolding eq using IH high mid_lt mid_def
        by (metis le_less_linear less_imp_le_nat order_trans)
    qed
  qed
qed

lemma window_slice_set:
  assumes "sorted xs"
  shows "set (take (upper_bound xs 0 (length xs) hi - lower_bound xs 0 (length xs) lo)
                (drop (lower_bound xs 0 (length xs) lo) xs))
         = {x \<in> set xs. lo \<le> x \<and> x \<le> hi}"
proof -
  define l where "l = lower_bound xs 0 (length xs) lo"
  define r where "r = upper_bound xs 0 (length xs) hi"
  have L: "l \<le> length xs" "\<And>i. i < l \<Longrightarrow> xs ! i < lo"
          "\<And>i. l \<le> i \<Longrightarrow> i < length xs \<Longrightarrow> lo \<le> xs ! i"
    using lower_bound_bounds[OF assms, of 0 "length xs" lo] by (auto simp: l_def)
  have R: "r \<le> length xs" "\<And>i. i < r \<Longrightarrow> xs ! i \<le> hi"
          "\<And>i. r \<le> i \<Longrightarrow> i < length xs \<Longrightarrow> hi < xs ! i"
    using upper_bound_bounds[OF assms, of 0 "length xs" hi] by (auto simp: r_def)
  have "set (take (r - l) (drop l xs)) = {xs ! i | i. l \<le> i \<and> i < r}"
  proof -
    have "take (r - l) (drop l xs) = map ((!) xs) [l..<r]"
      using R(1) L(1) by (auto intro!: nth_equalityI)
    then show ?thesis by auto
  qed
  also have "\<dots> = {x \<in> set xs. lo \<le> x \<and> x \<le> hi}"
  proof (intro set_eqI iffI)
    fix x assume "x \<in> {xs ! i | i. l \<le> i \<and> i < r}"
    then obtain i where i: "x = xs ! i" "l \<le> i" "i < r" by auto
    then show "x \<in> {x \<in> set xs. lo \<le> x \<and> x \<le> hi}"
      using L(3)[of i] R(2)[of i] R(1) by auto
  next
    fix x assume "x \<in> {x \<in> set xs. lo \<le> x \<and> x \<le> hi}"
    then obtain i where i: "i < length xs" "x = xs ! i" "lo \<le> x" "x \<le> hi"
      by (auto simp: in_set_conv_nth)
    have "l \<le> i" using L(2)[of i] i by (meson leD leI)
    moreover have "i < r" using R(3)[of i] i by (meson leD leI)
    ultimately show "x \<in> {xs ! i | i. l \<le> i \<and> i < r}" using i by auto
  qed
  finally show ?thesis by (simp add: l_def r_def)
qed

lemma clear_filter_result:
  "\<forall>x\<in>set ys. unat (x - start) < length f \<Longrightarrow>
   \<exists>f'. clear_filter start ys f = Some f' \<and> length f' = length f \<and>
        (\<forall>i<length f. f' ! i = (if \<exists>x\<in>set ys. unat (x - start) = i then 0 else f ! i))"
proof (induction ys arbitrary: f)
  case Nil
  then show ?case by simp
next
  case (Cons y ys)
  let ?g = "f[unat (y - start) := 0]"
  have "\<forall>x\<in>set ys. unat (x - start) < length ?g" using Cons.prems by simp
  from Cons.IH[OF this] obtain f' where
    f': "clear_filter start ys ?g = Some f'" "length f' = length ?g"
        "\<forall>i<length ?g. f' ! i = (if \<exists>x\<in>set ys. unat (x - start) = i then 0 else ?g ! i)"
    by blast
  have "clear_filter start (y # ys) f = Some f'" using Cons.prems f'(1) by (simp add: Let_def)
  moreover have "length f' = length f" using f'(2) by simp
  moreover have "\<forall>i<length f. f' ! i = (if \<exists>x\<in>set (y # ys). unat (x - start) = i then 0 else f ! i)"
    using f'(3) Cons.prems by (auto simp: nth_list_update)
  ultimately show ?case by blast
qed

lemma window_lower:
  fixes start nums k :: "64 word"
  assumes "unat k = i" "i < unat nums" "unat start + unat nums \<le> 2 ^ 64"
  shows "start \<le> start + k"
proof -
  have "unat start + unat k < 2 ^ 64" using assms by simp
  then show ?thesis by (simp add: no_olen_add_nat)
qed

lemma window_upper:
  fixes start nums k :: "64 word"
  assumes "unat k = i" "i < unat nums" "unat start + unat nums \<le> 2 ^ 64" "nums \<noteq> 0"
  shows "start + k \<le> start + nums - 1"
proof -
  have 1: "unat (start + k) = unat start + unat k"
    using assms by (simp add: unat_add_lem[THEN iffD1])
  have n1: "unat (nums - 1) = unat nums - 1"
    using assms(4) by (simp add: unat_minus_one)
  have 2: "unat (start + (nums - 1)) = unat start + unat (nums - 1)"
    using assms n1 by (simp add: unat_add_lem[THEN iffD1])
  have e: "start + nums - 1 = start + (nums - 1)" by simp
  have "unat (start + nums - 1) = unat start + (unat nums - 1)"
    unfolding e using 2 n1 by simp
  then show ?thesis using 1 assms by (simp add: word_le_nat_alt)
qed


lemma window_index:
  fixes start nums x :: "64 word"
  assumes "nums \<noteq> 0" "unat start + unat nums \<le> 2 ^ 64" "start \<le> x" "x \<le> start + nums - 1"
  shows "unat (x - start) < unat nums"
proof -
  have n1: "unat (nums - 1) = unat nums - 1"
    using assms(1) by (simp add: unat_minus_one)
  have pos: "0 < unat nums" using assms(1) by (simp add: unat_gt_0)
  have "unat start + unat (nums - 1) < 2 ^ 64" using n1 pos assms(2) by simp
  then have 2: "unat (start + (nums - 1)) = unat start + unat (nums - 1)"
    by (simp add: unat_add_lem[THEN iffD1])
  have e: "start + nums - 1 = start + (nums - 1)" by simp
  have hi: "unat (start + nums - 1) = unat start + (unat nums - 1)"
    unfolding e using 2 n1 by simp
  have "unat (x - start) = unat x - unat start"
    using assms(3) by (simp add: unat_sub)
  moreover have "unat x \<le> unat start + (unat nums - 1)"
    using assms(4) hi by (simp add: word_le_nat_alt)
  ultimately show ?thesis using pos by simp
qed

lemma window_member:
  fixes start nums :: "64 word"
  assumes nz: "nums \<noteq> 0" and nowrap: "unat start + unat nums \<le> 2 ^ 64" and i: "i < unat nums"
  shows "(\<exists>x\<in>{x \<in> set xs. start \<le> x \<and> x \<le> start + nums - 1}. unat (x - start) = i)
         \<longleftrightarrow> start + word_of_nat i \<in> set xs"
proof
  assume "\<exists>x\<in>{x \<in> set xs. start \<le> x \<and> x \<le> start + nums - 1}. unat (x - start) = i"
  then obtain x where x: "x \<in> set xs" "unat (x - start) = i" by auto
  have "x - start = word_of_nat i" using x(2) by auto
  then have "x = start + word_of_nat i" by (metis add.commute diff_add_cancel)
  then show "start + word_of_nat i \<in> set xs" using x(1) by simp
next
  assume mem: "start + word_of_nat i \<in> set xs"
  define k :: "64 word" where "k = word_of_nat i"
  have ilt: "i < 2 ^ 64" using i unsigned_less[of nums, where 'a=nat] by simp
  have uk: "unat k = i" unfolding k_def using ilt by (simp add: unat_of_nat)
  have "start \<le> start + k" by (rule window_lower[OF uk i nowrap])
  moreover have "start + k \<le> start + nums - 1" by (rule window_upper[OF uk i nowrap nz])
  moreover have "unat (start + k - start) = i" using uk by simp
  ultimately show "\<exists>x\<in>{x \<in> set xs. start \<le> x \<and> x \<le> start + nums - 1}. unat (x - start) = i"
    using mem unfolding k_def by blast
qed


text \<open>
  C7. For an ordered row-id list and a batch covering the absolute rows
  \<open>[start, start + nums)\<close> (a non-empty batch that does not run past \<open>2^64\<close>, with one
  filter entry per row), the delete filter returns a filter of the same length in which
  position \<open>i\<close> is 0 exactly when row \<open>start + i\<close> is in the list, and keeps its previous
  value otherwise. The two window bounds are the results of the halving searches
  \<open>lower_bound\<close> and \<open>upper_bound\<close>.
\<close>

theorem position_delete_clears_exactly_window:
  fixes start nums :: "64 word"
  assumes "sorted xs" and "nums \<noteq> 0" and "unat start + unat nums \<le> 2 ^ 64"
    and "length f = unat nums"
  shows "\<exists>f'. execute_filter_position_delete_rowids (Some xs) start nums f = Some f' \<and>
              length f' = length f \<and>
              (\<forall>i<length f. f' ! i = (if start + word_of_nat i \<in> set xs then 0 else f ! i))"
proof -
  let ?ys = "take (upper_bound xs 0 (length xs) (start + nums - 1) - lower_bound xs 0 (length xs) start)
                (drop (lower_bound xs 0 (length xs) start) xs)"
  have S: "set ?ys = {x \<in> set xs. start \<le> x \<and> x \<le> start + nums - 1}"
    by (rule window_slice_set[OF assms(1)])
  have inr: "\<forall>x\<in>set ?ys. unat (x - start) < length f"
    unfolding S using window_index[OF assms(2,3)] assms(4) by auto
  from clear_filter_result[OF inr] obtain f' where
    f': "clear_filter start ?ys f = Some f'" "length f' = length f"
        "\<forall>i<length f. f' ! i = (if \<exists>x\<in>set ?ys. unat (x - start) = i then 0 else f ! i)"
    by blast
  have "\<forall>i<length f. f' ! i = (if start + word_of_nat i \<in> set xs then 0 else f ! i)"
    using f'(3) unfolding S using window_member[OF assms(2,3)] assms(4) by simp
  then show ?thesis using f'(1,2)
    by (simp add: execute_filter_position_delete_rowids_def Let_def)
qed


theorem position_delete_clears_exactly_window_witness:
  "sorted [5, 9 :: 64 word] \<and> (10 :: 64 word) \<noteq> 0 \<and>
   unat (0 :: 64 word) + unat (10 :: 64 word) \<le> 2 ^ 64 \<and>
   length [1, 1, 1, 1, 1, 1, 1, 1, 1, 1 :: 8 word] = unat (10 :: 64 word) \<and>
   (\<exists>f'. execute_filter_position_delete_rowids (Some [5, 9]) 0 10
            [1, 1, 1, 1, 1, 1, 1, 1, 1, 1] = Some f' \<and>
         length f' = length [1, 1, 1, 1, 1, 1, 1, 1, 1, 1 :: 8 word] \<and>
         (\<forall>i<length [1, 1, 1, 1, 1, 1, 1, 1, 1, 1 :: 8 word].
            f' ! i = (if 0 + word_of_nat i \<in> set [5, 9 :: 64 word] then 0
                      else [1, 1, 1, 1, 1, 1, 1, 1, 1, 1] ! i)))"
proof -
  have h1: "sorted [5, 9 :: 64 word]" by simp
  have h2: "(10 :: 64 word) \<noteq> 0" by simp
  have h3: "unat (0 :: 64 word) + unat (10 :: 64 word) \<le> 2 ^ 64" by simp
  have h4: "length [1, 1, 1, 1, 1, 1, 1, 1, 1, 1 :: 8 word] = unat (10 :: 64 word)" by simp
  show ?thesis
    using position_delete_clears_exactly_window [OF h1 h2 h3 h4] h1 h2 h3 h4 by blast
qed

text \<open>
  Scenario D of the specification: deletes 5 and 9 on a batch of ten rows starting at
  row 0 clear positions 5 and 9 only.
\<close>

lemma scenario_D_position_delete:
  "execute_filter_position_delete_rowids (Some [5, 9]) 0 10 [1, 1, 1, 1, 1, 1, 1, 1, 1, 1]
   = Some [1, 1, 1, 1, 1, 0, 1, 1, 1, 0]"
  by (simp add: execute_filter_position_delete_rowids_def lower_bound.simps
        upper_bound.simps Let_def)

subsection \<open>Idempotence of the delete filters\<close>

lemma clear_filter_zeroes:
  "clear_filter start ys f = Some f' \<Longrightarrow>
   length f' = length f \<and>
   (\<forall>i<length f. f ! i = 0 \<longrightarrow> f' ! i = 0) \<and>
   (\<forall>x\<in>set ys. unat (x - start) < length f \<and> f' ! unat (x - start) = 0)"
proof (induction ys arbitrary: f)
  case Nil
  then show ?case by simp
next
  case (Cons y ys)
  let ?idx = "unat (y - start)"
  from Cons.prems have inr: "?idx < length f"
    by (simp add: Let_def split: if_splits)
  from Cons.prems inr have rest: "clear_filter start ys (f[?idx := 0]) = Some f'"
    by (simp add: Let_def)
  note IH = Cons.IH[OF rest]
  have len: "length f' = length f" using IH by simp
  have keep: "\<forall>i<length f. f ! i = 0 \<longrightarrow> f' ! i = 0"
  proof (intro allI impI)
    fix i assume i: "i < length f" "f ! i = 0"
    then have "f[?idx := 0] ! i = 0" using inr by (simp add: nth_list_update)
    then show "f' ! i = 0" using IH i(1) by simp
  qed
  have "f' ! ?idx = 0" using IH inr by (auto simp: nth_list_update)
  then show ?case using len keep inr IH by auto
qed

lemma clear_filter_fixed:
  "\<forall>x\<in>set ys. unat (x - start) < length g \<and> g ! unat (x - start) = 0 \<Longrightarrow>
   clear_filter start ys g = Some g"
proof (induction ys)
  case Nil
  then show ?case by simp
next
  case (Cons y ys)
  have "g[unat (y - start) := 0] = g"
    using Cons.prems by (simp add: list_update_same_conv)
  then show ?case using Cons by (simp add: Let_def)
qed

lemma clear_filter_idem:
  assumes "clear_filter start ys f = Some f'"
  shows "clear_filter start ys f' = Some f'"
proof -
  from clear_filter_zeroes[OF assms]
  have "\<forall>x\<in>set ys. unat (x - start) < length f' \<and> f' ! unat (x - start) = 0" by simp
  then show ?thesis by (rule clear_filter_fixed)
qed

text \<open>
  C8. Applying the same delete set a second time changes nothing: when the ordered
  position-delete filter turned \<open>f\<close> into \<open>f'\<close>, running it again on \<open>f'\<close> over the same
  window returns \<open>f'\<close>; and when the ACID filter has been built for a batch, building it
  again for the same batch leaves the reader with the identical filter.
\<close>

theorem delete_filter_idempotent:
  "(execute_filter_position_delete_rowids rowids start nums f = Some f' \<longrightarrow>
      execute_filter_position_delete_rowids rowids start nums f' = Some f') \<and>
   (build_delete_row_filter s blk rows = Some s' \<longrightarrow>
      build_delete_row_filter s' blk rows = Some s')"
proof
  show "execute_filter_position_delete_rowids rowids start nums f = Some f' \<longrightarrow>
        execute_filter_position_delete_rowids rowids start nums f' = Some f'"
    by (cases rowids)
       (auto simp: execute_filter_position_delete_rowids_def Let_def intro: clear_filter_idem)
next
  show "build_delete_row_filter s blk rows = Some s' \<longrightarrow>
        build_delete_row_filter s' blk rows = Some s'"
    by (cases "delete_rows s")
       (auto simp: build_delete_row_filter_def split: if_splits)
qed

theorem delete_filter_idempotent_witness:
  "execute_filter_position_delete_rowids (Some [5, 9]) 0 10 [1, 1, 1, 1, 1, 1, 1, 1, 1, 1]
     = Some [1, 1, 1, 1, 1, 0, 1, 1, 1, 0] \<and>
   execute_filter_position_delete_rowids (Some [5, 9]) 0 10 [1, 1, 1, 1, 1, 0, 1, 1, 1, 0]
     = Some [1, 1, 1, 1, 1, 0, 1, 1, 1, 0] \<and>
   build_delete_row_filter
     \<lparr>delete_rows = Some {(7, 1, 3)}, delete_rows_filter_ptr = None,
      position_delete_ordered_rowids = None\<rparr>
     \<lparr>original_transaction_column = [7, 7], bucket_id_column = [1, 1],
      row_id_column = [2, 3]\<rparr> 2
     = Some \<lparr>delete_rows = Some {(7, 1, 3)}, delete_rows_filter_ptr = Some [1, 0],
             position_delete_ordered_rowids = None\<rparr> \<and>
   build_delete_row_filter
     \<lparr>delete_rows = Some {(7, 1, 3)}, delete_rows_filter_ptr = Some [1, 0],
      position_delete_ordered_rowids = None\<rparr>
     \<lparr>original_transaction_column = [7, 7], bucket_id_column = [1, 1],
      row_id_column = [2, 3]\<rparr> 2
     = Some \<lparr>delete_rows = Some {(7, 1, 3)}, delete_rows_filter_ptr = Some [1, 0],
             position_delete_ordered_rowids = None\<rparr>"
proof -
  have p: "execute_filter_position_delete_rowids (Some [5, 9]) 0 10
             [1, 1, 1, 1, 1, 1, 1, 1, 1, 1] = Some [1, 1, 1, 1, 1, 0, 1, 1, 1, 0]"
    by (simp add: execute_filter_position_delete_rowids_def lower_bound.simps
          upper_bound.simps Let_def)
  have b: "build_delete_row_filter
     \<lparr>delete_rows = Some {(7, 1, 3)}, delete_rows_filter_ptr = None,
      position_delete_ordered_rowids = None\<rparr>
     \<lparr>original_transaction_column = [7, 7], bucket_id_column = [1, 1],
      row_id_column = [2, 3]\<rparr> 2
     = Some \<lparr>delete_rows = Some {(7, 1, 3)}, delete_rows_filter_ptr = Some [1, 0],
             position_delete_ordered_rowids = None\<rparr>"
    by (simp add: build_delete_row_filter_def upt_rec numeral_2_eq_2)
  from delete_filter_idempotent
    [of "Some [5, 9]" 0 10 "[1, 1, 1, 1, 1, 1, 1, 1, 1, 1]" "[1, 1, 1, 1, 1, 0, 1, 1, 1, 0]"
        "\<lparr>delete_rows = Some {(7, 1, 3)}, delete_rows_filter_ptr = None,
          position_delete_ordered_rowids = None\<rparr>"
        "\<lparr>original_transaction_column = [7, 7], bucket_id_column = [1, 1],
          row_id_column = [2, 3]\<rparr>" 2
        "\<lparr>delete_rows = Some {(7, 1, 3)}, delete_rows_filter_ptr = Some [1, 0],
          position_delete_ordered_rowids = None\<rparr>"]
  show ?thesis using p b by blast
qed

subsection \<open>Decimal rescaling\<close>

lemma cast_set_pow10:
  assumes "n \<le> 18"
  shows "cast_set_int64 (get_scale_factor n) = Some (10 ^ n)"
proof -
  have "(10::int) ^ n \<le> 10 ^ 18" using assms by (intro power_increasing) auto
  then have "(10::int) ^ n < 2 ^ 63" by simp
  moreover have "- (2 ^ 63) \<le> (10::int) ^ n"
    by (rule order_trans[of _ 0]) auto
  ultimately show ?thesis by (simp add: cast_set_int64_def get_scale_factor_def)
qed

lemma init_decimal_converter_fresh:
  assumes "\<bar>S' - S\<bar> \<le> 18"
  shows "init_decimal_converter S' temp_scale_params S =
           Some (if S' > S then \<lparr>scale_type = SCALE_UP, scale_factor = 10 ^ nat (S' - S)\<rparr>
                 else if S' < S then \<lparr>scale_type = SCALE_DOWN, scale_factor = 10 ^ nat (S - S')\<rparr>
                 else \<lparr>scale_type = NO_SCALE, scale_factor = 1\<rparr>)"
proof -
  have up: "S' > S \<Longrightarrow> nat (S' - S) \<le> 18" using assms by simp
  have down: "S' < S \<Longrightarrow> nat (S - S') \<le> 18" using assms by simp
  show ?thesis
    using up down
    by (auto simp: init_decimal_converter_def temp_scale_params_def cast_set_pow10)
qed

lemma fits_signed_take_bit:
  "0 < w \<Longrightarrow> fits_bits w x \<Longrightarrow> signed_take_bit (w - 1) x = x"
  by (simp add: fits_bits_def signed_take_bit_int_eq_self_iff)

lemma rescale_values_in_range:
  assumes "0 < w"
    and "\<forall>v\<in>set vs. fits_bits 128 (truncating_rescale S S' v) \<and>
                       fits_bits w (truncating_rescale S S' v)"
  shows "S < S' \<Longrightarrow> map (scale_up_value (10 ^ nat (S' - S)) w) vs = map (truncating_rescale S S') vs"
    and "S' < S \<Longrightarrow> map (scale_down_value (10 ^ nat (S - S')) w) vs = map (truncating_rescale S S') vs"
    and "S' = S \<Longrightarrow> map (no_scale_value w) vs = map (truncating_rescale S S') vs"
proof -
  show "map (scale_up_value (10 ^ nat (S' - S)) w) vs = map (truncating_rescale S S') vs" if "S < S'"
  proof (rule map_cong[OF refl])
    fix v assume "v \<in> set vs"
    then have a: "fits_bits 128 (v * 10 ^ nat (S' - S))" "fits_bits w (v * 10 ^ nat (S' - S))"
      using assms(2) that by (auto simp: truncating_rescale_def)
    have "signed_take_bit 127 (v * 10 ^ nat (S' - S)) = v * 10 ^ nat (S' - S)"
      using fits_signed_take_bit[of 128, OF _ a(1)] by simp
    then show "scale_up_value (10 ^ nat (S' - S)) w v = truncating_rescale S S' v"
      using fits_signed_take_bit[OF assms(1) a(2)] that
      by (simp add: scale_up_value_def truncating_rescale_def)
  qed
  show "map (scale_down_value (10 ^ nat (S - S')) w) vs = map (truncating_rescale S S') vs" if "S' < S"
  proof (rule map_cong[OF refl])
    fix v assume "v \<in> set vs"
    then have a: "fits_bits w (v sdiv 10 ^ nat (S - S'))"
      using assms(2) that by (auto simp: truncating_rescale_def)
    show "scale_down_value (10 ^ nat (S - S')) w v = truncating_rescale S S' v"
      using fits_signed_take_bit[OF assms(1) a] that
      by (simp add: scale_down_value_def truncating_rescale_def)
  qed
  show "map (no_scale_value w) vs = map (truncating_rescale S S') vs" if "S' = S"
  proof (rule map_cong[OF refl])
    fix v assume "v \<in> set vs"
    then have a: "fits_bits w v"
      using assms(2) that by (auto simp: truncating_rescale_def)
    show "no_scale_value w v = truncating_rescale S S' v"
      using fits_signed_take_bit[OF assms(1) a] that
      by (simp add: no_scale_value_def truncating_rescale_def)
  qed
qed

text \<open>
  C3, as the code has it. When a decimal column is decoded for the first time (its scale
  parameters are not yet in the reader), the scales differ by at most 18 digits and no
  result leaves the range of \<^verbatim>\<open>int128_t\<close> or of the requested \<open>w\<close>-bit type, the factor
  \<open>10^|S' - S|\<close> is computed once and stored, and every value is mapped by one
  multiplication (\<open>S' > S\<close>, exact) or one division truncating toward zero (\<open>S' < S\<close>).
  Every later decode that finds these parameters stored applies them again, whatever
  scale the later batch carries: its values are rescaled from \<open>S\<close> to \<open>S'\<close> in the same
  way. In any decode with stored parameters the operation is selected by the stored
  scale type alone and is the same for all values of the batch.
\<close>

theorem decimal_rescale_truncates:
  assumes "decimal_scale_params_index st = length (decimal_scale_params st)"
    and "\<bar>S' - batch_scale data\<bar> \<le> 18"
    and "num_values \<le> length (batch_values data)"
    and "0 < w"
    and "\<forall>v\<in>set (take num_values (batch_values data)).
           fits_bits 128 (truncating_rescale (batch_scale data) S' v) \<and>
           fits_bits w (truncating_rescale (batch_scale data) S' v)"
    and "p = \<lparr>scale_type = (if batch_scale data < S' then SCALE_UP
                            else if S' < batch_scale data then SCALE_DOWN else NO_SCALE),
              scale_factor = 10 ^ nat \<bar>S' - batch_scale data\<bar>\<rparr>"
  shows "decode_explicit_decimal_column col_name st w S' (Inr data) column_data num_values =
           (OK,
            st\<lparr>decimal_scale_params := decimal_scale_params st @ [p],
               decimal_scale_params_index := decimal_scale_params_index st + 1\<rparr>,
            column_data @
              map (truncating_rescale (batch_scale data) S') (take num_values (batch_values data)))
         \<and>
         (\<forall>st' data' col' n'.
            decimal_scale_params_index st' < length (decimal_scale_params st') \<and>
            decimal_scale_params st' ! decimal_scale_params_index st' = p \<and>
            n' \<le> length (batch_values data') \<and>
            (\<forall>v\<in>set (take n' (batch_values data')).
               fits_bits 128 (truncating_rescale (batch_scale data) S' v) \<and>
               fits_bits w (truncating_rescale (batch_scale data) S' v)) \<longrightarrow>
            decode_explicit_decimal_column col_name st' w S' (Inr data') col' n' =
              (OK,
               st'\<lparr>decimal_scale_params_index := decimal_scale_params_index st' + 1\<rparr>,
               col' @
                 map (truncating_rescale (batch_scale data) S') (take n' (batch_values data'))))
         \<and>
         (\<forall>st' data' col' n'.
            decimal_scale_params_index st' < length (decimal_scale_params st') \<and>
            n' \<le> length (batch_values data') \<longrightarrow>
            decode_explicit_decimal_column col_name st' w S' (Inr data') col' n' =
              (OK,
               st'\<lparr>decimal_scale_params_index := decimal_scale_params_index st' + 1\<rparr>,
               col' @
                 map (if scale_type (decimal_scale_params st' ! decimal_scale_params_index st')
                         = SCALE_UP
                      then scale_up_value
                             (scale_factor
                                (decimal_scale_params st' ! decimal_scale_params_index st')) w
                      else if scale_type
                                (decimal_scale_params st' ! decimal_scale_params_index st')
                              = SCALE_DOWN
                      then scale_down_value
                             (scale_factor
                                (decimal_scale_params st' ! decimal_scale_params_index st')) w
                      else no_scale_value w)
                   (take n' (batch_values data'))))"
proof (intro conjI allI impI)
  let ?S = "batch_scale data"
  let ?vs = "take num_values (batch_values data)"
  have p: "p = (if S' > ?S then \<lparr>scale_type = SCALE_UP, scale_factor = 10 ^ nat (S' - ?S)\<rparr>
          else if S' < ?S then \<lparr>scale_type = SCALE_DOWN, scale_factor = 10 ^ nat (?S - S')\<rparr>
          else \<lparr>scale_type = NO_SCALE, scale_factor = 1\<rparr>)"
    unfolding assms(6) by (simp add: abs_if)
  have init: "init_decimal_converter S' temp_scale_params ?S = Some p"
    unfolding p by (rule init_decimal_converter_fresh[OF assms(2)])
  note vals = rescale_values_in_range[OF assms(4) assms(5)]
  consider (up) "?S < S'" | (down) "S' < ?S" | (same) "S' = ?S" by linarith
  then show "decode_explicit_decimal_column col_name st w S' (Inr data) column_data num_values =
       (OK,
        st\<lparr>decimal_scale_params := decimal_scale_params st @ [p],
           decimal_scale_params_index := decimal_scale_params_index st + 1\<rparr>,
        column_data @ map (truncating_rescale ?S S') ?vs)"
  proof cases
    case up
    then show ?thesis using init assms(1,3) vals(1)[OF up]
      by (simp add: decode_explicit_decimal_column_def Let_def p)
  next
    case down
    then show ?thesis using init assms(1,3) vals(2)[OF down]
      by (simp add: decode_explicit_decimal_column_def Let_def p)
  next
    case same
    then show ?thesis using init assms(1,3) vals(3)[OF same]
      by (simp add: decode_explicit_decimal_column_def Let_def p)
  qed
  fix st' :: orc_decimal_state and data' and col' :: "int list" and n' :: nat
  assume a: "decimal_scale_params_index st' < length (decimal_scale_params st') \<and>
           decimal_scale_params st' ! decimal_scale_params_index st' = p \<and>
           n' \<le> length (batch_values data') \<and>
           (\<forall>v\<in>set (take n' (batch_values data')).
              fits_bits 128 (truncating_rescale ?S S' v) \<and>
              fits_bits w (truncating_rescale ?S S' v))"
  then have fits: "\<forall>v\<in>set (take n' (batch_values data')).
              fits_bits 128 (truncating_rescale ?S S' v) \<and>
              fits_bits w (truncating_rescale ?S S' v)" by blast
  note vals' = rescale_values_in_range[OF assms(4) fits]
  consider (up) "?S < S'" | (down) "S' < ?S" | (same) "S' = ?S" by linarith
  then show "decode_explicit_decimal_column col_name st' w S' (Inr data') col' n' =
       (OK,
        st'\<lparr>decimal_scale_params_index := decimal_scale_params_index st' + 1\<rparr>,
        col' @ map (truncating_rescale ?S S') (take n' (batch_values data')))"
  proof cases
    case up
    then show ?thesis using a vals'(1)[OF up]
      by (simp add: decode_explicit_decimal_column_def Let_def p)
  next
    case down
    then show ?thesis using a vals'(2)[OF down]
      by (simp add: decode_explicit_decimal_column_def Let_def p)
  next
    case same
    then show ?thesis using a vals'(3)[OF same]
      by (simp add: decode_explicit_decimal_column_def Let_def p)
  qed
next
  fix st' :: orc_decimal_state and data' and col' :: "int list" and n' :: nat
  assume "decimal_scale_params_index st' < length (decimal_scale_params st') \<and>
            n' \<le> length (batch_values data')"
  then show "decode_explicit_decimal_column col_name st' w S' (Inr data') col' n' =
              (OK,
               st'\<lparr>decimal_scale_params_index := decimal_scale_params_index st' + 1\<rparr>,
               col' @
                 map (if scale_type (decimal_scale_params st' ! decimal_scale_params_index st')
                         = SCALE_UP
                      then scale_up_value
                             (scale_factor
                                (decimal_scale_params st' ! decimal_scale_params_index st')) w
                      else if scale_type
                                (decimal_scale_params st' ! decimal_scale_params_index st')
                              = SCALE_DOWN
                      then scale_down_value
                             (scale_factor
                                (decimal_scale_params st' ! decimal_scale_params_index st')) w
                      else no_scale_value w)
                   (take n' (batch_values data')))"
    by (simp add: decode_explicit_decimal_column_def Let_def)
qed

text \<open>
  The witness: 1.27 and -1.27 written with scale 2 and read with scale 1 decode to 1.2
  and -1.2, and the factor 10 is stored; the next batch (the index is back at 0, the
  parameters are stored) has its values divided by the stored factor 10 as well, also
  when it carries another scale.
\<close>

theorem decimal_rescale_truncates_witness:
  "decimal_scale_params_index \<lparr>decimal_scale_params = [], decimal_scale_params_index = 0\<rparr>
     = length (decimal_scale_params \<lparr>decimal_scale_params = [], decimal_scale_params_index = 0\<rparr>) \<and>
   \<bar>1 - batch_scale (Decimal64VectorBatch 2 [127, - 127])\<bar> \<le> 18 \<and>
   (2::nat) \<le> length (batch_values (Decimal64VectorBatch 2 [127, - 127])) \<and>
   (0::nat) < 64 \<and>
   decode_explicit_decimal_column ''d'' \<lparr>decimal_scale_params = [], decimal_scale_params_index = 0\<rparr>
       64 1 (Inr (Decimal64VectorBatch 2 [127, - 127])) [] 2
     = (OK,
        \<lparr>decimal_scale_params = [\<lparr>scale_type = SCALE_DOWN, scale_factor = 10\<rparr>],
         decimal_scale_params_index = 1\<rparr>,
        [12, - 12]) \<and>
   decode_explicit_decimal_column ''d''
       \<lparr>decimal_scale_params = [\<lparr>scale_type = SCALE_DOWN, scale_factor = 10\<rparr>],
        decimal_scale_params_index = 0\<rparr>
       64 1 (Inr (Decimal64VectorBatch 2 [399, - 5])) [12, - 12] 2
     = (OK,
        \<lparr>decimal_scale_params = [\<lparr>scale_type = SCALE_DOWN, scale_factor = 10\<rparr>],
         decimal_scale_params_index = 1\<rparr>,
        [12, - 12, 39, 0]) \<and>
   decode_explicit_decimal_column ''d''
       \<lparr>decimal_scale_params = [\<lparr>scale_type = SCALE_DOWN, scale_factor = 10\<rparr>],
        decimal_scale_params_index = 0\<rparr>
       64 1 (Inr (Decimal64VectorBatch 5 [70])) [] 1
     = (OK,
        \<lparr>decimal_scale_params = [\<lparr>scale_type = SCALE_DOWN, scale_factor = 10\<rparr>],
         decimal_scale_params_index = 1\<rparr>,
        [7])"
proof -
  let ?st = "\<lparr>decimal_scale_params = [], decimal_scale_params_index = 0\<rparr>"
  let ?p = "\<lparr>scale_type = SCALE_DOWN, scale_factor = 10\<rparr>"
  let ?st' = "\<lparr>decimal_scale_params = [?p], decimal_scale_params_index = 0\<rparr>"
  let ?data = "Decimal64VectorBatch 2 [127, - 127]"
  let ?data' = "Decimal64VectorBatch 2 [399, - 5]"
  let ?data'' = "Decimal64VectorBatch 5 [70]"
  have h1: "decimal_scale_params_index ?st = length (decimal_scale_params ?st)" by simp
  have h2: "\<bar>1 - batch_scale ?data\<bar> \<le> 18" by simp
  have h3: "(2::nat) \<le> length (batch_values ?data)" by simp
  have h4: "(0::nat) < 64" by simp
  have h5: "\<forall>v\<in>set (take 2 (batch_values ?data)).
              fits_bits 128 (truncating_rescale (batch_scale ?data) 1 v) \<and>
              fits_bits 64 (truncating_rescale (batch_scale ?data) 1 v)"
    by (simp add: fits_bits_def truncating_rescale_def signed_divide_int_def)
  have h6: "?p = \<lparr>scale_type = (if batch_scale ?data < 1 then SCALE_UP
                                else if 1 < batch_scale ?data then SCALE_DOWN else NO_SCALE),
                  scale_factor = 10 ^ nat \<bar>1 - batch_scale ?data\<bar>\<rparr>"
    by simp
  have vs: "map (truncating_rescale 2 1) (take 2 (batch_values ?data)) = [12, - 12]"
    "map (truncating_rescale 2 1) (take 2 (batch_values ?data')) = [39, 0]"
    "map (truncating_rescale 2 1) (take 1 (batch_values ?data'')) = [7]"
    by (simp_all add: truncating_rescale_def signed_divide_int_def)
  have later: "decimal_scale_params_index ?st' < length (decimal_scale_params ?st') \<and>
               decimal_scale_params ?st' ! decimal_scale_params_index ?st' = ?p \<and>
               (2::nat) \<le> length (batch_values ?data') \<and>
               (\<forall>v\<in>set (take 2 (batch_values ?data')).
                  fits_bits 128 (truncating_rescale (batch_scale ?data) 1 v) \<and>
                  fits_bits 64 (truncating_rescale (batch_scale ?data) 1 v))"
    "decimal_scale_params_index ?st' < length (decimal_scale_params ?st') \<and>
               decimal_scale_params ?st' ! decimal_scale_params_index ?st' = ?p \<and>
               (1::nat) \<le> length (batch_values ?data'') \<and>
               (\<forall>v\<in>set (take 1 (batch_values ?data'')).
                  fits_bits 128 (truncating_rescale (batch_scale ?data) 1 v) \<and>
                  fits_bits 64 (truncating_rescale (batch_scale ?data) 1 v))"
    by (simp_all add: fits_bits_def truncating_rescale_def signed_divide_int_def)
  note t = decimal_rescale_truncates [OF h1 h2 h3 h4 h5 h6,
             where column_data = "[]" and col_name = "''d''"]
  have first: "decode_explicit_decimal_column ''d'' ?st 64 1 (Inr ?data) [] 2 =
      (OK, \<lparr>decimal_scale_params = [?p], decimal_scale_params_index = 1\<rparr>, [12, - 12])"
    using t[THEN conjunct1] vs(1) by simp
  have second: "decode_explicit_decimal_column ''d'' ?st' 64 1 (Inr ?data') [12, - 12] 2 =
      (OK, \<lparr>decimal_scale_params = [?p], decimal_scale_params_index = 1\<rparr>, [12, - 12, 39, 0])"
    using t[THEN conjunct2, THEN conjunct1, rule_format, OF later(1), of "[12, - 12]"] vs(2)
    by simp
  have third: "decode_explicit_decimal_column ''d'' ?st' 64 1 (Inr ?data'') [] 1 =
      (OK, \<lparr>decimal_scale_params = [?p], decimal_scale_params_index = 1\<rparr>, [7])"
    using t[THEN conjunct2, THEN conjunct1, rule_format, OF later(2), of "[]"] vs(3)
    by simp
  show ?thesis using first second third h1 h2 h3 by simp
qed

text \<open>
  The claim as stated fails when digits are dropped: 1.27 stored with scale 2 and read
  with scale 1 decodes to 1.2 (unscaled 12), while every rounding to the nearest value
  gives 1.3 (unscaled 13).
\<close>

theorem decimal_round_counterexample:
  "snd (snd (decode_explicit_decimal_column ''d''
       \<lparr>decimal_scale_params = [], decimal_scale_params_index = 0\<rparr>
       64 1 (Inr (Decimal64VectorBatch 2 [127])) [] 1)) = [12] \<and>
   map (spec_round_to_scale 2 1) (batch_values (Decimal64VectorBatch 2 [127])) = [13] \<and>
   snd (snd (decode_explicit_decimal_column ''d''
       \<lparr>decimal_scale_params = [], decimal_scale_params_index = 0\<rparr>
       64 1 (Inr (Decimal64VectorBatch 2 [127])) [] 1))
     \<noteq> map (spec_round_to_scale 2 1) (batch_values (Decimal64VectorBatch 2 [127]))"
  by (simp add: decode_explicit_decimal_column_def init_decimal_converter_def
        temp_scale_params_def cast_set_int64_def get_scale_factor_def scale_down_value_def
        Let_def signed_divide_int_def spec_round_to_scale_def)

subsection \<open>Lazy-read planning\<close>

lemma emplace_keys: "fst ` set (emplace m k v) = insert k (fst ` set m)"
proof (cases "map_of m k")
  case None
  then show ?thesis by (simp add: emplace_def)
next
  case (Some a)
  then have "k \<in> fst ` set m" by (metis map_of_eq_None_iff option.distinct(1))
  then show ?thesis using Some by (auto simp: emplace_def)
qed

lemma fold_emplace_keys:
  "fst ` set (fold (\<lambda>kv m. emplace m (fst kv) (snd kv)) xs m) = fst ` set m \<union> fst ` set xs"
  by (induction xs arbitrary: m) (auto simp: emplace_keys)

lemma pq_read_column_can_lazy_read [simp]:
  "can_lazy_read (pq_read_column ic pc c ctx) = can_lazy_read ctx"
  by (simp add: pq_read_column_def Let_def split: option.splits)

lemma pq_read_column_conjuncts [simp]:
  "conjuncts (pq_read_column ic pc c ctx) = conjuncts ctx"
  by (simp add: pq_read_column_def Let_def split: option.splits)

lemma pq_read_column_partition_columns [simp]:
  "partition_columns (pq_read_column ic pc c ctx) = partition_columns ctx"
  by (simp add: pq_read_column_def Let_def split: option.splits)

lemma pq_read_column_predicate_partition_columns [simp]:
  "predicate_partition_columns (pq_read_column ic pc c ctx) = predicate_partition_columns ctx"
  by (simp add: pq_read_column_def Let_def split: option.splits)

lemma pq_read_column_missing_columns [simp]:
  "missing_columns (pq_read_column ic pc c ctx) = missing_columns ctx"
  by (simp add: pq_read_column_def Let_def split: option.splits)

lemma pq_read_column_predicate_missing_columns [simp]:
  "predicate_missing_columns (pq_read_column ic pc c ctx) = predicate_missing_columns ctx"
  by (simp add: pq_read_column_def Let_def split: option.splits)

lemma pq_read_column_fold_can_lazy_read [simp]:
  "can_lazy_read (fold (pq_read_column ic pc) xs ctx) = can_lazy_read ctx"
  by (induction xs arbitrary: ctx) simp_all

lemma pq_read_column_fold_conjuncts [simp]:
  "conjuncts (fold (pq_read_column ic pc) xs ctx) = conjuncts ctx"
  by (induction xs arbitrary: ctx) simp_all

lemma pq_read_column_fold_partition_columns [simp]:
  "partition_columns (fold (pq_read_column ic pc) xs ctx) = partition_columns ctx"
  by (induction xs arbitrary: ctx) simp_all

lemma pq_read_column_fold_predicate_partition_columns [simp]:
  "predicate_partition_columns (fold (pq_read_column ic pc) xs ctx) = predicate_partition_columns ctx"
  by (induction xs arbitrary: ctx) simp_all

lemma pq_read_column_fold_missing_columns [simp]:
  "missing_columns (fold (pq_read_column ic pc) xs ctx) = missing_columns ctx"
  by (induction xs arbitrary: ctx) simp_all

lemma pq_read_column_fold_predicate_missing_columns [simp]:
  "predicate_missing_columns (fold (pq_read_column ic pc) xs ctx) = predicate_missing_columns ctx"
  by (induction xs arbitrary: ctx) simp_all

lemma pq_read_column_fold_predicate:
  "fst (predicate_columns (fold (pq_read_column ic pc) cols ctx)) =
     fst (predicate_columns ctx) @ (if pc = [] then [] else filter (\<lambda>c. map_of pc c \<noteq> None) cols)"
  by (induction cols arbitrary: ctx)
     (auto simp: pq_read_column_def Let_def split: option.splits)

lemma pq_read_column_fold_lazy:
  "lazy_read_columns (fold (pq_read_column ic pc) cols ctx) =
     lazy_read_columns ctx @ (if pc = [] then [] else filter (\<lambda>c. map_of pc c = None) cols)"
  by (induction cols arbitrary: ctx)
     (auto simp: pq_read_column_def Let_def split: option.splits)

lemma pq_read_column_fold_all_read:
  "all_read_columns (fold (pq_read_column ic pc) cols ctx) = all_read_columns ctx @ cols"
  by (induction cols arbitrary: ctx)
     (auto simp: pq_read_column_def Let_def split: option.splits)

lemma pq_partition_column_predicate_columns [simp]:
  "predicate_columns (pq_partition_column pc kv ctx) = predicate_columns ctx"
  by (simp add: pq_partition_column_def split: option.splits)

lemma pq_partition_column_lazy_read_columns [simp]:
  "lazy_read_columns (pq_partition_column pc kv ctx) = lazy_read_columns ctx"
  by (simp add: pq_partition_column_def split: option.splits)

lemma pq_partition_column_all_read_columns [simp]:
  "all_read_columns (pq_partition_column pc kv ctx) = all_read_columns ctx"
  by (simp add: pq_partition_column_def split: option.splits)

lemma pq_partition_column_can_lazy_read [simp]:
  "can_lazy_read (pq_partition_column pc kv ctx) = can_lazy_read ctx"
  by (simp add: pq_partition_column_def split: option.splits)

lemma pq_partition_column_conjuncts [simp]:
  "conjuncts (pq_partition_column pc kv ctx) = conjuncts ctx"
  by (simp add: pq_partition_column_def split: option.splits)

lemma pq_partition_column_missing_columns [simp]:
  "missing_columns (pq_partition_column pc kv ctx) = missing_columns ctx"
  by (simp add: pq_partition_column_def split: option.splits)

lemma pq_partition_column_predicate_missing_columns [simp]:
  "predicate_missing_columns (pq_partition_column pc kv ctx) = predicate_missing_columns ctx"
  by (simp add: pq_partition_column_def split: option.splits)

lemma pq_partition_column_fold_predicate_columns [simp]:
  "predicate_columns (fold (pq_partition_column pc) xs ctx) = predicate_columns ctx"
  by (induction xs arbitrary: ctx) simp_all

lemma pq_partition_column_fold_lazy_read_columns [simp]:
  "lazy_read_columns (fold (pq_partition_column pc) xs ctx) = lazy_read_columns ctx"
  by (induction xs arbitrary: ctx) simp_all

lemma pq_partition_column_fold_all_read_columns [simp]:
  "all_read_columns (fold (pq_partition_column pc) xs ctx) = all_read_columns ctx"
  by (induction xs arbitrary: ctx) simp_all

lemma pq_partition_column_fold_can_lazy_read [simp]:
  "can_lazy_read (fold (pq_partition_column pc) xs ctx) = can_lazy_read ctx"
  by (induction xs arbitrary: ctx) simp_all

lemma pq_partition_column_fold_conjuncts [simp]:
  "conjuncts (fold (pq_partition_column pc) xs ctx) = conjuncts ctx"
  by (induction xs arbitrary: ctx) simp_all

lemma pq_partition_column_fold_missing_columns [simp]:
  "missing_columns (fold (pq_partition_column pc) xs ctx) = missing_columns ctx"
  by (induction xs arbitrary: ctx) simp_all

lemma pq_partition_column_fold_predicate_missing_columns [simp]:
  "predicate_missing_columns (fold (pq_partition_column pc) xs ctx) = predicate_missing_columns ctx"
  by (induction xs arbitrary: ctx) simp_all

lemma pq_partition_column_fold_keys:
  "fst ` set (partition_columns (fold (pq_partition_column pc) ps ctx)) =
     fst ` set (partition_columns ctx) \<union> {k \<in> fst ` set ps. map_of pc k = None}"
  by (induction ps arbitrary: ctx)
     (auto simp: pq_partition_column_def emplace_keys split: option.splits)

lemma pq_partition_column_fold_predicate_keys:
  "fst ` set (predicate_partition_columns (fold (pq_partition_column pc) ps ctx)) =
     fst ` set (predicate_partition_columns ctx) \<union> {k \<in> fst ` set ps. map_of pc k \<noteq> None}"
  by (induction ps arbitrary: ctx)
     (auto simp: pq_partition_column_def emplace_keys split: option.splits)

lemma pq_missing_column_predicate_columns [simp]:
  "predicate_columns (pq_missing_column pc sc kv ctx) = predicate_columns ctx"
  by (simp add: pq_missing_column_def Let_def split: option.splits)

lemma pq_missing_column_lazy_read_columns [simp]:
  "lazy_read_columns (pq_missing_column pc sc kv ctx) = lazy_read_columns ctx"
  by (simp add: pq_missing_column_def Let_def split: option.splits)

lemma pq_missing_column_all_read_columns [simp]:
  "all_read_columns (pq_missing_column pc sc kv ctx) = all_read_columns ctx"
  by (simp add: pq_missing_column_def Let_def split: option.splits)

lemma pq_missing_column_can_lazy_read [simp]:
  "can_lazy_read (pq_missing_column pc sc kv ctx) = can_lazy_read ctx"
  by (simp add: pq_missing_column_def Let_def split: option.splits)

lemma pq_missing_column_conjuncts [simp]:
  "conjuncts (pq_missing_column pc sc kv ctx) = conjuncts ctx"
  by (simp add: pq_missing_column_def Let_def split: option.splits)

lemma pq_missing_column_partition_columns [simp]:
  "partition_columns (pq_missing_column pc sc kv ctx) = partition_columns ctx"
  by (simp add: pq_missing_column_def Let_def split: option.splits)

lemma pq_missing_column_predicate_partition_columns [simp]:
  "predicate_partition_columns (pq_missing_column pc sc kv ctx) = predicate_partition_columns ctx"
  by (simp add: pq_missing_column_def Let_def split: option.splits)

lemma pq_missing_column_fold_predicate_columns [simp]:
  "predicate_columns (fold (pq_missing_column pc sc) xs ctx) = predicate_columns ctx"
  by (induction xs arbitrary: ctx) simp_all

lemma pq_missing_column_fold_lazy_read_columns [simp]:
  "lazy_read_columns (fold (pq_missing_column pc sc) xs ctx) = lazy_read_columns ctx"
  by (induction xs arbitrary: ctx) simp_all

lemma pq_missing_column_fold_all_read_columns [simp]:
  "all_read_columns (fold (pq_missing_column pc sc) xs ctx) = all_read_columns ctx"
  by (induction xs arbitrary: ctx) simp_all

lemma pq_missing_column_fold_can_lazy_read [simp]:
  "can_lazy_read (fold (pq_missing_column pc sc) xs ctx) = can_lazy_read ctx"
  by (induction xs arbitrary: ctx) simp_all

lemma pq_missing_column_fold_conjuncts [simp]:
  "conjuncts (fold (pq_missing_column pc sc) xs ctx) = conjuncts ctx"
  by (induction xs arbitrary: ctx) simp_all

lemma pq_missing_column_fold_partition_columns [simp]:
  "partition_columns (fold (pq_missing_column pc sc) xs ctx) = partition_columns ctx"
  by (induction xs arbitrary: ctx) simp_all

lemma pq_missing_column_fold_predicate_partition_columns [simp]:
  "predicate_partition_columns (fold (pq_missing_column pc sc) xs ctx) = predicate_partition_columns ctx"
  by (induction xs arbitrary: ctx) simp_all

lemma pq_missing_column_fold_keys:
  "fst ` set (missing_columns (fold (pq_missing_column pc sc) ms ctx)) =
     fst ` set (missing_columns ctx) \<union> {k \<in> fst ` set ms. map_of pc k = None}"
  by (induction ms arbitrary: ctx)
     (auto simp: pq_missing_column_def emplace_keys Let_def split: option.splits)

lemma pq_missing_column_fold_predicate_keys:
  "fst ` set (predicate_missing_columns (fold (pq_missing_column pc sc) ms ctx)) =
     fst ` set (predicate_missing_columns ctx) \<union> {k \<in> fst ` set ms. map_of pc k \<noteq> None}"
  by (induction ms arbitrary: ctx)
     (auto simp: pq_missing_column_def emplace_keys Let_def split: option.splits)

lemma copy_back_predicate_columns [simp]:
  "predicate_columns (copy_back_predicate_columns ctx) = predicate_columns ctx"
  by (simp add: copy_back_predicate_columns_def Let_def)

lemma copy_back_lazy_read_columns [simp]:
  "lazy_read_columns (copy_back_predicate_columns ctx) = lazy_read_columns ctx"
  by (simp add: copy_back_predicate_columns_def Let_def)

lemma copy_back_all_read_columns [simp]:
  "all_read_columns (copy_back_predicate_columns ctx) = all_read_columns ctx"
  by (simp add: copy_back_predicate_columns_def Let_def)

lemma copy_back_can_lazy_read [simp]:
  "can_lazy_read (copy_back_predicate_columns ctx) = can_lazy_read ctx"
  by (simp add: copy_back_predicate_columns_def Let_def)

lemma copy_back_conjuncts [simp]:
  "conjuncts (copy_back_predicate_columns ctx) = conjuncts ctx"
  by (simp add: copy_back_predicate_columns_def Let_def)

lemma copy_back_predicate_partition_columns [simp]:
  "predicate_partition_columns (copy_back_predicate_columns ctx) = predicate_partition_columns ctx"
  by (simp add: copy_back_predicate_columns_def Let_def)

lemma copy_back_predicate_missing_columns [simp]:
  "predicate_missing_columns (copy_back_predicate_columns ctx) = predicate_missing_columns ctx"
  by (simp add: copy_back_predicate_columns_def Let_def)

lemma copy_back_partition_keys:
  "fst ` set (partition_columns (copy_back_predicate_columns ctx)) =
     fst ` set (partition_columns ctx) \<union>
     (if can_lazy_read ctx then {} else fst ` set (predicate_partition_columns ctx))"
  by (simp add: copy_back_predicate_columns_def Let_def fold_emplace_keys)

lemma copy_back_missing_keys:
  "fst ` set (missing_columns (copy_back_predicate_columns ctx)) =
     fst ` set (missing_columns ctx) \<union>
     (if can_lazy_read ctx then {} else fst ` set (predicate_missing_columns ctx))"
  by (simp add: copy_back_predicate_columns_def Let_def fold_emplace_keys)

text \<open>The context \<^verbatim>\<open>ParquetReader::set_fill_columns\<close> leaves, field by field.\<close>

lemma parquet_set_fill_columns_ctx:
  "pq_lazy_read_ctx (snd (parquet_set_fill_columns ic r ps ms)) =
     (let ctx0 = pq_lazy_read_ctx r;
          pc = fst (fold visit_slot (conjuncts ctx0) ([], resize_first_column ctx0));
          rfc = snd (fold visit_slot (conjuncts ctx0) ([], resize_first_column ctx0));
          ctx2 = fold (pq_read_column ic pc) (pq_read_table_columns r)
                   (ctx0\<lparr>resize_first_column := rfc\<rparr>);
          ctx3 = (case pq_row_id_column_iterator_pair r of
                    None \<Rightarrow> ctx2
                  | Some rid \<Rightarrow>
                      ctx2\<lparr>all_predicate_col_ids := all_predicate_col_ids ctx2 @ [rid]\<rparr>);
          ctx5 = fold (pq_missing_column pc (pq_slot_id_to_filter_conjuncts r)) ms
                   (fold (pq_partition_column pc) ps ctx3)
      in copy_back_predicate_columns
           (if pq_enable_lazy_mat r \<and> fst (predicate_columns ctx5) \<noteq> [] \<and>
               lazy_read_columns ctx5 \<noteq> []
            then ctx5\<lparr>can_lazy_read := True\<rparr> else ctx5))"
  by (simp add: parquet_set_fill_columns_def Let_def split_beta)

lemma orc_read_column_can_lazy_read [simp]:
  "can_lazy_read (orc_read_column env acid pc c ctx) = can_lazy_read ctx"
  by (simp add: orc_read_column_def Let_def split: option.splits)

lemma orc_read_column_conjuncts [simp]:
  "conjuncts (orc_read_column env acid pc c ctx) = conjuncts ctx"
  by (simp add: orc_read_column_def Let_def split: option.splits)

lemma orc_read_column_partition_columns [simp]:
  "partition_columns (orc_read_column env acid pc c ctx) = partition_columns ctx"
  by (simp add: orc_read_column_def Let_def split: option.splits)

lemma orc_read_column_predicate_partition_columns [simp]:
  "predicate_partition_columns (orc_read_column env acid pc c ctx) = predicate_partition_columns ctx"
  by (simp add: orc_read_column_def Let_def split: option.splits)

lemma orc_read_column_missing_columns [simp]:
  "missing_columns (orc_read_column env acid pc c ctx) = missing_columns ctx"
  by (simp add: orc_read_column_def Let_def split: option.splits)

lemma orc_read_column_predicate_missing_columns [simp]:
  "predicate_missing_columns (orc_read_column env acid pc c ctx) = predicate_missing_columns ctx"
  by (simp add: orc_read_column_def Let_def split: option.splits)

lemma orc_read_column_fold_can_lazy_read [simp]:
  "can_lazy_read (fold (orc_read_column env acid pc) xs ctx) = can_lazy_read ctx"
  by (induction xs arbitrary: ctx) simp_all

lemma orc_read_column_fold_conjuncts [simp]:
  "conjuncts (fold (orc_read_column env acid pc) xs ctx) = conjuncts ctx"
  by (induction xs arbitrary: ctx) simp_all

lemma orc_read_column_fold_partition_columns [simp]:
  "partition_columns (fold (orc_read_column env acid pc) xs ctx) = partition_columns ctx"
  by (induction xs arbitrary: ctx) simp_all

lemma orc_read_column_fold_predicate_partition_columns [simp]:
  "predicate_partition_columns (fold (orc_read_column env acid pc) xs ctx) = predicate_partition_columns ctx"
  by (induction xs arbitrary: ctx) simp_all

lemma orc_read_column_fold_missing_columns [simp]:
  "missing_columns (fold (orc_read_column env acid pc) xs ctx) = missing_columns ctx"
  by (induction xs arbitrary: ctx) simp_all

lemma orc_read_column_fold_predicate_missing_columns [simp]:
  "predicate_missing_columns (fold (orc_read_column env acid pc) xs ctx) = predicate_missing_columns ctx"
  by (induction xs arbitrary: ctx) simp_all

lemma orc_read_column_fold_predicate:
  "fst (predicate_columns (fold (orc_read_column env acid pc) cols ctx)) =
     fst (predicate_columns ctx) @ (if pc = [] then [] else filter (\<lambda>c. map_of pc c \<noteq> None) cols)"
  by (induction cols arbitrary: ctx)
     (auto simp: orc_read_column_def Let_def split: option.splits)

lemma orc_read_column_fold_lazy:
  "lazy_read_columns (fold (orc_read_column env acid pc) cols ctx) =
     lazy_read_columns ctx @
     (if pc = [] then []
      else filter (\<lambda>c. map_of pc c = None \<and>
                        (\<not> acid \<or> c \<notin> set (READ_ROW_COLUMN_NAMES_LOWER_CASE env))) cols)"
  by (induction cols arbitrary: ctx)
     (auto simp: orc_read_column_def Let_def split: option.splits)

lemma orc_read_column_fold_all_read:
  "all_read_columns (fold (orc_read_column env acid pc) cols ctx) = all_read_columns ctx @ cols"
  by (induction cols arbitrary: ctx)
     (auto simp: orc_read_column_def Let_def split: option.splits)

lemma orc_partition_column_predicate_columns [simp]:
  "predicate_columns (orc_partition_column pc kv ctx) = predicate_columns ctx"
  by (simp add: orc_partition_column_def split: option.splits)

lemma orc_partition_column_lazy_read_columns [simp]:
  "lazy_read_columns (orc_partition_column pc kv ctx) = lazy_read_columns ctx"
  by (simp add: orc_partition_column_def split: option.splits)

lemma orc_partition_column_all_read_columns [simp]:
  "all_read_columns (orc_partition_column pc kv ctx) = all_read_columns ctx"
  by (simp add: orc_partition_column_def split: option.splits)

lemma orc_partition_column_can_lazy_read [simp]:
  "can_lazy_read (orc_partition_column pc kv ctx) = can_lazy_read ctx"
  by (simp add: orc_partition_column_def split: option.splits)

lemma orc_partition_column_conjuncts [simp]:
  "conjuncts (orc_partition_column pc kv ctx) = conjuncts ctx"
  by (simp add: orc_partition_column_def split: option.splits)

lemma orc_partition_column_missing_columns [simp]:
  "missing_columns (orc_partition_column pc kv ctx) = missing_columns ctx"
  by (simp add: orc_partition_column_def split: option.splits)

lemma orc_partition_column_predicate_missing_columns [simp]:
  "predicate_missing_columns (orc_partition_column pc kv ctx) = predicate_missing_columns ctx"
  by (simp add: orc_partition_column_def split: option.splits)

lemma orc_partition_column_fold_predicate_columns [simp]:
  "predicate_columns (fold (orc_partition_column pc) xs ctx) = predicate_columns ctx"
  by (induction xs arbitrary: ctx) simp_all

lemma orc_partition_column_fold_lazy_read_columns [simp]:
  "lazy_read_columns (fold (orc_partition_column pc) xs ctx) = lazy_read_columns ctx"
  by (induction xs arbitrary: ctx) simp_all

lemma orc_partition_column_fold_all_read_columns [simp]:
  "all_read_columns (fold (orc_partition_column pc) xs ctx) = all_read_columns ctx"
  by (induction xs arbitrary: ctx) simp_all

lemma orc_partition_column_fold_can_lazy_read [simp]:
  "can_lazy_read (fold (orc_partition_column pc) xs ctx) = can_lazy_read ctx"
  by (induction xs arbitrary: ctx) simp_all

lemma orc_partition_column_fold_conjuncts [simp]:
  "conjuncts (fold (orc_partition_column pc) xs ctx) = conjuncts ctx"
  by (induction xs arbitrary: ctx) simp_all

lemma orc_partition_column_fold_missing_columns [simp]:
  "missing_columns (fold (orc_partition_column pc) xs ctx) = missing_columns ctx"
  by (induction xs arbitrary: ctx) simp_all

lemma orc_partition_column_fold_predicate_missing_columns [simp]:
  "predicate_missing_columns (fold (orc_partition_column pc) xs ctx) = predicate_missing_columns ctx"
  by (induction xs arbitrary: ctx) simp_all

lemma orc_partition_column_fold_keys:
  "fst ` set (partition_columns (fold (orc_partition_column pc) ps ctx)) =
     fst ` set (partition_columns ctx) \<union> {k \<in> fst ` set ps. map_of pc k = None}"
  by (induction ps arbitrary: ctx)
     (auto simp: orc_partition_column_def emplace_keys split: option.splits)

lemma orc_partition_column_fold_predicate_keys:
  "fst ` set (predicate_partition_columns (fold (orc_partition_column pc) ps ctx)) =
     fst ` set (predicate_partition_columns ctx) \<union> {k \<in> fst ` set ps. map_of pc k \<noteq> None}"
  by (induction ps arbitrary: ctx)
     (auto simp: orc_partition_column_def emplace_keys split: option.splits)

lemma orc_missing_column_predicate_columns [simp]:
  "predicate_columns (fst (orc_missing_column pc sc kv st)) = predicate_columns (fst st)"
  by (simp add: orc_missing_column_def split: option.splits)

lemma orc_missing_column_lazy_read_columns [simp]:
  "lazy_read_columns (fst (orc_missing_column pc sc kv st)) = lazy_read_columns (fst st)"
  by (simp add: orc_missing_column_def split: option.splits)

lemma orc_missing_column_all_read_columns [simp]:
  "all_read_columns (fst (orc_missing_column pc sc kv st)) = all_read_columns (fst st)"
  by (simp add: orc_missing_column_def split: option.splits)

lemma orc_missing_column_can_lazy_read [simp]:
  "can_lazy_read (fst (orc_missing_column pc sc kv st)) = can_lazy_read (fst st)"
  by (simp add: orc_missing_column_def split: option.splits)

lemma orc_missing_column_conjuncts [simp]:
  "conjuncts (fst (orc_missing_column pc sc kv st)) = conjuncts (fst st)"
  by (simp add: orc_missing_column_def split: option.splits)

lemma orc_missing_column_partition_columns [simp]:
  "partition_columns (fst (orc_missing_column pc sc kv st)) = partition_columns (fst st)"
  by (simp add: orc_missing_column_def split: option.splits)

lemma orc_missing_column_predicate_partition_columns [simp]:
  "predicate_partition_columns (fst (orc_missing_column pc sc kv st)) = predicate_partition_columns (fst st)"
  by (simp add: orc_missing_column_def split: option.splits)

lemma orc_missing_column_fold_predicate_columns [simp]:
  "predicate_columns (fst (fold (orc_missing_column pc sc) xs st)) = predicate_columns (fst st)"
  by (induction xs arbitrary: st) simp_all

lemma orc_missing_column_fold_lazy_read_columns [simp]:
  "lazy_read_columns (fst (fold (orc_missing_column pc sc) xs st)) = lazy_read_columns (fst st)"
  by (induction xs arbitrary: st) simp_all

lemma orc_missing_column_fold_all_read_columns [simp]:
  "all_read_columns (fst (fold (orc_missing_column pc sc) xs st)) = all_read_columns (fst st)"
  by (induction xs arbitrary: st) simp_all

lemma orc_missing_column_fold_can_lazy_read [simp]:
  "can_lazy_read (fst (fold (orc_missing_column pc sc) xs st)) = can_lazy_read (fst st)"
  by (induction xs arbitrary: st) simp_all

lemma orc_missing_column_fold_conjuncts [simp]:
  "conjuncts (fst (fold (orc_missing_column pc sc) xs st)) = conjuncts (fst st)"
  by (induction xs arbitrary: st) simp_all

lemma orc_missing_column_fold_partition_columns [simp]:
  "partition_columns (fst (fold (orc_missing_column pc sc) xs st)) = partition_columns (fst st)"
  by (induction xs arbitrary: st) simp_all

lemma orc_missing_column_fold_predicate_partition_columns [simp]:
  "predicate_partition_columns (fst (fold (orc_missing_column pc sc) xs st)) = predicate_partition_columns (fst st)"
  by (induction xs arbitrary: st) simp_all

lemma orc_missing_column_fold_keys:
  "fst ` set (missing_columns (fst (fold (orc_missing_column pc sc) ms st))) =
     fst ` set (missing_columns (fst st)) \<union> {k \<in> fst ` set ms. map_of pc k = None}"
  by (induction ms arbitrary: st)
     (auto simp: orc_missing_column_def emplace_keys split: option.splits)

lemma orc_missing_column_fold_predicate_keys:
  "fst ` set (predicate_missing_columns (fst (fold (orc_missing_column pc sc) ms st))) =
     fst ` set (predicate_missing_columns (fst st)) \<union> {k \<in> fst ` set ms. map_of pc k \<noteq> None}"
  by (induction ms arbitrary: st)
     (auto simp: orc_missing_column_def emplace_keys split: option.splits)

lemma orc_collect_filter_conjuncts_ctx [simp]:
  "orc_lazy_read_ctx (orc_collect_filter_conjuncts r) = orc_lazy_read_ctx r"
  by (simp add: orc_collect_filter_conjuncts_def Let_def)

lemma orc_plan_columns_ctx:
  "fst (orc_plan_columns env r ps ms) =
     (let ctx0 = orc_lazy_read_ctx r;
          pc = fst (fold visit_slot (conjuncts ctx0) ([], resize_first_column ctx0));
          rfc = snd (fold visit_slot (conjuncts ctx0) ([], resize_first_column ctx0));
          ctx1 = ctx0\<lparr>resize_first_column := rfc\<rparr>;
          ctx2 = (if orc_is_acid r
                  then ctx1\<lparr>predicate_orc_columns :=
                              predicate_orc_columns ctx1 @ READ_ROW_COLUMN_NAMES env\<rparr>
                  else ctx1);
          ctx5 = fst (fold (orc_missing_column pc (orc_slot_id_to_filter_conjuncts r)) ms
                   (fold (orc_partition_column pc) ps
                      (fold (orc_read_column env (orc_is_acid r) pc) (orc_read_table_cols r) ctx2),
                    orc_filter_conjuncts r));
          ctx6 = (if orc_enable_lazy_mat r \<and> fst (predicate_columns ctx5) \<noteq> [] \<and>
                     lazy_read_columns ctx5 \<noteq> []
                  then ctx5\<lparr>can_lazy_read := True\<rparr> else ctx5)
      in if conjuncts ctx6 = [] then ctx6\<lparr>can_lazy_read := False\<rparr> else ctx6)"
  by (simp add: orc_plan_columns_def Let_def split_beta)

text \<open>
  The context \<^verbatim>\<open>OrcReader::set_fill_columns\<close> leaves on each of its ways out: the
  predicate columns are put back only when the \<^verbatim>\<open>try\<close> block got that far.
\<close>

lemma orc_set_fill_columns_ctx:
  "orc_lazy_read_ctx (snd (orc_set_fill_columns env r ps ms)) = fst (orc_plan_columns env r ps ms) \<or>
   orc_lazy_read_ctx (snd (orc_set_fill_columns env r ps ms)) =
     copy_back_predicate_columns (fst (orc_plan_columns env r ps ms))"
  by (simp add: orc_set_fill_columns_def Let_def split_beta split: option.splits)

lemma orc_plan_conjuncts:
  "conjuncts (fst (orc_plan_columns env r ps ms)) = conjuncts (orc_lazy_read_ctx r)"
  unfolding orc_plan_columns_ctx by (simp add: Let_def)

lemma orc_result_ctx:
  "orc_lazy_read_ctx (snd (orc_set_fill_columns env r ps ms)) =
     (if orc_reaches_put_back env r
      then copy_back_predicate_columns (fst (orc_plan_columns env r ps ms))
      else fst (orc_plan_columns env r ps ms))"
proof -
  have c: "conjuncts (fst (orc_plan_columns env r ps ms)) = conjuncts (orc_lazy_read_ctx r)"
    by (rule orc_plan_conjuncts)
  show ?thesis
    using c
    by (simp add: orc_set_fill_columns_def orc_reaches_put_back_def Let_def split_beta
          split: option.splits)
qed

lemma pq_result_all_read:
  assumes "pq_lazy_read_ctx r = new_lazy_read_ctx cs"
  shows "all_read_columns (pq_lazy_read_ctx (snd (parquet_set_fill_columns ic r ps ms))) =
           pq_read_table_columns r"
  unfolding parquet_set_fill_columns_ctx assms
  by (simp add: Let_def new_lazy_read_ctx_def pq_read_column_fold_all_read split: option.splits)

lemma orc_result_all_read:
  assumes "orc_lazy_read_ctx r = new_lazy_read_ctx cs"
  shows "all_read_columns (orc_lazy_read_ctx (snd (orc_set_fill_columns env r ps ms))) =
           orc_read_table_cols r"
proof -
  have "all_read_columns (fst (orc_plan_columns env r ps ms)) = orc_read_table_cols r"
    unfolding orc_plan_columns_ctx assms
    by (simp add: Let_def new_lazy_read_ctx_def orc_read_column_fold_all_read)
  then show ?thesis unfolding orc_result_ctx by simp
qed

text \<open>The lists and maps of the resulting context, in terms of the collected slots.\<close>

lemma pq_result_predicate:
  assumes "pq_lazy_read_ctx r = new_lazy_read_ctx cs"
  shows "fst (predicate_columns (pq_lazy_read_ctx (snd (parquet_set_fill_columns ic r ps ms)))) =
           (if conjunct_slots cs = [] then []
            else filter (\<lambda>c. map_of (conjunct_slots cs) c \<noteq> None) (pq_read_table_columns r))"
  unfolding parquet_set_fill_columns_ctx assms conjunct_slots_def
  by (simp add: Let_def new_lazy_read_ctx_def pq_read_column_fold_predicate split: option.splits)

lemma pq_result_lazy:
  assumes "pq_lazy_read_ctx r = new_lazy_read_ctx cs"
  shows "lazy_read_columns (pq_lazy_read_ctx (snd (parquet_set_fill_columns ic r ps ms))) =
           (if conjunct_slots cs = [] then []
            else filter (\<lambda>c. map_of (conjunct_slots cs) c = None) (pq_read_table_columns r))"
  unfolding parquet_set_fill_columns_ctx assms conjunct_slots_def
  by (simp add: Let_def new_lazy_read_ctx_def pq_read_column_fold_lazy split: option.splits)

lemma pq_result_predicate_partition:
  assumes "pq_lazy_read_ctx r = new_lazy_read_ctx cs"
  shows "fst ` set (predicate_partition_columns
                     (pq_lazy_read_ctx (snd (parquet_set_fill_columns ic r ps ms)))) =
           {k \<in> fst ` set ps. map_of (conjunct_slots cs) k \<noteq> None}"
  unfolding parquet_set_fill_columns_ctx assms conjunct_slots_def
  by (simp add: Let_def new_lazy_read_ctx_def pq_partition_column_fold_predicate_keys
        split: option.splits)

lemma pq_result_predicate_missing:
  assumes "pq_lazy_read_ctx r = new_lazy_read_ctx cs"
  shows "fst ` set (predicate_missing_columns
                     (pq_lazy_read_ctx (snd (parquet_set_fill_columns ic r ps ms)))) =
           {k \<in> fst ` set ms. map_of (conjunct_slots cs) k \<noteq> None}"
  unfolding parquet_set_fill_columns_ctx assms conjunct_slots_def
  by (simp add: Let_def new_lazy_read_ctx_def pq_missing_column_fold_predicate_keys
        split: option.splits)

lemma pq_result_partition:
  assumes "pq_lazy_read_ctx r = new_lazy_read_ctx cs"
  shows "fst ` set (partition_columns
                     (pq_lazy_read_ctx (snd (parquet_set_fill_columns ic r ps ms)))) =
           {k \<in> fst ` set ps. map_of (conjunct_slots cs) k = None} \<union>
           (if can_lazy_read (pq_lazy_read_ctx (snd (parquet_set_fill_columns ic r ps ms)))
            then {} else {k \<in> fst ` set ps. map_of (conjunct_slots cs) k \<noteq> None})"
  unfolding parquet_set_fill_columns_ctx assms conjunct_slots_def
  by (simp add: Let_def new_lazy_read_ctx_def copy_back_partition_keys
        pq_partition_column_fold_keys pq_partition_column_fold_predicate_keys
        split: option.splits)

lemma pq_result_missing:
  assumes "pq_lazy_read_ctx r = new_lazy_read_ctx cs"
  shows "fst ` set (missing_columns
                     (pq_lazy_read_ctx (snd (parquet_set_fill_columns ic r ps ms)))) =
           {k \<in> fst ` set ms. map_of (conjunct_slots cs) k = None} \<union>
           (if can_lazy_read (pq_lazy_read_ctx (snd (parquet_set_fill_columns ic r ps ms)))
            then {} else {k \<in> fst ` set ms. map_of (conjunct_slots cs) k \<noteq> None})"
  unfolding parquet_set_fill_columns_ctx assms conjunct_slots_def
  by (simp add: Let_def new_lazy_read_ctx_def copy_back_missing_keys
        pq_missing_column_fold_keys pq_missing_column_fold_predicate_keys
        split: option.splits)

lemma orc_plan_predicate:
  assumes "orc_lazy_read_ctx r = new_lazy_read_ctx cs"
  shows "fst (predicate_columns (fst (orc_plan_columns env r ps ms))) =
           (if conjunct_slots cs = [] then []
            else filter (\<lambda>c. map_of (conjunct_slots cs) c \<noteq> None) (orc_read_table_cols r))"
  unfolding orc_plan_columns_ctx assms conjunct_slots_def
  by (simp add: Let_def new_lazy_read_ctx_def orc_read_column_fold_predicate)

lemma orc_plan_lazy:
  assumes "orc_lazy_read_ctx r = new_lazy_read_ctx cs"
  shows "lazy_read_columns (fst (orc_plan_columns env r ps ms)) =
           (if conjunct_slots cs = [] then []
            else filter (\<lambda>c. map_of (conjunct_slots cs) c = None \<and>
                              (\<not> orc_is_acid r \<or> c \<notin> set (READ_ROW_COLUMN_NAMES_LOWER_CASE env)))
                   (orc_read_table_cols r))"
  unfolding orc_plan_columns_ctx assms conjunct_slots_def
  by (simp add: Let_def new_lazy_read_ctx_def orc_read_column_fold_lazy)

lemma orc_plan_partition:
  assumes "orc_lazy_read_ctx r = new_lazy_read_ctx cs"
  shows "fst ` set (partition_columns (fst (orc_plan_columns env r ps ms))) =
           {k \<in> fst ` set ps. map_of (conjunct_slots cs) k = None}"
    and "fst ` set (predicate_partition_columns (fst (orc_plan_columns env r ps ms))) =
           {k \<in> fst ` set ps. map_of (conjunct_slots cs) k \<noteq> None}"
  unfolding orc_plan_columns_ctx assms conjunct_slots_def
  by (simp_all add: Let_def new_lazy_read_ctx_def orc_partition_column_fold_keys
        orc_partition_column_fold_predicate_keys)

lemma orc_plan_missing:
  assumes "orc_lazy_read_ctx r = new_lazy_read_ctx cs"
  shows "fst ` set (missing_columns (fst (orc_plan_columns env r ps ms))) =
           {k \<in> fst ` set ms. map_of (conjunct_slots cs) k = None}"
    and "fst ` set (predicate_missing_columns (fst (orc_plan_columns env r ps ms))) =
           {k \<in> fst ` set ms. map_of (conjunct_slots cs) k \<noteq> None}"
  unfolding orc_plan_columns_ctx assms conjunct_slots_def
  by (simp_all add: Let_def new_lazy_read_ctx_def orc_missing_column_fold_keys
        orc_missing_column_fold_predicate_keys)

lemma orc_result_lists:
  "predicate_columns (orc_lazy_read_ctx (snd (orc_set_fill_columns env r ps ms))) =
     predicate_columns (fst (orc_plan_columns env r ps ms))"
  "lazy_read_columns (orc_lazy_read_ctx (snd (orc_set_fill_columns env r ps ms))) =
     lazy_read_columns (fst (orc_plan_columns env r ps ms))"
  "can_lazy_read (orc_lazy_read_ctx (snd (orc_set_fill_columns env r ps ms))) =
     can_lazy_read (fst (orc_plan_columns env r ps ms))"
  "predicate_partition_columns (orc_lazy_read_ctx (snd (orc_set_fill_columns env r ps ms))) =
     predicate_partition_columns (fst (orc_plan_columns env r ps ms))"
  "predicate_missing_columns (orc_lazy_read_ctx (snd (orc_set_fill_columns env r ps ms))) =
     predicate_missing_columns (fst (orc_plan_columns env r ps ms))"
  using orc_set_fill_columns_ctx[of env r ps ms] by auto

subsection \<open>The decision on lazy reading and what it selects\<close>




subsection \<open>Where the columns end up\<close>

text \<open>
  C5, as the code has it. From the freshly initialised context, both readers keep the
  predicate columns and the lazy columns disjoint, and \<^verbatim>\<open>all_read_columns\<close> lists every
  read column. The slots that count are those \<^verbatim>\<open>visit_slot\<close> collects (under a
  runtime-filter wrapper only those of the implementation). When it collects at least
  one, each read column is in exactly one of the two lists, the predicate list if its
  name was collected (in the ORC reader the ACID row columns of a transactional table
  go to neither). When it collects none, as with an empty conjunct set, both lists stay
  empty. A partition or missing column whose name was not collected is in
  \<^verbatim>\<open>partition_columns\<close> or \<^verbatim>\<open>missing_columns\<close>; one whose name was collected is in
  \<^verbatim>\<open>predicate_partition_columns\<close> or \<^verbatim>\<open>predicate_missing_columns\<close>, and in addition in
  \<^verbatim>\<open>partition_columns\<close> or \<^verbatim>\<open>missing_columns\<close> exactly when lazy reading is off and, for
  the ORC reader, the call got as far as putting the predicate columns back.
\<close>

theorem fill_columns_partition:
  assumes "pq_lazy_read_ctx r = new_lazy_read_ctx cs"
    and "orc_lazy_read_ctx ro = new_lazy_read_ctx cs'"
    and "P = pq_lazy_read_ctx (snd (parquet_set_fill_columns ic r ps ms))"
    and "Q = orc_lazy_read_ctx (snd (orc_set_fill_columns env ro ps' ms'))"
  shows "set (fst (predicate_columns P)) \<inter> set (lazy_read_columns P) = {} \<and>
         all_read_columns P = pq_read_table_columns r \<and>
         (conjunct_slots cs \<noteq> [] \<longrightarrow>
            (\<forall>c\<in>set (pq_read_table_columns r).
               (c \<in> set (fst (predicate_columns P)) \<longleftrightarrow> map_of (conjunct_slots cs) c \<noteq> None) \<and>
               (c \<in> set (lazy_read_columns P) \<longleftrightarrow> map_of (conjunct_slots cs) c = None))) \<and>
         (conjunct_slots cs = [] \<longrightarrow>
            fst (predicate_columns P) = [] \<and> lazy_read_columns P = []) \<and>
         (\<forall>k\<in>fst ` set ps.
            (k \<in> fst ` set (partition_columns P) \<longleftrightarrow>
               map_of (conjunct_slots cs) k = None \<or> \<not> can_lazy_read P) \<and>
            (k \<in> fst ` set (predicate_partition_columns P) \<longleftrightarrow>
               map_of (conjunct_slots cs) k \<noteq> None)) \<and>
         (\<forall>k\<in>fst ` set ms.
            (k \<in> fst ` set (missing_columns P) \<longleftrightarrow>
               map_of (conjunct_slots cs) k = None \<or> \<not> can_lazy_read P) \<and>
            (k \<in> fst ` set (predicate_missing_columns P) \<longleftrightarrow>
               map_of (conjunct_slots cs) k \<noteq> None)) \<and>
         set (fst (predicate_columns Q)) \<inter> set (lazy_read_columns Q) = {} \<and>
         all_read_columns Q = orc_read_table_cols ro \<and>
         (conjunct_slots cs' \<noteq> [] \<longrightarrow>
            (\<forall>c\<in>set (orc_read_table_cols ro).
               (c \<in> set (fst (predicate_columns Q)) \<longleftrightarrow> map_of (conjunct_slots cs') c \<noteq> None) \<and>
               (c \<in> set (lazy_read_columns Q) \<longleftrightarrow>
                  map_of (conjunct_slots cs') c = None \<and>
                  (\<not> orc_is_acid ro \<or> c \<notin> set (READ_ROW_COLUMN_NAMES_LOWER_CASE env))))) \<and>
         (conjunct_slots cs' = [] \<longrightarrow>
            fst (predicate_columns Q) = [] \<and> lazy_read_columns Q = []) \<and>
         (\<forall>k\<in>fst ` set ps'.
            (k \<in> fst ` set (partition_columns Q) \<longleftrightarrow>
               map_of (conjunct_slots cs') k = None \<or>
               orc_reaches_put_back env ro \<and> \<not> can_lazy_read Q) \<and>
            (k \<in> fst ` set (predicate_partition_columns Q) \<longleftrightarrow>
               map_of (conjunct_slots cs') k \<noteq> None)) \<and>
         (\<forall>k\<in>fst ` set ms'.
            (k \<in> fst ` set (missing_columns Q) \<longleftrightarrow>
               map_of (conjunct_slots cs') k = None \<or>
               orc_reaches_put_back env ro \<and> \<not> can_lazy_read Q) \<and>
            (k \<in> fst ` set (predicate_missing_columns Q) \<longleftrightarrow>
               map_of (conjunct_slots cs') k \<noteq> None))"
proof -
  note pq = pq_result_predicate[OF assms(1), of ic ps ms] pq_result_lazy[OF assms(1), of ic ps ms]
  have p1: "set (fst (predicate_columns P)) \<inter> set (lazy_read_columns P) = {}"
    unfolding assms(3) pq by auto
  have p1': "all_read_columns P = pq_read_table_columns r"
    unfolding assms(3) by (rule pq_result_all_read[OF assms(1)])
  have p2: "conjunct_slots cs \<noteq> [] \<longrightarrow>
            (\<forall>c\<in>set (pq_read_table_columns r).
               (c \<in> set (fst (predicate_columns P)) \<longleftrightarrow> map_of (conjunct_slots cs) c \<noteq> None) \<and>
               (c \<in> set (lazy_read_columns P) \<longleftrightarrow> map_of (conjunct_slots cs) c = None))"
    unfolding assms(3) pq by auto
  have p3: "conjunct_slots cs = [] \<longrightarrow>
            fst (predicate_columns P) = [] \<and> lazy_read_columns P = []"
    unfolding assms(3) pq by simp
  have p4: "\<forall>k\<in>fst ` set ps.
            (k \<in> fst ` set (partition_columns P) \<longleftrightarrow>
               map_of (conjunct_slots cs) k = None \<or> \<not> can_lazy_read P) \<and>
            (k \<in> fst ` set (predicate_partition_columns P) \<longleftrightarrow>
               map_of (conjunct_slots cs) k \<noteq> None)"
    unfolding assms(3) pq_result_partition[OF assms(1)] pq_result_predicate_partition[OF assms(1)]
    by (auto simp del: not_None_eq)
  have p5: "\<forall>k\<in>fst ` set ms.
            (k \<in> fst ` set (missing_columns P) \<longleftrightarrow>
               map_of (conjunct_slots cs) k = None \<or> \<not> can_lazy_read P) \<and>
            (k \<in> fst ` set (predicate_missing_columns P) \<longleftrightarrow>
               map_of (conjunct_slots cs) k \<noteq> None)"
    unfolding assms(3) pq_result_missing[OF assms(1)] pq_result_predicate_missing[OF assms(1)]
    by (auto simp del: not_None_eq)
  note oq = orc_result_lists[of env ro ps' ms'] orc_plan_predicate[OF assms(2), of env ps' ms']
    orc_plan_lazy[OF assms(2), of env ps' ms']
  have o1: "set (fst (predicate_columns Q)) \<inter> set (lazy_read_columns Q) = {}"
    unfolding assms(4) oq by auto
  have o1': "all_read_columns Q = orc_read_table_cols ro"
    unfolding assms(4) by (rule orc_result_all_read[OF assms(2)])
  have o2: "conjunct_slots cs' \<noteq> [] \<longrightarrow>
            (\<forall>c\<in>set (orc_read_table_cols ro).
               (c \<in> set (fst (predicate_columns Q)) \<longleftrightarrow> map_of (conjunct_slots cs') c \<noteq> None) \<and>
               (c \<in> set (lazy_read_columns Q) \<longleftrightarrow>
                  map_of (conjunct_slots cs') c = None \<and>
                  (\<not> orc_is_acid ro \<or> c \<notin> set (READ_ROW_COLUMN_NAMES_LOWER_CASE env))))"
    unfolding assms(4) oq by auto
  have o3: "conjunct_slots cs' = [] \<longrightarrow>
            fst (predicate_columns Q) = [] \<and> lazy_read_columns Q = []"
    unfolding assms(4) oq by simp
  have lazyQ: "can_lazy_read Q = can_lazy_read (fst (orc_plan_columns env ro ps' ms'))"
    unfolding assms(4) by (rule orc_result_lists(3))
  have o4: "\<forall>k\<in>fst ` set ps'.
            (k \<in> fst ` set (partition_columns Q) \<longleftrightarrow>
               map_of (conjunct_slots cs') k = None \<or>
               orc_reaches_put_back env ro \<and> \<not> can_lazy_read Q) \<and>
            (k \<in> fst ` set (predicate_partition_columns Q) \<longleftrightarrow>
               map_of (conjunct_slots cs') k \<noteq> None)"
    unfolding lazyQ unfolding assms(4) orc_result_ctx
    by (auto simp: copy_back_partition_keys orc_plan_partition[OF assms(2)]
          simp del: not_None_eq)
  have o5: "\<forall>k\<in>fst ` set ms'.
            (k \<in> fst ` set (missing_columns Q) \<longleftrightarrow>
               map_of (conjunct_slots cs') k = None \<or>
               orc_reaches_put_back env ro \<and> \<not> can_lazy_read Q) \<and>
            (k \<in> fst ` set (predicate_missing_columns Q) \<longleftrightarrow>
               map_of (conjunct_slots cs') k \<noteq> None)"
    unfolding lazyQ unfolding assms(4) orc_result_ctx
    by (auto simp: copy_back_missing_keys orc_plan_missing[OF assms(2)]
          simp del: not_None_eq)
  show ?thesis using p1 p1' p2 p3 p4 p5 o1 o1' o2 o3 o4 o5 by blast
qed

text \<open>
  The witness: columns \<open>a\<close> and \<open>b\<close> are read, a conjunct compares \<open>a\<close> with a literal,
  \<open>p\<close> is a partition column and \<open>m\<close> a missing column.
\<close>

theorem fill_columns_partition_witness:
  "pq_lazy_read_ctx (fresh_parquet_reader [conjunct_on_a] [''a'', ''b''])
     = new_lazy_read_ctx [conjunct_on_a] \<and>
   orc_lazy_read_ctx (fresh_orc_reader [conjunct_on_a] [''a'', ''b''])
     = new_lazy_read_ctx [conjunct_on_a] \<and>
   conjunct_slots [conjunct_on_a] = [(''a'', (0, 1))] \<and>
   ''a'' \<in> set (fst (predicate_columns (pq_lazy_read_ctx (snd (parquet_set_fill_columns
     (\<lambda>c. False) (fresh_parquet_reader [conjunct_on_a] [''a'', ''b''])
     [(''p'', (''1'', 3))] [(''m'', VExprOther [])]))))) \<and>
   ''b'' \<in> set (lazy_read_columns (pq_lazy_read_ctx (snd (parquet_set_fill_columns
     (\<lambda>c. False) (fresh_parquet_reader [conjunct_on_a] [''a'', ''b''])
     [(''p'', (''1'', 3))] [(''m'', VExprOther [])])))) \<and>
   all_read_columns (pq_lazy_read_ctx (snd (parquet_set_fill_columns
     (\<lambda>c. False) (fresh_parquet_reader [conjunct_on_a] [''a'', ''b''])
     [(''p'', (''1'', 3))] [(''m'', VExprOther [])]))) = [''a'', ''b''] \<and>
   ''p'' \<in> fst ` set (partition_columns (pq_lazy_read_ctx (snd (parquet_set_fill_columns
     (\<lambda>c. False) (fresh_parquet_reader [conjunct_on_a] [''a'', ''b''])
     [(''p'', (''1'', 3))] [(''m'', VExprOther [])])))) \<and>
   ''m'' \<in> fst ` set (missing_columns (pq_lazy_read_ctx (snd (parquet_set_fill_columns
     (\<lambda>c. False) (fresh_parquet_reader [conjunct_on_a] [''a'', ''b''])
     [(''p'', (''1'', 3))] [(''m'', VExprOther [])])))) \<and>
   ''a'' \<in> set (fst (predicate_columns (orc_lazy_read_ctx (snd (orc_set_fill_columns
     quiet_orc_env (fresh_orc_reader [conjunct_on_a] [''a'', ''b''])
     [(''p'', (''1'', 3))] [(''m'', VExprOther [])]))))) \<and>
   ''b'' \<in> set (lazy_read_columns (orc_lazy_read_ctx (snd (orc_set_fill_columns
     quiet_orc_env (fresh_orc_reader [conjunct_on_a] [''a'', ''b''])
     [(''p'', (''1'', 3))] [(''m'', VExprOther [])])))) \<and>
   all_read_columns (orc_lazy_read_ctx (snd (orc_set_fill_columns
     quiet_orc_env (fresh_orc_reader [conjunct_on_a] [''a'', ''b''])
     [(''p'', (''1'', 3))] [(''m'', VExprOther [])]))) = [''a'', ''b''] \<and>
   ''p'' \<in> fst ` set (partition_columns (orc_lazy_read_ctx (snd (orc_set_fill_columns
     quiet_orc_env (fresh_orc_reader [conjunct_on_a] [''a'', ''b''])
     [(''p'', (''1'', 3))] [(''m'', VExprOther [])])))) \<and>
   ''m'' \<in> fst ` set (missing_columns (orc_lazy_read_ctx (snd (orc_set_fill_columns
     quiet_orc_env (fresh_orc_reader [conjunct_on_a] [''a'', ''b''])
     [(''p'', (''1'', 3))] [(''m'', VExprOther [])]))))"
proof -
  let ?r = "fresh_parquet_reader [conjunct_on_a] [''a'', ''b'']"
  let ?ro = "fresh_orc_reader [conjunct_on_a] [''a'', ''b'']"
  have h1: "pq_lazy_read_ctx ?r = new_lazy_read_ctx [conjunct_on_a]"
    by (simp add: fresh_parquet_reader_def)
  have h2: "orc_lazy_read_ctx ?ro = new_lazy_read_ctx [conjunct_on_a]"
    by (simp add: fresh_orc_reader_def)
  have slots: "conjunct_slots [conjunct_on_a] = [(''a'', (0, 1))]"
    by (simp add: conjunct_slots_def conjunct_on_a_def emplace_def)
  have cols: "pq_read_table_columns ?r = [''a'', ''b'']" "orc_read_table_cols ?ro = [''a'', ''b'']"
    by (simp_all add: fresh_parquet_reader_def fresh_orc_reader_def)
  have acid: "\<not> orc_is_acid ?ro"
    by (simp add: fresh_orc_reader_def)
  from fill_columns_partition [OF h1 h2 refl refl, of "\<lambda>c. False" "[(''p'', (''1'', 3))]"
      "[(''m'', VExprOther [])]" quiet_orc_env "[(''p'', (''1'', 3))]" "[(''m'', VExprOther [])]"]
  show ?thesis unfolding slots cols using h1 h2 slots acid by simp
qed

text \<open>
  The claim as stated fails for an empty conjunct set: the read column \<open>a\<close> is then in
  none of the four sets (it is only in \<^verbatim>\<open>all_read_columns\<close>).
\<close>

theorem fill_columns_empty_conjuncts_counterexample:
  "''a'' \<in> set (pq_read_table_columns (fresh_parquet_reader [] [''a''])) \<and>
   ''a'' \<notin> set (fst (predicate_columns (pq_lazy_read_ctx (snd (parquet_set_fill_columns
     (\<lambda>c. False) (fresh_parquet_reader [] [''a'']) [] []))))) \<and>
   ''a'' \<notin> set (lazy_read_columns (pq_lazy_read_ctx (snd (parquet_set_fill_columns
     (\<lambda>c. False) (fresh_parquet_reader [] [''a'']) [] [])))) \<and>
   ''a'' \<notin> fst ` set (partition_columns (pq_lazy_read_ctx (snd (parquet_set_fill_columns
     (\<lambda>c. False) (fresh_parquet_reader [] [''a'']) [] [])))) \<and>
   ''a'' \<notin> fst ` set (missing_columns (pq_lazy_read_ctx (snd (parquet_set_fill_columns
     (\<lambda>c. False) (fresh_parquet_reader [] [''a'']) [] [])))) \<and>
   all_read_columns (pq_lazy_read_ctx (snd (parquet_set_fill_columns
     (\<lambda>c. False) (fresh_parquet_reader [] [''a'']) [] []))) = [''a'']"
  by (simp add: parquet_set_fill_columns_def fresh_parquet_reader_def new_lazy_read_ctx_def
        pq_read_column_def copy_back_predicate_columns_def Let_def)

subsection \<open>Page-index planning\<close>

lemma sorted_disjoint_Cons:
  "sorted_disjoint rs \<Longrightarrow> fst rg < snd rg \<Longrightarrow> (\<forall>r\<in>set rs. snd rg \<le> fst r) \<Longrightarrow>
   sorted_disjoint (rg # rs)"
  by (cases rs) auto

lemma sorted_disjoint_snoc:
  "sorted_disjoint rs \<Longrightarrow> fst rg < snd rg \<Longrightarrow> (\<forall>r\<in>set rs. snd r \<le> fst rg) \<Longrightarrow>
   sorted_disjoint (rs @ [rg])"
  by (induction rs rule: sorted_disjoint.induct) auto

lemma sorted_disjoint_tail: "sorted_disjoint (rg # rs) \<Longrightarrow> sorted_disjoint rs"
  by (cases rs) auto

lemma sorted_disjoint_head:
  "sorted_disjoint (rg # rs) \<Longrightarrow> fst rg < snd rg \<and> (\<forall>r\<in>set rs. snd rg \<le> fst r)"
proof (induction rs arbitrary: rg)
  case Nil
  then show ?case by simp
next
  case (Cons a rs)
  from Cons.prems have h: "fst rg < snd rg" "snd rg \<le> fst a" "sorted_disjoint (a # rs)" by auto
  from Cons.IH[OF h(3)] have "fst a < snd a" "\<forall>r\<in>set rs. snd a \<le> fst r" by auto
  then show ?case using h by fastforce
qed

lemma sorted_disjoint_nth:
  "sorted_disjoint rs \<Longrightarrow> i < j \<Longrightarrow> j < length rs \<Longrightarrow> snd (rs ! i) \<le> fst (rs ! j)"
proof (induction rs arbitrary: i j)
  case Nil
  then show ?case by simp
next
  case (Cons a rs)
  show ?case
  proof (cases i)
    case 0
    then have "rs ! (j - 1) \<in> set rs" using Cons.prems by (cases j) auto
    then show ?thesis using sorted_disjoint_head[OF Cons.prems(1)] 0 Cons.prems(2)
      by (cases j) auto
  next
    case (Suc i')
    then obtain j' where j: "j = Suc j'" using Cons.prems(2) by (cases j) auto
    show ?thesis
      using Cons.IH[OF sorted_disjoint_tail[OF Cons.prems(1)], of i' j'] Cons.prems Suc j
      by simp
  qed
qed

lemma in_ranges_simps [simp]:
  "in_ranges [] row = False"
  "in_ranges (rg # rs) row = (fst rg \<le> row \<and> row < snd rg \<or> in_ranges rs row)"
  "in_ranges (rs @ rs') row = (in_ranges rs row \<or> in_ranges rs' row)"
  by (auto simp: in_ranges_def)

text \<open>
  The merge loop: it appends to the candidates the gaps of the skipped ranges between
  the incoming \<^verbatim>\<open>skip_end\<close> and the outgoing one.
\<close>

lemma merge_skipped_ranges_gaps:
  assumes "sorted (map fst xs)" and "\<forall>x\<in>set xs. fst x \<le> snd x"
  shows "\<exists>se' d new.
           merge_skipped_ranges xs se rr cs = (se', rr + d, cs @ new) \<and>
           se \<le> se' \<and> (\<forall>x\<in>set xs. snd x \<le> se') \<and> (se' = se \<or> se' \<in> snd ` set xs) \<and>
           (\<forall>row. in_ranges new row \<longleftrightarrow> se \<le> row \<and> row < se' \<and> \<not> in_ranges xs row) \<and>
           (\<forall>rg\<in>set new. se \<le> fst rg \<and> snd rg \<le> se') \<and> sorted_disjoint new"
  using assms
proof (induction xs arbitrary: se rr cs)
  case Nil
  then show ?case by simp
next
  case (Cons x rest)
  have srt: "sorted (map fst rest)" and wf: "\<forall>x\<in>set rest. fst x \<le> snd x"
    and xwf: "fst x \<le> snd x" and xmin: "\<forall>y\<in>set rest. fst x \<le> fst y"
    using Cons.prems by auto
  consider (extend) "se \<ge> fst x" "se < snd x" | (inside) "se \<ge> fst x" "\<not> se < snd x"
    | (gap) "\<not> se \<ge> fst x" by blast
  then show ?case
  proof cases
    case extend
    from Cons.IH[OF srt wf, of "snd x" rr cs] obtain se' d new where
      m: "merge_skipped_ranges rest (snd x) rr cs = (se', rr + d, cs @ new)"
      and b: "snd x \<le> se'" "\<forall>x\<in>set rest. snd x \<le> se'" "se' = snd x \<or> se' \<in> snd ` set rest"
      and rows: "\<forall>row. in_ranges new row \<longleftrightarrow> snd x \<le> row \<and> row < se' \<and> \<not> in_ranges rest row"
      and within: "\<forall>rg\<in>set new. snd x \<le> fst rg \<and> snd rg \<le> se'"
      and sd: "sorted_disjoint new"
      by blast
    have "merge_skipped_ranges (x # rest) se rr cs = (se', rr + d, cs @ new)"
      using extend m by simp
    moreover have "\<forall>row. in_ranges new row \<longleftrightarrow> se \<le> row \<and> row < se' \<and> \<not> in_ranges (x # rest) row"
    proof
      fix row
      show "in_ranges new row \<longleftrightarrow> se \<le> row \<and> row < se' \<and> \<not> in_ranges (x # rest) row"
        unfolding rows[rule_format, of row] in_ranges_simps using extend xwf by linarith
    qed
    moreover have "\<forall>rg\<in>set new. se \<le> fst rg \<and> snd rg \<le> se'"
      using within extend by auto
    moreover have "se \<le> se'" using extend b by simp
    moreover have "\<forall>y\<in>set (x # rest). snd y \<le> se'" using b by simp
    moreover have "se' = se \<or> se' \<in> snd ` set (x # rest)" using b by auto
    ultimately show ?thesis using sd by blast
  next
    case inside
    from Cons.IH[OF srt wf, of se rr cs] obtain se' d new where
      m: "merge_skipped_ranges rest se rr cs = (se', rr + d, cs @ new)"
      and b: "se \<le> se'" "\<forall>x\<in>set rest. snd x \<le> se'" "se' = se \<or> se' \<in> snd ` set rest"
      and rows: "\<forall>row. in_ranges new row \<longleftrightarrow> se \<le> row \<and> row < se' \<and> \<not> in_ranges rest row"
      and within: "\<forall>rg\<in>set new. se \<le> fst rg \<and> snd rg \<le> se'"
      and sd: "sorted_disjoint new"
      by blast
    have "merge_skipped_ranges (x # rest) se rr cs = (se', rr + d, cs @ new)"
      using inside m by simp
    moreover have "\<forall>row. in_ranges new row \<longleftrightarrow> se \<le> row \<and> row < se' \<and> \<not> in_ranges (x # rest) row"
    proof
      fix row
      show "in_ranges new row \<longleftrightarrow> se \<le> row \<and> row < se' \<and> \<not> in_ranges (x # rest) row"
        unfolding rows[rule_format, of row] in_ranges_simps using inside by linarith
    qed
    moreover have "\<forall>y\<in>set (x # rest). snd y \<le> se'" using b inside by simp
    moreover have "se' = se \<or> se' \<in> snd ` set (x # rest)" using b by auto
    ultimately show ?thesis using sd within b(1) by blast
  next
    case gap
    from Cons.IH[OF srt wf, of "snd x" "rr + (fst x - se)" "cs @ [(se, fst x)]"]
    obtain se' d new where
      m: "merge_skipped_ranges rest (snd x) (rr + (fst x - se)) (cs @ [(se, fst x)])
            = (se', rr + (fst x - se) + d, (cs @ [(se, fst x)]) @ new)"
      and b: "snd x \<le> se'" "\<forall>x\<in>set rest. snd x \<le> se'" "se' = snd x \<or> se' \<in> snd ` set rest"
      and rows: "\<forall>row. in_ranges new row \<longleftrightarrow> snd x \<le> row \<and> row < se' \<and> \<not> in_ranges rest row"
      and within: "\<forall>rg\<in>set new. snd x \<le> fst rg \<and> snd rg \<le> se'"
      and sd: "sorted_disjoint new"
      by blast
    let ?new = "(se, fst x) # new"
    have "merge_skipped_ranges (x # rest) se rr cs = (se', rr + ((fst x - se) + d), cs @ ?new)"
      using gap m by (simp add: add.assoc)
    moreover have "\<forall>row. in_ranges ?new row \<longleftrightarrow> se \<le> row \<and> row < se' \<and> \<not> in_ranges (x # rest) row"
    proof (intro allI iffI)
      fix row assume "in_ranges ?new row"
      then consider "se \<le> row" "row < fst x" | "in_ranges new row"
        unfolding in_ranges_simps by auto
      then show "se \<le> row \<and> row < se' \<and> \<not> in_ranges (x # rest) row"
      proof cases
        case 1
        have "\<not> in_ranges rest row" using 1 xmin by (fastforce simp: in_ranges_def)
        then show ?thesis unfolding in_ranges_simps using 1 xwf b(1) by linarith
      next
        case 2
        then have "snd x \<le> row" "row < se'" "\<not> in_ranges rest row"
          using rows[rule_format, of row] by simp_all
        then show ?thesis unfolding in_ranges_simps using gap xwf by linarith
      qed
    next
      fix row assume a: "se \<le> row \<and> row < se' \<and> \<not> in_ranges (x # rest) row"
      show "in_ranges ?new row"
      proof (cases "row < fst x")
        case True
        then show ?thesis using a by simp
      next
        case False
        then have "snd x \<le> row" using a unfolding in_ranges_simps by linarith
        then have "in_ranges new row" using a rows[rule_format, of row] by simp
        then show ?thesis by simp
      qed
    qed
    moreover have "\<forall>rg\<in>set ?new. se \<le> fst rg \<and> snd rg \<le> se'"
      using within gap xwf b(1) by auto
    moreover have "sorted_disjoint ?new"
      using sd within gap xwf by (intro sorted_disjoint_Cons) auto
    moreover have "se \<le> se'" using gap xwf b(1) by simp
    moreover have "\<forall>y\<in>set (x # rest). snd y \<le> se'" using b by simp
    moreover have "se' = se \<or> se' \<in> snd ` set (x # rest)" using b by auto
    ultimately show ?thesis by blast
  qed
qed

lemma skipped_pages_to_row_ranges_acc:
  "skipped_pages_to_row_ranges c n pages acc =
     (case skipped_pages_to_row_ranges c n pages [] of
        Inl e \<Rightarrow> Inl e | Inr sk \<Rightarrow> Inr (acc @ sk))"
proof (induction pages arbitrary: acc)
  case Nil
  then show ?case by simp
next
  case (Cons p pages)
  show ?case
  proof (cases "create_skipped_row_range c n p")
    case (Inl e)
    then show ?thesis by simp
  next
    case (Inr rg)
    show ?thesis
      using Cons.IH[of "acc @ [rg]"] Cons.IH[of "[rg]"] Inr
      by (simp split: sum.splits)
  qed
qed

lemma column_skipped_row_ranges_acc:
  "column_skipped_row_ranges n c acc =
     (case column_skipped_row_ranges n c [] of
        Inl e \<Rightarrow> Inl e | Inr sk \<Rightarrow> Inr (acc @ sk))"
  using skipped_pages_to_row_ranges_acc[of c n _ acc]
  by (simp add: column_skipped_row_ranges_def split: sum.splits)

lemma collect_skipped_row_ranges_per_column:
  "list_all2 (\<lambda>c sk. column_skipped_row_ranges n c [] = Inr sk) cols per \<Longrightarrow>
   collect_skipped_row_ranges n cols acc = Inr (acc @ concat per)"
proof (induction cols per arbitrary: acc rule: list_all2_induct)
  case Nil
  then show ?case by simp
next
  case (Cons c cols sk per)
  have "column_skipped_row_ranges n c acc = Inr (acc @ sk)"
    using column_skipped_row_ranges_acc[of n c acc] Cons.hyps(1) by simp
  then show ?case using Cons.IH[of "acc @ sk"] by simp
qed

lemma in_ranges_concat:
  "in_ranges (concat per) row \<longleftrightarrow> (\<exists>sk\<in>set per. in_ranges sk row)"
  by (auto simp: in_ranges_def)

lemma sorted_ranges_fst:
  fixes xs :: "RowRange list"
  shows "sorted xs \<Longrightarrow> sorted (map fst xs)"
  by (induction xs) (auto simp: less_eq_prod_def)

text \<open>
  C2, as the code has it. When nothing stops the planning (no stop request, not the
  read-by-line mode, both index reads and every per-column step succeed, the skipped
  ranges lie inside a non-empty row group), the candidate ranges are sorted and
  pairwise disjoint, and a row is a candidate exactly when no predicate column skips
  it: the candidates are the complement of the union of all skipped ranges, that is the
  intersection of what the columns keep. When min-max filtering or the page index is
  off or absent, the single candidate is the whole row group.
\<close>

theorem page_index_candidates:
  assumes "\<not> pi_should_stop r" and "\<not> pi_read_line_mode_mode r"
  shows "(pi_enable_filter_by_min_max r \<and> \<not> pi_has_complex_type r \<and> pi_conjuncts r \<noteq> [] \<and>
          \<not> pi_colname_to_value_range_empty r \<and> pi_enable_parquet_page_index r \<and>
          pi_has_page_index r \<and> pi_read_column_index r = OK \<and> pi_read_offset_index r = OK \<and>
          list_all2 (\<lambda>c sk. column_skipped_row_ranges num_rows c [] = Inr sk)
            (pi_columns r) per_column \<and>
          (\<forall>sk\<in>set per_column. \<forall>rg\<in>set sk. fst rg \<le> snd rg \<and> snd rg \<le> num_rows) \<and>
          0 < num_rows
          \<longrightarrow>
          (\<exists>res. process_page_index r num_rows = (OK, res) \<and>
             (\<forall>rg\<in>set (candidate_row_ranges res). fst rg < snd rg) \<and>
             (\<forall>i j. i < j \<and> j < length (candidate_row_ranges res) \<longrightarrow>
                snd (candidate_row_ranges res ! i) \<le> fst (candidate_row_ranges res ! j)) \<and>
             (\<forall>row. in_ranges (candidate_row_ranges res) row \<longleftrightarrow>
                0 \<le> row \<and> row < num_rows \<and> (\<forall>sk\<in>set per_column. \<not> in_ranges sk row))))
         \<and>
         (\<not> pi_enable_filter_by_min_max r \<or> pi_has_complex_type r \<or> pi_conjuncts r = [] \<or>
          pi_colname_to_value_range_empty r \<or> \<not> pi_enable_parquet_page_index r \<or>
          \<not> pi_has_page_index r
          \<longrightarrow>
          process_page_index r num_rows = (OK, read_whole_row_group num_rows) \<and>
          candidate_row_ranges (read_whole_row_group num_rows) = [(0, num_rows)])"
proof (intro conjI impI)
  assume off: "\<not> pi_enable_filter_by_min_max r \<or> pi_has_complex_type r \<or> pi_conjuncts r = [] \<or>
          pi_colname_to_value_range_empty r \<or> \<not> pi_enable_parquet_page_index r \<or>
          \<not> pi_has_page_index r"
  then show "process_page_index r num_rows = (OK, read_whole_row_group num_rows)"
    using assms by (auto simp: process_page_index_def)
  show "candidate_row_ranges (read_whole_row_group num_rows) = [(0, num_rows)]"
    by (simp add: read_whole_row_group_def)
next
  assume on: "pi_enable_filter_by_min_max r \<and> \<not> pi_has_complex_type r \<and> pi_conjuncts r \<noteq> [] \<and>
          \<not> pi_colname_to_value_range_empty r \<and> pi_enable_parquet_page_index r \<and>
          pi_has_page_index r \<and> pi_read_column_index r = OK \<and> pi_read_offset_index r = OK \<and>
          list_all2 (\<lambda>c sk. column_skipped_row_ranges num_rows c [] = Inr sk)
            (pi_columns r) per_column \<and>
          (\<forall>sk\<in>set per_column. \<forall>rg\<in>set sk. fst rg \<le> snd rg \<and> snd rg \<le> num_rows) \<and>
          0 < num_rows"
  define skipped where "skipped = concat per_column"
  have coll: "collect_skipped_row_ranges num_rows (pi_columns r) [] = Inr skipped"
    using collect_skipped_row_ranges_per_column[of num_rows "pi_columns r" per_column "[]"] on
    by (simp add: skipped_def)
  have wf: "\<forall>x\<in>set skipped. fst x \<le> snd x \<and> snd x \<le> num_rows"
    using on by (auto simp: skipped_def)
  have skrows: "\<And>row. in_ranges skipped row \<longleftrightarrow> (\<exists>sk\<in>set per_column. in_ranges sk row)"
    unfolding skipped_def by (rule in_ranges_concat)
  show "\<exists>res. process_page_index r num_rows = (OK, res) \<and>
             (\<forall>rg\<in>set (candidate_row_ranges res). fst rg < snd rg) \<and>
             (\<forall>i j. i < j \<and> j < length (candidate_row_ranges res) \<longrightarrow>
                snd (candidate_row_ranges res ! i) \<le> fst (candidate_row_ranges res ! j)) \<and>
             (\<forall>row. in_ranges (candidate_row_ranges res) row \<longleftrightarrow>
                0 \<le> row \<and> row < num_rows \<and> (\<forall>sk\<in>set per_column. \<not> in_ranges sk row))"
  proof (cases "skipped = []")
    case True
    have res: "process_page_index r num_rows = (OK, read_whole_row_group num_rows)"
      using assms on coll True by (simp add: process_page_index_def)
    have none: "\<And>row. \<not> in_ranges skipped row" unfolding True by simp
    have "\<forall>row. in_ranges [(0, num_rows)] row \<longleftrightarrow>
                0 \<le> row \<and> row < num_rows \<and> (\<forall>sk\<in>set per_column. \<not> in_ranges sk row)"
      using none skrows by simp
    then show ?thesis using res on by (simp add: read_whole_row_group_def)
  next
    case False
    have srt: "sorted (map fst (sort skipped))" by (rule sorted_ranges_fst) simp
    have wf': "\<forall>x\<in>set (sort skipped). fst x \<le> snd x" using wf by simp
    from merge_skipped_ranges_gaps[OF srt wf', of 0 0 "[]"] obtain se' d new where
      m0: "merge_skipped_ranges (sort skipped) 0 0 [] = (se', 0 + d, [] @ new)"
      and b: "0 \<le> se'" "se' = 0 \<or> se' \<in> snd ` set (sort skipped)"
      and rows: "\<forall>row. in_ranges new row \<longleftrightarrow> 0 \<le> row \<and> row < se' \<and> \<not> in_ranges (sort skipped) row"
      and within: "\<forall>rg\<in>set new. 0 \<le> fst rg \<and> snd rg \<le> se'"
      and sd: "sorted_disjoint new"
      and top: "\<forall>x\<in>set (sort skipped). snd x \<le> se'"
      by blast
    have m: "merge_skipped_ranges (sort skipped) 0 0 [] = (se', d, new)" using m0 by simp
    have se_le: "se' \<le> num_rows" using b(2) wf on by auto
    have same: "\<And>row. in_ranges (sort skipped) row = in_ranges skipped row"
      by (simp add: in_ranges_def)
    define cands where "cands = (if se' \<noteq> num_rows then new @ [(se', num_rows)] else new)"
    have res: "process_page_index r num_rows =
                 (OK, \<lparr>candidate_row_ranges = cands,
                       stat_read_rows = (if se' \<noteq> num_rows then d + (num_rows - se') else d),
                       stat_filtered_page_rows =
                         num_rows - (if se' \<noteq> num_rows then d + (num_rows - se') else d)\<rparr>)"
      using assms on coll False m by (simp add: process_page_index_def cands_def)
    have sdc: "sorted_disjoint cands"
      unfolding cands_def using sd within se_le
      by (auto intro!: sorted_disjoint_snoc)
    have nonempty: "\<forall>rg\<in>set cands. fst rg < snd rg"
      using sdc
    proof (induction cands)
      case Nil
      then show ?case by simp
    next
      case (Cons a cands)
      then show ?case
        using sorted_disjoint_head[OF Cons.prems] sorted_disjoint_tail[OF Cons.prems] by simp
    qed
    have covered: "\<And>row. se' \<le> row \<Longrightarrow> row < num_rows \<Longrightarrow> \<not> in_ranges skipped row \<Longrightarrow> se' \<noteq> num_rows"
      by auto
    have rows': "\<forall>row. in_ranges cands row \<longleftrightarrow>
                0 \<le> row \<and> row < num_rows \<and> (\<forall>sk\<in>set per_column. \<not> in_ranges sk row)"
    proof
      fix row
      have above: "se' \<le> row \<Longrightarrow> \<not> in_ranges skipped row"
        using top by (fastforce simp: in_ranges_def)
      have "in_ranges cands row \<longleftrightarrow> 0 \<le> row \<and> row < num_rows \<and> \<not> in_ranges skipped row"
        unfolding cands_def using rows[rule_format, of row] same[of row] se_le b(1) above
        by (cases "se' \<le> row") auto
      then show "in_ranges cands row \<longleftrightarrow>
                0 \<le> row \<and> row < num_rows \<and> (\<forall>sk\<in>set per_column. \<not> in_ranges sk row)"
        using skrows[of row] by blast
    qed
    show ?thesis
      using res nonempty rows' sorted_disjoint_nth[OF sdc] by auto
  qed
qed

lemma two_column_reader_skipped:
  "column_skipped_row_ranges 100 (two_page_column 0 [0]) [] = Inr [(0, 50)]"
  "column_skipped_row_ranges 100 (two_page_column 1 []) [] = Inr []"
  by (simp_all add: column_skipped_row_ranges_def two_page_column_def)

lemma two_column_reader_result:
  "process_page_index two_column_reader 100 =
     (OK, \<lparr>candidate_row_ranges = [(50, 100)], stat_read_rows = 50,
           stat_filtered_page_rows = 50\<rparr>)"
  by (simp add: process_page_index_def two_column_reader_def column_skipped_row_ranges_def
        two_page_column_def Let_def)

theorem page_index_candidates_witness:
  "\<not> pi_should_stop two_column_reader \<and> \<not> pi_read_line_mode_mode two_column_reader \<and>
   list_all2 (\<lambda>c sk. column_skipped_row_ranges 100 c [] = Inr sk)
     (pi_columns two_column_reader) [[(0, 50)], []] \<and>
   (\<exists>res. process_page_index two_column_reader 100 = (OK, res) \<and>
      candidate_row_ranges res = [(50, 100)] \<and>
      (\<forall>row. in_ranges (candidate_row_ranges res) row \<longleftrightarrow>
         0 \<le> row \<and> row < 100 \<and> (\<forall>sk\<in>set [[(0, 50)], []]. \<not> in_ranges sk row)))"
proof -
  have h1: "\<not> pi_should_stop two_column_reader" by (simp add: two_column_reader_def)
  have h2: "\<not> pi_read_line_mode_mode two_column_reader" by (simp add: two_column_reader_def)
  have per: "list_all2 (\<lambda>c sk. column_skipped_row_ranges 100 c [] = Inr sk)
               (pi_columns two_column_reader) [[(0, 50)], []]"
    by (simp add: two_column_reader_def two_column_reader_skipped)
  have on: "pi_enable_filter_by_min_max two_column_reader \<and>
            \<not> pi_has_complex_type two_column_reader \<and> pi_conjuncts two_column_reader \<noteq> [] \<and>
            \<not> pi_colname_to_value_range_empty two_column_reader \<and>
            pi_enable_parquet_page_index two_column_reader \<and>
            pi_has_page_index two_column_reader \<and> pi_read_column_index two_column_reader = OK \<and>
            pi_read_offset_index two_column_reader = OK"
    by (simp add: two_column_reader_def)
  have wf: "\<forall>sk\<in>set [[(0, 50)], []]. \<forall>rg\<in>set sk. fst rg \<le> snd rg \<and> snd rg \<le> (100::int)"
    by simp
  from page_index_candidates [OF h1 h2, of 100 "[[(0, 50)], []]"] on per wf
  obtain res where res: "process_page_index two_column_reader 100 = (OK, res)"
    "\<forall>row. in_ranges (candidate_row_ranges res) row \<longleftrightarrow>
         0 \<le> row \<and> row < 100 \<and> (\<forall>sk\<in>set [[(0, 50)], []]. \<not> in_ranges sk row)"
    by auto
  moreover have "candidate_row_ranges res = [(50, 100)]"
    using res(1) unfolding two_column_reader_result by auto
  ultimately show ?thesis using h1 h2 per by blast
qed

text \<open>
  The claim as stated fails: the first column skips rows 0 to 49, the second column
  skips none of them, so the union of the rows the columns keep is the whole row group,
  yet row 10 is not a candidate.
\<close>

theorem page_index_union_counterexample:
  "column_skipped_row_ranges 100 (two_page_column 0 [0]) [] = Inr [(0, 50)] \<and>
   column_skipped_row_ranges 100 (two_page_column 1 []) [] = Inr [] \<and>
   candidate_row_ranges (snd (process_page_index two_column_reader 100)) = [(50, 100)] \<and>
   spec_union_of_kept 100 [[(0, 50)], []] 10 \<and>
   \<not> in_ranges (candidate_row_ranges (snd (process_page_index two_column_reader 100))) 10"
  by (simp add: two_column_reader_skipped two_column_reader_result spec_union_of_kept_def)

subsection \<open>Row-group planning by statistics\<close>

lemma required_file_columns_exist:
  "\<forall>p\<in>set m0. children_column_exists node (snd p) \<Longrightarrow>
   \<forall>p\<in>set (fold (\<lambda>table_column_name m.
             if children_column_exists node table_column_name
             then emplace m (children_file_column_name node table_column_name) table_column_name
             else m) cols m0). children_column_exists node (snd p)"
proof (induction cols arbitrary: m0)
  case Nil
  then show ?case by simp
next
  case (Cons c cols)
  have "\<forall>p\<in>set (if children_column_exists node c
                   then emplace m0 (children_file_column_name node c) c else m0).
          children_column_exists node (snd p)"
    using Cons.prems by (auto simp: emplace_def split: option.splits)
  from Cons.IH[OF this] show ?case by simp
qed

text \<open>Every column \<^verbatim>\<open>init_reader\<close> puts in \<^verbatim>\<open>_read_table_columns\<close> exists in the file.\<close>

lemma init_read_table_columns_exist:
  "c \<in> set (init_read_table_columns node schema_names all_column_names) \<Longrightarrow>
   children_column_exists node c"
proof -
  assume "c \<in> set (init_read_table_columns node schema_names all_column_names)"
  then obtain name where
    "map_of (required_file_columns node all_column_names) name = Some c"
    by (auto simp: init_read_table_columns_def split: option.splits)
  then have "(name, c) \<in> set (required_file_columns node all_column_names)"
    by (rule map_of_SomeD)
  then show ?thesis
    using required_file_columns_exist[of "[]" node all_column_names]
    by (fastforce simp: required_file_columns_def)
qed

text \<open>
  Hence the loop of the statistics filter passes over every read column at its first
  statement and never reaches \<^verbatim>\<open>filter_by_stats\<close>: the flag comes back as it went in,
  whatever the statistics and the value ranges are.
\<close>

lemma column_stat_filter_loop_skips_all:
  "\<forall>c\<in>set cols. children_column_exists (sf_table_info_node env) c \<Longrightarrow>
   column_stat_filter_loop env vr columns cols (fg, ig) = (OK, fg, ig)"
  by (induction cols) simp_all

lemma process_column_stat_filter_never_filters:
  assumes "sf_read_table_columns r =
             init_read_table_columns (sf_table_info_node env) schema_names all_column_names"
  shows "process_column_stat_filter env r columns fg = (OK, fg, r)"
proof -
  have "\<forall>c\<in>set (sf_read_table_columns r). children_column_exists (sf_table_info_node env) c"
    unfolding assms using init_read_table_columns_exist by blast
  then show ?thesis
    by (simp add: process_column_stat_filter_def column_stat_filter_loop_skips_all
          split: option.splits)
qed

text \<open>
  C1 at Scenario A. The statistics \<open>min = 10\<close>, \<open>max = 20\<close> prove the row group disjoint
  from \<open>x > 25\<close>, and the pruning predicate says so; yet row-group planning returns
  \<open>OK\<close> with the group among the row groups to read and none counted as filtered.
\<close>

theorem scenario_A_row_group_not_skipped:
  "filter_by_stats_spec (GreaterThan 25)
     \<lparr>fs_physical_column_index = 0, fs_physical_type = INT32,
      fs_logical_type_isset_UNKNOWN = False, fs_sort_order = SIGNED\<rparr>
     False 10 20 False True \<and>
   sf_read_table_columns scenario_A_reader = [''x''] \<and>
   fst (init_row_groups scenario_A_env scenario_A_reader [scenario_A_row_group] 100 True) = OK \<and>
   sf_read_row_groups
     (snd (init_row_groups scenario_A_env scenario_A_reader [scenario_A_row_group] 100 True))
     = [(0, 0, 100)] \<and>
   sf_stat_filtered_row_groups
     (snd (init_row_groups scenario_A_env scenario_A_reader [scenario_A_row_group] 100 True))
     = 0"
  by (simp add: filter_by_stats_spec_def scenario_A_reader_def scenario_A_env_def
        scenario_A_node_def scenario_A_row_group_def init_row_groups_def
        init_read_table_columns_def required_file_columns_def emplace_def
        is_misaligned_range_group_def get_column_start_offset_def int64_wrap_def
        process_row_group_filter_def process_column_stat_filter_def
        signed_divide_int_def Let_def)

text \<open>
  The statements behind the first one do prune once they are reached: for a column the
  node reports as absent, the same statistics and predicate set the flag.
\<close>

lemma scenario_A_filter_behind_the_guard:
  "column_stat_filter_loop
     (scenario_A_env\<lparr>sf_table_info_node :=
        \<lparr>children_column_exists = (\<lambda>c. False), children_file_column_name = (\<lambda>c. c)\<rparr>\<rparr>)
     [(''x'', GreaterThan 25)] (rg_columns scenario_A_row_group) [''x''] (False, [])
   = (OK, True, [])"
  by (simp add: scenario_A_env_def scenario_A_row_group_def filter_by_stats_spec_def Let_def)

subsection \<open>Empty files\<close>

text \<open>
  C10. An ORC reader that has not been created yet and whose file opens with length 0
  answers \<^verbatim>\<open>init_reader\<close> with an end-of-file status; so does a Parquet reader whose
  file opens and whose footer lists no row group.
\<close>

theorem empty_file_is_end_of_file:
  "(\<not> reader_created s \<and>
    (file_input_stream s = Some 0 \<or>
     file_input_stream s = None \<and> oo_create_file_reader env = Inr 0)
    \<longrightarrow> is_end_of_file (fst (orc_init_reader env s)) \<and>
        fst (orc_init_reader env s) = EndOfFile (''empty orc file: '' @ oo_path env))
   \<and>
   (fst (open_file penv ps) = OK \<and>
    po_file_metadata (snd (open_file penv ps)) = Some md \<and> md_row_groups md = []
    \<longrightarrow> is_end_of_file (fst (parquet_init_reader penv senv ps r schema_names cols fg)) \<and>
        fst (parquet_init_reader penv senv ps r schema_names cols fg) =
          EndOfFile (''init reader failed, empty parquet file: '' @ po_path penv))"
proof (intro conjI impI)
  assume a: "\<not> reader_created s \<and>
    (file_input_stream s = Some 0 \<or>
     file_input_stream s = None \<and> oo_create_file_reader env = Inr 0)"
  then show e: "fst (orc_init_reader env s) = EndOfFile (''empty orc file: '' @ oo_path env)"
    by (auto simp: orc_init_reader_def create_file_reader_def Let_def)
  show "is_end_of_file (fst (orc_init_reader env s))" unfolding e by simp
next
  assume b: "fst (open_file penv ps) = OK \<and>
    po_file_metadata (snd (open_file penv ps)) = Some md \<and> md_row_groups md = []"
  then show e: "fst (parquet_init_reader penv senv ps r schema_names cols fg) =
          EndOfFile (''init reader failed, empty parquet file: '' @ po_path penv)"
    by (cases "open_file penv ps") (simp add: parquet_init_reader_def)
  show "is_end_of_file (fst (parquet_init_reader penv senv ps r schema_names cols fg))"
    unfolding e by simp
qed

theorem empty_file_is_end_of_file_witness:
  "\<not> reader_created \<lparr>reader_created = False, file_input_stream = None\<rparr> \<and>
   file_input_stream \<lparr>reader_created = False, file_input_stream = None\<rparr> = None \<and>
   oo_create_file_reader empty_orc_env = Inr 0 \<and>
   fst (orc_init_reader empty_orc_env \<lparr>reader_created = False, file_input_stream = None\<rparr>)
     = EndOfFile ''empty orc file: t.orc'' \<and>
   fst (open_file empty_parquet_env \<lparr>po_file_reader = None, po_file_metadata = None\<rparr>) = OK \<and>
   po_file_metadata
     (snd (open_file empty_parquet_env \<lparr>po_file_reader = None, po_file_metadata = None\<rparr>))
     = Some \<lparr>md_row_groups = [], md_num_rows = 0\<rparr> \<and>
   fst (parquet_init_reader empty_parquet_env scenario_A_env
          \<lparr>po_file_reader = None, po_file_metadata = None\<rparr> scenario_A_reader
          [''x''] [''x''] True)
     = EndOfFile ''init reader failed, empty parquet file: t.parquet''"
proof -
  let ?s = "\<lparr>reader_created = False, file_input_stream = None\<rparr>"
  let ?ps = "\<lparr>po_file_reader = None, po_file_metadata = (None :: int FileMetaData option)\<rparr>"
  let ?md = "\<lparr>md_row_groups = ([] :: int RowGroup list), md_num_rows = 0\<rparr>"
  have h1: "\<not> reader_created ?s \<and>
            (file_input_stream ?s = Some 0 \<or>
             file_input_stream ?s = None \<and> oo_create_file_reader empty_orc_env = Inr 0)"
    by (simp add: empty_orc_env_def)
  have h2: "fst (open_file empty_parquet_env ?ps) = OK \<and>
            po_file_metadata (snd (open_file empty_parquet_env ?ps)) = Some ?md \<and>
            md_row_groups ?md = []"
    by (simp add: open_file_def empty_parquet_env_def sizeof_PARQUET_VERSION_NUMBER_def Let_def)
  have paths: "oo_path empty_orc_env = ''t.orc''" "po_path empty_parquet_env = ''t.parquet''"
    by (simp_all add: empty_orc_env_def empty_parquet_env_def)
  from empty_file_is_end_of_file [of ?s empty_orc_env empty_parquet_env ?ps ?md
      scenario_A_env scenario_A_reader "[''x'']" "[''x'']" True]
  show ?thesis using h1 h2 paths by simp
qed

subsection \<open>Cooperative stop\<close>







subsection \<open>Dictionary filtering\<close>

lemma scenario_C_rewrite:
  "on_string_dicts_loaded scenario_C_env [(''col'', [''a'', ''b'', ''c''])] scenario_C_state
   = (OK, False, scenario_C_state\<lparr>dict_filter_conjuncts := [CodeEq 7 1 False]\<rparr>)"
  by (simp add: on_string_dicts_loaded_def scenario_C_env_def scenario_C_state_def
        dict_filter_column_def execute_conjuncts_def rewrite_dict_conjuncts_def
        MAX_DICT_CODE_PREDICATE_TO_REWRITE_def upt_rec Let_def)

lemma scenario_C_absent:
  "on_string_dicts_loaded scenario_C_env [(''col'', [''a'', ''c''])] scenario_C_state
   = (OK, True, scenario_C_state)"
  by (simp add: on_string_dicts_loaded_def scenario_C_env_def scenario_C_state_def
        dict_filter_column_def execute_conjuncts_def rewrite_dict_conjuncts_def
        MAX_DICT_CODE_PREDICATE_TO_REWRITE_def upt_rec Let_def)










end
